theory Spec2Isabelle
  imports Complex_Main
begin

section \<open>Data model\<close>

text \<open>
  The simulation core lives in two Streamlit applications:
  \<^verbatim>\<open>services/streamlit/synaptic-weight-visualizer/app.py\<close> (spike sources and the three
  plasticity rules) and \<^verbatim>\<open>services/streamlit/lif-explorer/app.py\<close> (the membrane
  integrator). Floating-point numbers are modelled as \<^typ>\<open>real\<close>; NaN and infinities are
  outside the model. Two groups of floating-point operations are arguments of the model, so
  that every statement about them holds for all operations, hence for the program's own:
  the division whose quotient becomes a step count (in the spike sources and in the
  integrator), and the whole arithmetic of the integrator, whose potential is stored in a
  \<^verbatim>\<open>float32\<close> array and then tested against the threshold. All other arithmetic
  (weights, traces, spike probabilities, the mixing of the correlated source) is exact.
  The exceptions that Python and numpy raise on the way (indexing past the end, shapes that
  do not broadcast, division of Python floats by zero) are values of \<open>py_error\<close>, and
  every function that can raise returns a sum.
\<close>

datatype py_error = IndexError | ValueError | ZeroDivisionError

text \<open>
  A two-dimensional numpy array: its shape and the list of its rows. numpy arrays are
  rectangular by construction, which is the predicate \<open>wf_ndarray\<close>.
\<close>

record ndarray2 =
  shape0 :: nat
  shape1 :: nat
  rows :: "real list list"

definition wf_ndarray :: "ndarray2 \<Rightarrow> bool" where
  "wf_ndarray A \<longleftrightarrow> length (rows A) = shape0 A \<and> list_all (\<lambda>r. length r = shape1 A) (rows A)"

text \<open>Every entry of the matrix lies in the closed interval.\<close>

definition in_bounds :: "real \<Rightarrow> real \<Rightarrow> ndarray2 \<Rightarrow> bool" where
  "in_bounds lo hi A \<longleftrightarrow> list_all (list_all (\<lambda>x. lo \<le> x \<and> x \<le> hi)) (rows A)"

text \<open>The array holds only zeros.\<close>

definition all_zero :: "ndarray2 \<Rightarrow> bool" where
  "all_zero A \<longleftrightarrow> list_all (list_all (\<lambda>x. x = 0)) (rows A)"

section \<open>Python and numpy primitives\<close>

text \<open>
  \<^verbatim>\<open>a / b\<close> on Python floats: a zero divisor raises, otherwise the result is the
  float quotient \<open>fdiv a b\<close>. The division \<open>fdiv\<close> is an argument: the quotients that become
  step counts are taken with an arbitrary one, which stands for Python's rounded division;
  the quotients \<^verbatim>\<open>-dt / tau\<close> of the plasticity rules, which only go into
  \<^verbatim>\<open>np.exp\<close>, are taken with the exact \<open>(/)\<close>.
\<close>

definition py_div :: "(real \<Rightarrow> real \<Rightarrow> real) \<Rightarrow> real \<Rightarrow> real \<Rightarrow> py_error + real" where
  "py_div fdiv a b = (if b = 0 then Inl ZeroDivisionError else Inr (fdiv a b))"

text \<open>\<^verbatim>\<open>int(x)\<close> on a float truncates towards zero, without rounding.\<close>

definition py_int :: "real \<Rightarrow> int" where
  "py_int x = (if 0 \<le> x then \<lfloor>x\<rfloor> else \<lceil>x\<rceil>)"

text \<open>\<^verbatim>\<open>A[t]\<close> for a non-negative index: row \<open>t\<close>, or IndexError past the end.\<close>

definition getitem_row :: "ndarray2 \<Rightarrow> nat \<Rightarrow> py_error + real list" where
  "getitem_row A t = (if t < shape0 A then Inr (rows A ! t) else Inl IndexError)"

text \<open>\<^verbatim>\<open>np.where(r > 0)[0]\<close>: the indices of the positive entries, ascending.\<close>

definition np_where_pos :: "real list \<Rightarrow> nat list" where
  "np_where_pos r = filter (\<lambda>i. 0 < r ! i) [0..<length r]"

text \<open>\<^verbatim>\<open>v *= c\<close> and \<^verbatim>\<open>c * v\<close> on a one-dimensional array.\<close>

definition scale1 :: "real \<Rightarrow> real list \<Rightarrow> real list" where
  "scale1 c v = map (\<lambda>x. c * x) v"

text \<open>\<^verbatim>\<open>v[i] += x\<close>.\<close>

definition iadd_at :: "real list \<Rightarrow> nat \<Rightarrow> real \<Rightarrow> py_error + real list" where
  "iadd_at v i x = (if i < length v then Inr (v[i := v ! i + x]) else Inl IndexError)"

text \<open>
  Broadcasting a one-dimensional operand to a target of length \<open>n\<close>: the lengths agree, or
  the operand has length one and is repeated; anything else is a ValueError.
\<close>

definition broadcast1 :: "real list \<Rightarrow> nat \<Rightarrow> py_error + real list" where
  "broadcast1 v n =
     (if length v = n then Inr v
      else if length v = 1 then Inr (replicate n (v ! 0))
      else Inl ValueError)"

text \<open>\<^verbatim>\<open>u += v\<close> on one-dimensional arrays.\<close>

definition iadd1 :: "real list \<Rightarrow> real list \<Rightarrow> py_error + real list" where
  "iadd1 u v =
     (case broadcast1 v (length u) of
        Inl e \<Rightarrow> Inl e
      | Inr v' \<Rightarrow> Inr (map2 (+) u v'))"

text \<open>\<^verbatim>\<open>A[i, :] -= v\<close>: the row is looked up first, then the operand is broadcast.\<close>

definition isub_row :: "ndarray2 \<Rightarrow> nat \<Rightarrow> real list \<Rightarrow> py_error + ndarray2" where
  "isub_row A i v =
     (if shape0 A \<le> i then Inl IndexError
      else case broadcast1 v (shape1 A) of
        Inl e \<Rightarrow> Inl e
      | Inr v' \<Rightarrow> Inr (A\<lparr>rows := (rows A)[i := map2 (-) (rows A ! i) v']\<rparr>))"

text \<open>\<^verbatim>\<open>A[:, j] += v\<close>.\<close>

definition iadd_col :: "ndarray2 \<Rightarrow> nat \<Rightarrow> real list \<Rightarrow> py_error + ndarray2" where
  "iadd_col A j v =
     (if shape1 A \<le> j then Inl IndexError
      else case broadcast1 v (shape0 A) of
        Inl e \<Rightarrow> Inl e
      | Inr v' \<Rightarrow> Inr (A\<lparr>rows := map2 (\<lambda>r x. r[j := r ! j + x]) (rows A) v'\<rparr>))"

text \<open>\<^verbatim>\<open>np.outer(a, b)\<close> and \<^verbatim>\<open>c * A\<close>.\<close>

definition np_outer :: "real list \<Rightarrow> real list \<Rightarrow> ndarray2" where
  "np_outer a b = \<lparr>shape0 = length a, shape1 = length b, rows = map (\<lambda>x. map (\<lambda>y. x * y) b) a\<rparr>"

definition scale2 :: "real \<Rightarrow> ndarray2 \<Rightarrow> ndarray2" where
  "scale2 c A = A\<lparr>rows := map (map (\<lambda>x. c * x)) (rows A)\<rparr>"

text \<open>
  \<^verbatim>\<open>A += D\<close> on two-dimensional arrays: each axis of \<open>D\<close> has the extent of \<open>A\<close> or
  extent one (and is then repeated); anything else is a ValueError.
\<close>

definition broadcast2 :: "ndarray2 \<Rightarrow> nat \<Rightarrow> nat \<Rightarrow> py_error + real list list" where
  "broadcast2 D m n =
     (if (shape0 D = m \<or> shape0 D = 1) \<and> (shape1 D = n \<or> shape1 D = 1) then
        Inr (map (\<lambda>r. if shape1 D = n then r else replicate n (r ! 0))
               (if shape0 D = m then rows D else replicate m (rows D ! 0)))
      else Inl ValueError)"

definition iadd2 :: "ndarray2 \<Rightarrow> ndarray2 \<Rightarrow> py_error + ndarray2" where
  "iadd2 A D =
     (case broadcast2 D (shape0 A) (shape1 A) of
        Inl e \<Rightarrow> Inl e
      | Inr d \<Rightarrow> Inr (A\<lparr>rows := map2 (map2 (+)) (rows A) d\<rparr>))"

text \<open>\<^verbatim>\<open>np.clip(A, lo, hi)\<close>, that is \<^verbatim>\<open>np.minimum(hi, np.maximum(A, lo))\<close>.\<close>

definition np_clip :: "ndarray2 \<Rightarrow> real \<Rightarrow> real \<Rightarrow> ndarray2" where
  "np_clip A lo hi = A\<lparr>rows := map (map (\<lambda>x. min hi (max lo x))) (rows A)\<rparr>"

text \<open>
  A \<^verbatim>\<open>for\<close> loop over a list of indices whose body may raise: the first exception
  ends the loop.
\<close>

fun for_loop :: "('i \<Rightarrow> 's \<Rightarrow> py_error + 's) \<Rightarrow> 'i list \<Rightarrow> 's \<Rightarrow> py_error + 's" where
  "for_loop body [] s = Inr s"
| "for_loop body (i # js) s =
     (case body i s of Inl e \<Rightarrow> Inl e | Inr s' \<Rightarrow> for_loop body js s')"

section \<open>Plasticity rules\<close>

subsection \<open>Simple Hebbian\<close>

text \<open>
  The variables of \<^verbatim>\<open>hebbian_learning\<close> that the loop changes. The three loops
  each have a \<^verbatim>\<open>W\<close> and a \<^verbatim>\<open>W_history\<close>; the record fields carry a letter for the
  rule.
\<close>

record hebb_state =
  hW :: ndarray2
  hW_history :: "ndarray2 list"

text \<open>
  The gated update of the loop body: \<^verbatim>\<open>dW = eta * np.outer(pre, post)\<close>,
  \<^verbatim>\<open>W += dW\<close>, clip.
\<close>

definition hebbian_update ::
  "real \<Rightarrow> real \<Rightarrow> real \<Rightarrow> real list \<Rightarrow> real list \<Rightarrow> ndarray2 \<Rightarrow> py_error + ndarray2" where
  "hebbian_update eta w_min w_max pre_t post_t W =
     (case iadd2 W (scale2 eta (np_outer pre_t post_t)) of
        Inl e \<Rightarrow> Inl e
      | Inr W' \<Rightarrow> Inr (np_clip W' w_min w_max))"

text \<open>
  One pass of the loop body of \<^verbatim>\<open>hebbian_learning\<close>. The \<^verbatim>\<open>and\<close> of the gate
  short-circuits: \<^verbatim>\<open>post_spikes[t]\<close> is read only when the pre row sums to a positive
  number.
\<close>

definition hebbian_step ::
  "ndarray2 \<Rightarrow> ndarray2 \<Rightarrow> real \<Rightarrow> real \<Rightarrow> real \<Rightarrow> nat \<Rightarrow> hebb_state \<Rightarrow> py_error + hebb_state" where
  "hebbian_step pre_spikes post_spikes eta w_min w_max t s =
     (case getitem_row pre_spikes t of
        Inl e \<Rightarrow> Inl e
      | Inr pre_t \<Rightarrow>
          if 0 < sum_list pre_t then
            (case getitem_row post_spikes t of
               Inl e \<Rightarrow> Inl e
             | Inr post_t \<Rightarrow>
                 if 0 < sum_list post_t then
                   (case hebbian_update eta w_min w_max pre_t post_t (hW s) of
                      Inl e \<Rightarrow> Inl e
                    | Inr W' \<Rightarrow> Inr \<lparr>hW = W', hW_history = hW_history s @ [W']\<rparr>)
                 else Inr (s\<lparr>hW_history := hW_history s @ [hW s]\<rparr>))
          else Inr (s\<lparr>hW_history := hW_history s @ [hW s]\<rparr>))"

definition hebbian_learning ::
  "ndarray2 \<Rightarrow> ndarray2 \<Rightarrow> ndarray2 \<Rightarrow> real \<Rightarrow> real \<Rightarrow> real \<Rightarrow> py_error + ndarray2 list" where
  "hebbian_learning pre_spikes post_spikes w_init eta w_min w_max =
     (case for_loop (hebbian_step pre_spikes post_spikes eta w_min w_max)
             [0..<shape0 pre_spikes]
             \<lparr>hW = w_init, hW_history = [w_init]\<rparr> of
        Inl e \<Rightarrow> Inl e
      | Inr s \<Rightarrow> Inr (hW_history s))"

subsection \<open>STDP\<close>

text \<open>The variables of \<^verbatim>\<open>stdp_learning\<close> that the loop changes.\<close>

record stdp_state =
  sW :: ndarray2
  sW_history :: "ndarray2 list"
  pre_trace :: "real list"
  post_trace :: "real list"

text \<open>
  The body of \<^verbatim>\<open>for i in pre_spike_idx\<close>: the pre trace of neuron \<open>i\<close> is
  incremented, then row \<open>i\<close> of the weights is depressed with the post trace as it
  stands.
\<close>

definition pre_spike_body :: "real \<Rightarrow> real \<Rightarrow> nat \<Rightarrow> stdp_state \<Rightarrow> py_error + stdp_state" where
  "pre_spike_body eta a_minus i s =
     (case iadd_at (pre_trace s) i 1 of
        Inl e \<Rightarrow> Inl e
      | Inr pt \<Rightarrow>
          (case isub_row (sW s) i (scale1 (eta * a_minus) (post_trace s)) of
             Inl e \<Rightarrow> Inl e
           | Inr W' \<Rightarrow> Inr (s\<lparr>pre_trace := pt, sW := W'\<rparr>)))"

text \<open>
  The body of \<^verbatim>\<open>for j in post_spike_idx\<close>: the post trace of neuron \<open>j\<close> is
  incremented, then column \<open>j\<close> of the weights is potentiated with the pre trace as it
  stands.
\<close>

definition post_spike_body :: "real \<Rightarrow> real \<Rightarrow> nat \<Rightarrow> stdp_state \<Rightarrow> py_error + stdp_state" where
  "post_spike_body eta a_plus j s =
     (case iadd_at (post_trace s) j 1 of
        Inl e \<Rightarrow> Inl e
      | Inr pt \<Rightarrow>
          (case iadd_col (sW s) j (scale1 (eta * a_plus) (pre_trace s)) of
             Inl e \<Rightarrow> Inl e
           | Inr W' \<Rightarrow> Inr (s\<lparr>post_trace := pt, sW := W'\<rparr>)))"

text \<open>
  The two decays of a step. \<^verbatim>\<open>-dt / tau\<close> divides Python floats, so a zero time
  constant raises here, inside the loop.
\<close>

definition decay_traces :: "real \<Rightarrow> real \<Rightarrow> real \<Rightarrow> stdp_state \<Rightarrow> py_error + stdp_state" where
  "decay_traces tau_plus tau_minus dt s =
     (case py_div (/) (- dt) tau_plus of
        Inl e \<Rightarrow> Inl e
      | Inr qp \<Rightarrow>
          (case py_div (/) (- dt) tau_minus of
             Inl e \<Rightarrow> Inl e
           | Inr qm \<Rightarrow>
               Inr (s\<lparr>pre_trace := scale1 (exp qp) (pre_trace s),
                      post_trace := scale1 (exp qm) (post_trace s)\<rparr>)))"

text \<open>The clip and the append that end a step.\<close>

definition clip_and_record :: "real \<Rightarrow> real \<Rightarrow> stdp_state \<Rightarrow> stdp_state" where
  "clip_and_record w_min w_max s =
     s\<lparr>sW := np_clip (sW s) w_min w_max,
       sW_history := sW_history s @ [np_clip (sW s) w_min w_max]\<rparr>"

text \<open>One pass of the loop body of \<^verbatim>\<open>stdp_learning\<close>, in the order of the source.\<close>

definition stdp_step ::
  "ndarray2 \<Rightarrow> ndarray2 \<Rightarrow> real \<Rightarrow> real \<Rightarrow> real \<Rightarrow> real \<Rightarrow> real \<Rightarrow> real \<Rightarrow> real \<Rightarrow> real
     \<Rightarrow> nat \<Rightarrow> stdp_state \<Rightarrow> py_error + stdp_state" where
  "stdp_step pre_spikes post_spikes eta tau_plus tau_minus a_plus a_minus w_min w_max dt t s =
     (case decay_traces tau_plus tau_minus dt s of
        Inl e \<Rightarrow> Inl e
      | Inr s1 \<Rightarrow>
     (case getitem_row pre_spikes t of
        Inl e \<Rightarrow> Inl e
      | Inr pre_t \<Rightarrow>
     (case for_loop (pre_spike_body eta a_minus) (np_where_pos pre_t) s1 of
        Inl e \<Rightarrow> Inl e
      | Inr s2 \<Rightarrow>
     (case getitem_row post_spikes t of
        Inl e \<Rightarrow> Inl e
      | Inr post_t \<Rightarrow>
     (case for_loop (post_spike_body eta a_plus) (np_where_pos post_t) s2 of
        Inl e \<Rightarrow> Inl e
      | Inr s3 \<Rightarrow> Inr (clip_and_record w_min w_max s3))))))"

definition stdp_learning ::
  "ndarray2 \<Rightarrow> ndarray2 \<Rightarrow> ndarray2 \<Rightarrow> real \<Rightarrow> real \<Rightarrow> real \<Rightarrow> real \<Rightarrow> real \<Rightarrow> real \<Rightarrow> real \<Rightarrow> real
     \<Rightarrow> py_error + ndarray2 list" where
  "stdp_learning pre_spikes post_spikes w_init eta tau_plus tau_minus a_plus a_minus w_min w_max dt =
     (case for_loop
             (stdp_step pre_spikes post_spikes eta tau_plus tau_minus a_plus a_minus w_min w_max dt)
             [0..<shape0 pre_spikes]
             \<lparr>sW = w_init, sW_history = [w_init],
              pre_trace = replicate (shape1 pre_spikes) 0,
              post_trace = replicate (shape1 post_spikes) 0\<rparr> of
        Inl e \<Rightarrow> Inl e
      | Inr s \<Rightarrow> Inr (sW_history s))"

subsection \<open>BCM\<close>

text \<open>The variables of \<^verbatim>\<open>bcm_learning\<close> that the loop changes.\<close>

record bcm_state =
  bW :: ndarray2
  bW_history :: "ndarray2 list"
  post_activity :: "real list"

text \<open>
  The gated update shared by the loop body: \<^verbatim>\<open>phi = post * (post - theta)\<close>,
  \<^verbatim>\<open>W += eta * outer(pre, phi)\<close>, clip.
\<close>

definition bcm_update ::
  "real \<Rightarrow> real \<Rightarrow> real \<Rightarrow> real \<Rightarrow> real list \<Rightarrow> real list \<Rightarrow> ndarray2 \<Rightarrow> py_error + ndarray2" where
  "bcm_update eta theta w_min w_max pre_t post_t W =
     (case iadd2 W (scale2 eta (np_outer pre_t (map (\<lambda>x. x * (x - theta)) post_t))) of
        Inl e \<Rightarrow> Inl e
      | Inr W' \<Rightarrow> Inr (np_clip W' w_min w_max))"

text \<open>
  One pass of the loop body of \<^verbatim>\<open>bcm_learning\<close>. The time constant of the running
  average, the local \<^verbatim>\<open>tau_avg = 100.0\<close> of the source, is the first argument.
\<close>

definition bcm_step ::
  "real \<Rightarrow> ndarray2 \<Rightarrow> ndarray2 \<Rightarrow> real \<Rightarrow> real \<Rightarrow> real \<Rightarrow> real \<Rightarrow> real
     \<Rightarrow> nat \<Rightarrow> bcm_state \<Rightarrow> py_error + bcm_state" where
  "bcm_step tau_avg pre_spikes post_spikes eta theta w_min w_max dt t s =
     (case py_div (/) (- dt) tau_avg of
        Inl e \<Rightarrow> Inl e
      | Inr q \<Rightarrow>
     (case getitem_row post_spikes t of
        Inl e \<Rightarrow> Inl e
      | Inr post_t \<Rightarrow>
     (case iadd1 (scale1 (exp q) (post_activity s)) post_t of
        Inl e \<Rightarrow> Inl e
      | Inr pa \<Rightarrow>
     (case getitem_row pre_spikes t of
        Inl e \<Rightarrow> Inl e
      | Inr pre_t \<Rightarrow>
          if 0 < sum_list pre_t \<and> 0 < sum_list post_t then
            (case bcm_update eta theta w_min w_max pre_t post_t (bW s) of
               Inl e \<Rightarrow> Inl e
             | Inr W' \<Rightarrow>
                 Inr \<lparr>bW = W', bW_history = bW_history s @ [W'], post_activity = pa\<rparr>)
          else Inr \<lparr>bW = bW s, bW_history = bW_history s @ [bW s], post_activity = pa\<rparr>))))"

definition bcm_run ::
  "real \<Rightarrow> ndarray2 \<Rightarrow> ndarray2 \<Rightarrow> ndarray2 \<Rightarrow> real \<Rightarrow> real \<Rightarrow> real \<Rightarrow> real \<Rightarrow> real
     \<Rightarrow> py_error + ndarray2 list" where
  "bcm_run tau_avg pre_spikes post_spikes w_init eta theta w_min w_max dt =
     (case for_loop (bcm_step tau_avg pre_spikes post_spikes eta theta w_min w_max dt)
             [0..<shape0 pre_spikes]
             \<lparr>bW = w_init, bW_history = [w_init],
              post_activity = replicate (shape1 post_spikes) 0\<rparr> of
        Inl e \<Rightarrow> Inl e
      | Inr s \<Rightarrow> Inr (bW_history s))"

definition bcm_learning ::
  "ndarray2 \<Rightarrow> ndarray2 \<Rightarrow> ndarray2 \<Rightarrow> real \<Rightarrow> real \<Rightarrow> real \<Rightarrow> real \<Rightarrow> real
     \<Rightarrow> py_error + ndarray2 list" where
  "bcm_learning pre_spikes post_spikes w_init eta theta w_min w_max dt =
     bcm_run 100 pre_spikes post_spikes w_init eta theta w_min w_max dt"

text \<open>
  The BCM loop with the running average taken out: what is left of the body is the gate
  and the gated update, on the weights and the history alone. It is the comparison
  partner of \<open>bcm_learning\<close>, written from the source with the three lines on
  \<^verbatim>\<open>post_activity\<close> and \<^verbatim>\<open>tau_avg\<close> deleted.
\<close>

definition bcm_step_without_activity ::
  "ndarray2 \<Rightarrow> ndarray2 \<Rightarrow> real \<Rightarrow> real \<Rightarrow> real \<Rightarrow> real
     \<Rightarrow> nat \<Rightarrow> hebb_state \<Rightarrow> py_error + hebb_state" where
  "bcm_step_without_activity pre_spikes post_spikes eta theta w_min w_max t s =
     (case getitem_row pre_spikes t of
        Inl e \<Rightarrow> Inl e
      | Inr pre_t \<Rightarrow>
          if 0 < sum_list pre_t then
            (case getitem_row post_spikes t of
               Inl e \<Rightarrow> Inl e
             | Inr post_t \<Rightarrow>
                 if 0 < sum_list post_t then
                   (case bcm_update eta theta w_min w_max pre_t post_t (hW s) of
                      Inl e \<Rightarrow> Inl e
                    | Inr W' \<Rightarrow> Inr \<lparr>hW = W', hW_history = hW_history s @ [W']\<rparr>)
                 else Inr (s\<lparr>hW_history := hW_history s @ [hW s]\<rparr>))
          else Inr (s\<lparr>hW_history := hW_history s @ [hW s]\<rparr>))"

definition bcm_without_activity ::
  "ndarray2 \<Rightarrow> ndarray2 \<Rightarrow> ndarray2 \<Rightarrow> real \<Rightarrow> real \<Rightarrow> real \<Rightarrow> real \<Rightarrow> py_error + ndarray2 list" where
  "bcm_without_activity pre_spikes post_spikes w_init eta theta w_min w_max =
     (case for_loop (bcm_step_without_activity pre_spikes post_spikes eta theta w_min w_max)
             [0..<shape0 pre_spikes]
             \<lparr>hW = w_init, hW_history = [w_init]\<rparr> of
        Inl e \<Rightarrow> Inl e
      | Inr s \<Rightarrow> Inr (hW_history s))"

text \<open>
  The call contract of the three rules: the spike matrices have the same number of steps
  and the weights have one row per pre neuron and one column per post neuron.
\<close>

definition shapes_ok :: "ndarray2 \<Rightarrow> ndarray2 \<Rightarrow> ndarray2 \<Rightarrow> bool" where
  "shapes_ok pre_spikes post_spikes w_init \<longleftrightarrow>
     wf_ndarray pre_spikes \<and> wf_ndarray post_spikes \<and> wf_ndarray w_init \<and>
     shape0 pre_spikes = shape0 post_spikes \<and>
     shape0 w_init = shape1 pre_spikes \<and> shape1 w_init = shape1 post_spikes"

text \<open>
  The gate of the Hebbian and BCM updates at step \<open>t\<close>: both rows sum to a positive
  number, which for 0/1 spike matrices says that both populations spiked.
\<close>

definition gate_fires :: "ndarray2 \<Rightarrow> ndarray2 \<Rightarrow> nat \<Rightarrow> bool" where
  "gate_fires pre_spikes post_spikes t \<longleftrightarrow>
     t < shape0 pre_spikes \<and> t < shape0 post_spikes \<and>
     0 < sum_list (rows pre_spikes ! t) \<and> 0 < sum_list (rows post_spikes ! t)"

subsection \<open>Loop invariants\<close>

text \<open>The weights have one row per pre neuron and one column per post neuron.\<close>

definition weights_shaped :: "ndarray2 \<Rightarrow> ndarray2 \<Rightarrow> ndarray2 \<Rightarrow> bool" where
  "weights_shaped pre_spikes post_spikes W \<longleftrightarrow>
     wf_ndarray W \<and> shape0 W = shape1 pre_spikes \<and> shape1 W = shape1 post_spikes"

text \<open>
  What every pass of the BCM loop keeps: the shape of the weights and the length of the
  running average.
\<close>

definition bcm_inv :: "ndarray2 \<Rightarrow> ndarray2 \<Rightarrow> bcm_state \<Rightarrow> bool" where
  "bcm_inv pre_spikes post_spikes s \<longleftrightarrow>
     weights_shaped pre_spikes post_spikes (bW s) \<and> length (post_activity s) = shape1 post_spikes"

text \<open>
  What every pass of the STDP loop keeps: the shape of the weights and the lengths of the
  two traces.
\<close>

definition stdp_inv :: "ndarray2 \<Rightarrow> ndarray2 \<Rightarrow> stdp_state \<Rightarrow> bool" where
  "stdp_inv pre_spikes post_spikes s \<longleftrightarrow>
     weights_shaped pre_spikes post_spikes (sW s) \<and>
     length (pre_trace s) = shape1 pre_spikes \<and> length (post_trace s) = shape1 post_spikes"

section \<open>Randomness\<close>

text \<open>
  The source has no seed or generator parameter: every random number comes from numpy's
  process-global generator (\<^verbatim>\<open>np.random.rand\<close>, \<^verbatim>\<open>np.random.randint\<close>,
  \<^verbatim>\<open>np.random.randn\<close>). The hidden state of that generator enters each modelled
  function as an explicit argument: the sequence of the values that the function's coming
  draws return. A function that draws also returns the sequence that is left.
\<close>

type_synonym 'a draws = "nat \<Rightarrow> 'a"

text \<open>Dropping the first \<open>k\<close> draws.\<close>

definition advance :: "nat \<Rightarrow> 'a draws \<Rightarrow> 'a draws" where
  "advance k g = (\<lambda>i. g (i + k))"

text \<open>Generators whose draws are all the same value.\<close>

definition constant_draws :: "'a \<Rightarrow> 'a draws" where
  "constant_draws c = (\<lambda>i. c)"

text \<open>
  \<^verbatim>\<open>np.random.rand(d0, d1)\<close>: a \<open>d0 \<times> d1\<close> array filled in row-major order; a
  negative dimension is a ValueError.
\<close>

definition np_random_rand :: "int \<Rightarrow> int \<Rightarrow> real draws \<Rightarrow> py_error + ndarray2 \<times> real draws" where
  "np_random_rand d0 d1 g =
     (if d0 < 0 \<or> d1 < 0 then Inl ValueError
      else Inr (\<lparr>shape0 = nat d0, shape1 = nat d1,
                 rows = map (\<lambda>i. map (\<lambda>j. g (i * nat d1 + j)) [0..<nat d1]) [0..<nat d0]\<rparr>,
                advance (nat d0 * nat d1) g))"

text \<open>\<^verbatim>\<open>np.zeros((d0, d1))\<close>.\<close>

definition np_zeros2 :: "int \<Rightarrow> int \<Rightarrow> py_error + ndarray2" where
  "np_zeros2 d0 d1 =
     (if d0 < 0 \<or> d1 < 0 then Inl ValueError
      else Inr \<lparr>shape0 = nat d0, shape1 = nat d1,
                rows = replicate (nat d0) (replicate (nat d1) 0)\<rparr>)"

text \<open>\<^verbatim>\<open>(A < p).astype(np.float32)\<close>.\<close>

definition less_mask :: "ndarray2 \<Rightarrow> real \<Rightarrow> ndarray2" where
  "less_mask A p = A\<lparr>rows := map (map (\<lambda>x. if x < p then 1 else 0)) (rows A)\<rparr>"

section \<open>Spike sources\<close>

text \<open>
  \<^verbatim>\<open>generate_poisson_spikes\<close>. The step count is \<^verbatim>\<open>int(duration_ms / dt_ms)\<close>, the
  truncation of the float quotient. The first argument of the three spike sources is the
  float division.
\<close>

definition generate_poisson_spikes ::
  "(real \<Rightarrow> real \<Rightarrow> real) \<Rightarrow> real \<Rightarrow> real \<Rightarrow> real \<Rightarrow> int \<Rightarrow> real draws
     \<Rightarrow> py_error + ndarray2 \<times> real draws" where
  "generate_poisson_spikes fdiv rate_hz duration_ms dt_ms n_neurons g =
     (case py_div fdiv duration_ms dt_ms of
        Inl e \<Rightarrow> Inl e
      | Inr q \<Rightarrow>
          (case np_random_rand (py_int q) n_neurons g of
             Inl e \<Rightarrow> Inl e
           | Inr (U, g') \<Rightarrow> Inr (less_mask U (rate_hz * dt_ms / 1000), g')))"

text \<open>
  \<^verbatim>\<open>spikes[offset::step, i] = 1.0\<close> for \<open>0 \<le> offset\<close> and \<open>0 < step\<close>: the rows
  \<open>offset, offset + step, \<dots>\<close> get a 1 in column \<open>i\<close>.
\<close>

definition set_strided_column :: "ndarray2 \<Rightarrow> nat \<Rightarrow> nat \<Rightarrow> nat \<Rightarrow> ndarray2" where
  "set_strided_column A offset step i =
     A\<lparr>rows := map (\<lambda>r. if offset \<le> r \<and> (r - offset) mod step = 0
                           then (rows A ! r)[i := 1] else rows A ! r)
                   [0..<length (rows A)]\<rparr>"

text \<open>
  The body of the loop over the neurons in \<^verbatim>\<open>generate_regular_spikes\<close>. The draws are
  the values that \<^verbatim>\<open>np.random.randint(0, interval_steps)\<close> returns, numbers below
  \<open>interval_steps\<close>; the call raises when \<open>interval_steps\<close> is not positive.
\<close>

definition regular_body ::
  "int \<Rightarrow> nat \<Rightarrow> ndarray2 \<times> nat draws \<Rightarrow> py_error + ndarray2 \<times> nat draws" where
  "regular_body interval_steps i sg =
     (if interval_steps \<le> 0 then Inl ValueError
      else Inr (set_strided_column (fst sg) (snd sg 0) (nat interval_steps) i,
                advance 1 (snd sg)))"

definition generate_regular_spikes ::
  "(real \<Rightarrow> real \<Rightarrow> real) \<Rightarrow> real \<Rightarrow> real \<Rightarrow> real \<Rightarrow> int \<Rightarrow> nat draws
     \<Rightarrow> py_error + ndarray2 \<times> nat draws" where
  "generate_regular_spikes fdiv interval_ms duration_ms dt_ms n_neurons g =
     (case py_div fdiv duration_ms dt_ms of
        Inl e \<Rightarrow> Inl e
      | Inr q \<Rightarrow>
          (case np_zeros2 (py_int q) n_neurons of
             Inl e \<Rightarrow> Inl e
           | Inr spikes \<Rightarrow>
               (case py_div fdiv interval_ms dt_ms of
                  Inl e \<Rightarrow> Inl e
                | Inr qi \<Rightarrow>
                    for_loop (regular_body (py_int qi)) [0..<nat n_neurons] (spikes, g))))"

text \<open>
  \<^verbatim>\<open>generate_correlated_spikes\<close>: one shared column and one independent matrix, both
  thresholded against \<open>prob\<close>, mixed and thresholded against one half. The shared column
  is drawn first.
\<close>

definition generate_correlated_spikes ::
  "(real \<Rightarrow> real \<Rightarrow> real) \<Rightarrow> real \<Rightarrow> real \<Rightarrow> real \<Rightarrow> real \<Rightarrow> int \<Rightarrow> real draws
     \<Rightarrow> py_error + ndarray2 \<times> real draws" where
  "generate_correlated_spikes fdiv rate_hz correlation duration_ms dt_ms n_neurons g =
     (case py_div fdiv duration_ms dt_ms of
        Inl e \<Rightarrow> Inl e
      | Inr q \<Rightarrow>
          (case np_random_rand (py_int q) 1 g of
             Inl e \<Rightarrow> Inl e
           | Inr (U, g1) \<Rightarrow>
               (case np_random_rand (py_int q) n_neurons g1 of
                  Inl e \<Rightarrow> Inl e
                | Inr (V, g2) \<Rightarrow>
                    Inr (\<lparr>shape0 = shape0 V, shape1 = shape1 V,
                          rows = map2 (\<lambda>sh ind.
                                   map (\<lambda>x. if 1/2 < correlation * (sh ! 0) + (1 - correlation) * x
                                             then 1 else 0) ind)
                                   (rows (less_mask U (rate_hz * dt_ms / 1000)))
                                   (rows (less_mask V (rate_hz * dt_ms / 1000)))\<rparr>,
                         g2))))"

section \<open>Membrane integrator\<close>

text \<open>
  The arrays \<^verbatim>\<open>v\<close> and \<^verbatim>\<open>spikes\<close> of \<^verbatim>\<open>simulate_lif\<close> and the normal draws
  that \<^verbatim>\<open>np.random.randn()\<close> is going to return.
\<close>

record lif_state =
  lif_v :: "real list"
  lif_spikes :: "int list"
  lif_draws :: "real draws"

text \<open>
  The floating-point operations of \<^verbatim>\<open>simulate_lif\<close>, one field per place in the source.
  Which precision an operation has depends on the types of its operands and on numpy's
  promotion rules (\<^verbatim>\<open>v[k - 1]\<close> is a \<^verbatim>\<open>float32\<close> scalar, the parameters are Python
  floats), so each place has its own operation:
  \<^item> \<open>div_T_dt\<close>: \<^verbatim>\<open>T / dt\<close>; \<open>div_dt_tau\<close>: \<^verbatim>\<open>dt / tau\<close>;
  \<^item> \<open>mul_k_dt\<close>: \<^verbatim>\<open>np.arange(n) * dt\<close>, entry by entry;
  \<^item> \<open>store_v\<close>: an assignment to an entry of the \<^verbatim>\<open>float32\<close> array \<^verbatim>\<open>v\<close>;
  \<^item> \<open>sub_rest\<close>: \<^verbatim>\<open>v[k - 1] - v_rest\<close>; \<open>add_drive\<close>: \<^verbatim>\<open>-(...) + i_dc\<close>;
    \<open>mul_alpha\<close>: \<^verbatim>\<open>alpha * (...)\<close>;
  \<^item> \<open>sqrt_dt\<close>: \<^verbatim>\<open>np.sqrt(dt)\<close>; \<open>mul_sigma\<close>: \<^verbatim>\<open>noise_sigma * np.sqrt(dt)\<close>;
    \<open>mul_draw\<close>: \<^verbatim>\<open>... * np.random.randn()\<close>;
  \<^item> \<open>add_noise\<close>: the sum of the two terms of \<^verbatim>\<open>dv\<close>; \<open>add_dv\<close>: \<^verbatim>\<open>v[k - 1] + dv\<close>;
  \<^item> \<open>th_compared\<close>: the value with which \<^verbatim>\<open>v_th\<close> enters \<^verbatim>\<open>v[k] >= v_th\<close> (itself,
    or its conversion to \<^verbatim>\<open>float32\<close>).
  The unary minus, \<^verbatim>\<open>np.ceil\<close>, \<^verbatim>\<open>int\<close> and the comparison are exact on floats.
\<close>

record lif_arith =
  div_T_dt :: "real \<Rightarrow> real \<Rightarrow> real"
  div_dt_tau :: "real \<Rightarrow> real \<Rightarrow> real"
  mul_k_dt :: "real \<Rightarrow> real \<Rightarrow> real"
  store_v :: "real \<Rightarrow> real"
  sub_rest :: "real \<Rightarrow> real \<Rightarrow> real"
  add_drive :: "real \<Rightarrow> real \<Rightarrow> real"
  mul_alpha :: "real \<Rightarrow> real \<Rightarrow> real"
  sqrt_dt :: "real \<Rightarrow> real"
  mul_sigma :: "real \<Rightarrow> real \<Rightarrow> real"
  mul_draw :: "real \<Rightarrow> real \<Rightarrow> real"
  add_noise :: "real \<Rightarrow> real \<Rightarrow> real"
  add_dv :: "real \<Rightarrow> real \<Rightarrow> real"
  th_compared :: "real \<Rightarrow> real"

text \<open>The operations without rounding.\<close>

definition exact_arith :: lif_arith where
  "exact_arith =
     \<lparr>div_T_dt = (/), div_dt_tau = (/), mul_k_dt = (*), store_v = (\<lambda>x. x),
      sub_rest = (-), add_drive = (+), mul_alpha = (*), sqrt_dt = sqrt,
      mul_sigma = (*), mul_draw = (*), add_noise = (+), add_dv = (+),
      th_compared = (\<lambda>x. x)\<rparr>"

text \<open>
  The value that the loop body assigns to \<^verbatim>\<open>v[k]\<close> first, from the previous potential
  \<open>v_prev\<close> and the draw \<open>z\<close>: \<^verbatim>\<open>dv\<close> as the source computes it, added to \<open>v_prev\<close> and
  stored.
\<close>

definition euler_value ::
  "lif_arith \<Rightarrow> real \<Rightarrow> real \<Rightarrow> real \<Rightarrow> real \<Rightarrow> real \<Rightarrow> real \<Rightarrow> real \<Rightarrow> real" where
  "euler_value A alpha dt v_rest i_dc noise_sigma v_prev z =
     (let dv = add_noise A
                 (mul_alpha A alpha (add_drive A (- sub_rest A v_prev v_rest) i_dc))
                 (mul_draw A (mul_sigma A noise_sigma (sqrt_dt A dt)) z)
      in store_v A (add_dv A v_prev dv))"

text \<open>
  One pass of the loop body, \<open>1 \<le> k\<close>: the Euler update is stored in \<^verbatim>\<open>v[k]\<close>, then the
  stored value is tested against the threshold and overwritten on a crossing.
\<close>

definition lif_step ::
  "lif_arith \<Rightarrow> real \<Rightarrow> real \<Rightarrow> real \<Rightarrow> real \<Rightarrow> real \<Rightarrow> real \<Rightarrow> real \<Rightarrow> nat
     \<Rightarrow> lif_state \<Rightarrow> lif_state" where
  "lif_step A alpha dt v_rest v_reset v_th i_dc noise_sigma k s =
     (let s1 = s\<lparr>lif_v := (lif_v s)[k := euler_value A alpha dt v_rest i_dc noise_sigma
                                          (lif_v s ! (k - 1)) (lif_draws s 0)],
                 lif_draws := advance 1 (lif_draws s)\<rparr>
      in if th_compared A v_th \<le> lif_v s1 ! k
         then s1\<lparr>lif_spikes := (lif_spikes s1)[k := 1],
                 lif_v := (lif_v s1)[k := store_v A v_reset]\<rparr>
         else s1)"

text \<open>
  \<^verbatim>\<open>simulate_lif\<close>. \<^verbatim>\<open>T / dt\<close> and \<^verbatim>\<open>dt / tau\<close> divide Python floats;
  \<^verbatim>\<open>np.zeros(n)\<close> raises on a negative \<open>n\<close> and \<^verbatim>\<open>v[0] = v_rest\<close> on \<open>n = 0\<close>.
  The result is \<open>(t, v, spikes)\<close> and the draws that are left. For \<open>dt < 0\<close> numpy's
  square root is NaN, which the model does not have.
\<close>

definition simulate_lif ::
  "lif_arith \<Rightarrow> real \<Rightarrow> real \<Rightarrow> real \<Rightarrow> real \<Rightarrow> real \<Rightarrow> real \<Rightarrow> real \<Rightarrow> real \<Rightarrow> real draws
     \<Rightarrow> py_error + (real list \<times> real list \<times> int list) \<times> real draws" where
  "simulate_lif A tau dt T v_rest v_reset v_th i_dc noise_sigma g =
     (case py_div (div_T_dt A) T dt of
        Inl e \<Rightarrow> Inl e
      | Inr q \<Rightarrow>
          if \<lceil>q\<rceil> < 0 then Inl ValueError
          else if \<lceil>q\<rceil> = 0 then Inl IndexError
          else
            (case py_div (div_dt_tau A) dt tau of
               Inl e \<Rightarrow> Inl e
             | Inr alpha \<Rightarrow>
                 (let n = nat \<lceil>q\<rceil>;
                      s = fold (lif_step A alpha dt v_rest v_reset v_th i_dc noise_sigma) [1..<n]
                            \<lparr>lif_v = (replicate n 0)[0 := store_v A v_rest],
                             lif_spikes = replicate n 0, lif_draws = g\<rparr>
                  in Inr ((map (\<lambda>k. mul_k_dt A (real k) dt) [0..<n], lif_v s, lif_spikes s),
                          lif_draws s))))"

text \<open>
  The recurrence of the integrator at step \<open>k\<close>, in terms of the returned arrays and the
  draws the call started with: the Euler value \<open>u\<close> is computed from \<open>v[k-1]\<close> and stored;
  on \<open>u \<ge> v_th\<close> a spike is recorded and \<open>v[k]\<close> is the stored reset value, otherwise
  \<open>v[k] = u\<close>.
\<close>

definition lif_recurrence ::
  "lif_arith \<Rightarrow> real \<Rightarrow> real \<Rightarrow> real \<Rightarrow> real \<Rightarrow> real \<Rightarrow> real \<Rightarrow> real \<Rightarrow> real draws
     \<Rightarrow> real list \<Rightarrow> int list \<Rightarrow> nat \<Rightarrow> bool" where
  "lif_recurrence A tau dt v_rest v_reset v_th i_dc noise_sigma g v spikes k \<longleftrightarrow>
     (let u = euler_value A (div_dt_tau A dt tau) dt v_rest i_dc noise_sigma (v ! (k - 1)) (g (k - 1))
      in if th_compared A v_th \<le> u then spikes ! k = 1 \<and> v ! k = store_v A v_reset
         else spikes ! k = 0 \<and> v ! k = u)"

section \<open>Relations and invariants used in the proofs\<close>

text \<open>
  The relations between the states of the BCM loop and of the loop without the running
  average: same weights, same history.
\<close>

definition bcm_rel :: "bcm_state \<Rightarrow> hebb_state \<Rightarrow> bool" where
  "bcm_rel s u \<longleftrightarrow> bW s = hW u \<and> bW_history s = hW_history u"

text \<open>The same with the length of the running average fixed.\<close>

definition bcm_rel_len :: "nat \<Rightarrow> bcm_state \<Rightarrow> hebb_state \<Rightarrow> bool" where
  "bcm_rel_len n s u \<longleftrightarrow> bcm_rel s u \<and> length (post_activity s) = n"

text \<open>Two BCM states that differ in the values of the running average only.\<close>

definition bcm_rel_tau :: "bcm_state \<Rightarrow> bcm_state \<Rightarrow> bool" where
  "bcm_rel_tau s u \<longleftrightarrow> bW s = bW u \<and> bW_history s = bW_history u \<and>
     length (post_activity s) = length (post_activity u)"

text \<open>What holds after the passes \<open>1, \<dots>, d\<close> of the integrator loop over arrays of length \<open>n\<close>.\<close>

definition lif_inv ::
  "lif_arith \<Rightarrow> real \<Rightarrow> real \<Rightarrow> real \<Rightarrow> real \<Rightarrow> real \<Rightarrow> real \<Rightarrow> real \<Rightarrow> real draws
     \<Rightarrow> nat \<Rightarrow> nat \<Rightarrow> lif_state \<Rightarrow> bool" where
  "lif_inv A tau dt v_rest v_reset v_th i_dc noise_sigma g n d s \<longleftrightarrow>
     length (lif_v s) = n \<and> length (lif_spikes s) = n \<and> lif_draws s = advance d g \<and>
     lif_v s ! 0 = store_v A v_rest \<and> lif_spikes s ! 0 = 0 \<and>
     (\<forall>k. 1 \<le> k \<and> k \<le> d \<longrightarrow>
        lif_recurrence A tau dt v_rest v_reset v_th i_dc noise_sigma g (lif_v s) (lif_spikes s) k) \<and>
     (\<forall>k. d < k \<and> k < n \<longrightarrow> lif_spikes s ! k = 0)"

section \<open>Example inputs\<close>

text \<open>
  A small run: one pre neuron that spikes at step 0 only, one post neuron that spikes at
  step 3 only, four steps, the weight starting at 0.
\<close>

definition ex_pre :: ndarray2 where
  "ex_pre = \<lparr>shape0 = 4, shape1 = 1, rows = [[1], [0], [0], [0]]\<rparr>"

definition ex_post :: ndarray2 where
  "ex_post = \<lparr>shape0 = 4, shape1 = 1, rows = [[0], [0], [0], [1]]\<rparr>"

definition ex_w :: ndarray2 where
  "ex_w = \<lparr>shape0 = 1, shape1 = 1, rows = [[0]]\<rparr>"

text \<open>One step without any spike, and a weight above the upper bound 1.\<close>

definition silent :: ndarray2 where
  "silent = \<lparr>shape0 = 1, shape1 = 1, rows = [[0]]\<rparr>"

definition ex_w_out :: ndarray2 where
  "ex_w_out = \<lparr>shape0 = 1, shape1 = 1, rows = [[5]]\<rparr>"

text \<open>One step in which the single neuron spikes, and the weight 5 clipped to 1.\<close>

definition spiking :: ndarray2 where
  "spiking = \<lparr>shape0 = 1, shape1 = 1, rows = [[1]]\<rparr>"

definition ex_w_clipped :: ndarray2 where
  "ex_w_clipped = \<lparr>shape0 = 1, shape1 = 1, rows = [[1]]\<rparr>"

text \<open>The weight 0 after one gated BCM step with \<open>eta = 1/10\<close> and \<open>theta = 1/2\<close>.\<close>

definition ex_w_bcm :: ndarray2 where
  "ex_w_bcm = \<lparr>shape0 = 1, shape1 = 1, rows = [[1/20]]\<rparr>"

text \<open>The STDP state at loop entry for one pre and one post neuron and the weight 0.\<close>

definition ex_stdp_state :: stdp_state where
  "ex_stdp_state = \<lparr>sW = ex_w, sW_history = [ex_w], pre_trace = [0], post_trace = [0]\<rparr>"

text \<open>Two generator states that agree on the first draw and differ afterwards.\<close>

definition draws_a :: "real draws" where
  "draws_a k = (if k = 0 then 1/10 else 2/10)"

definition draws_b :: "real draws" where
  "draws_b k = (if k = 0 then 1/10 else 9/10)"

text \<open>A weight array of shape \<open>(1, 3)\<close>, which fits no pair of one-neuron populations.\<close>

definition ex_w_wide :: ndarray2 where
  "ex_w_wide = \<lparr>shape0 = 1, shape1 = 3, rows = [[0, 0, 0]]\<rparr>"

section \<open>Lemmas on the loops and the array primitives\<close>

lemma for_loop_append:
  "for_loop body (xs @ ys) s =
     (case for_loop body xs s of Inl e \<Rightarrow> Inl e | Inr s' \<Rightarrow> for_loop body ys s')"
  by (induction xs arbitrary: s) (auto split: sum.splits)

lemma for_loop_invariant:
  "for_loop body xs s = Inr s' \<Longrightarrow> I s \<Longrightarrow>
   (\<And>i u u'. i \<in> set xs \<Longrightarrow> I u \<Longrightarrow> body i u = Inr u' \<Longrightarrow> I u') \<Longrightarrow> I s'"
proof (induction xs arbitrary: s)
  case Nil
  then show ?case by simp
next
  case (Cons i js)
  from Cons.prems(1) obtain s1 where b: "body i s = Inr s1" and r: "for_loop body js s1 = Inr s'"
    by (auto split: sum.splits)
  have "I s1" by (rule Cons.prems(3)[OF _ Cons.prems(2) b]) simp
  then show ?case
  proof (rule Cons.IH[OF r])
    fix j u u' assume "j \<in> set js" "I u" "body j u = Inr u'"
    then show "I u'" using Cons.prems(3)[of j u u'] by simp
  qed
qed

lemma for_loop_returns:
  "I s \<Longrightarrow> (\<And>i u. i \<in> set xs \<Longrightarrow> I u \<Longrightarrow> \<exists>u'. body i u = Inr u' \<and> I u') \<Longrightarrow>
   \<exists>s'. for_loop body xs s = Inr s' \<and> I s'"
proof (induction xs arbitrary: s)
  case Nil
  then show ?case by simp
next
  case (Cons i js)
  have "\<exists>u'. body i s = Inr u' \<and> I u'" by (rule Cons.prems(2)[OF _ Cons.prems(1)]) simp
  then obtain s1 where b: "body i s = Inr s1" and i1: "I s1" by blast
  have "\<exists>s'. for_loop body js s1 = Inr s' \<and> I s'"
  proof (rule Cons.IH[OF i1])
    fix j u assume "j \<in> set js" "I u"
    then show "\<exists>u'. body j u = Inr u' \<and> I u'" using Cons.prems(2)[of j u] by simp
  qed
  then show ?case using b by simp
qed

lemma for_loop_history:
  fixes hist :: "'s \<Rightarrow> 'a list" and cur :: "'s \<Rightarrow> 'a"
  assumes I0: "I s0" and h0: "hist s0 = [cur s0]"
    and step: "\<And>t u u'. t < n \<Longrightarrow> I u \<Longrightarrow> body t u = Inr u' \<Longrightarrow>
                 I u' \<and> hist u' = hist u @ [cur u'] \<and> R t (cur u) (cur u')"
  shows "m \<le> n \<Longrightarrow> for_loop body [0..<m] s0 = Inr s \<Longrightarrow>
         I s \<and> length (hist s) = Suc m \<and> hist s ! 0 = cur s0 \<and> hist s ! m = cur s \<and>
         (\<forall>t<m. R t (hist s ! t) (hist s ! Suc t))"
proof (induction m arbitrary: s)
  case 0
  then show ?case using I0 h0 by simp
next
  case (Suc m)
  from Suc.prems(2) obtain s1 where r1: "for_loop body [0..<m] s0 = Inr s1"
    and b: "body m s1 = Inr s"
    by (auto simp: for_loop_append split: sum.splits)
  have ih: "I s1 \<and> length (hist s1) = Suc m \<and> hist s1 ! 0 = cur s0 \<and> hist s1 ! m = cur s1 \<and>
         (\<forall>t<m. R t (hist s1 ! t) (hist s1 ! Suc t))"
    using Suc.IH[OF _ r1] Suc.prems(1) by simp
  have st: "I s \<and> hist s = hist s1 @ [cur s] \<and> R m (cur s1) (cur s)"
    using step[OF _ _ b] ih Suc.prems(1) by simp
  have len: "length (hist s1) = Suc m" using ih by simp
  have hs: "hist s = hist s1 @ [cur s]" using st by simp
  have a: "hist s ! 0 = cur s0" using ih len by (simp add: hs nth_append)
  have b': "hist s ! Suc m = cur s" using len by (simp add: hs nth_append)
  have c: "length (hist s) = Suc (Suc m)" using len by (simp add: hs)
  have d: "\<forall>t<Suc m. R t (hist s ! t) (hist s ! Suc t)"
  proof (intro allI impI)
    fix t assume t: "t < Suc m"
    show "R t (hist s ! t) (hist s ! Suc t)"
    proof (cases "t = m")
      case True
      have "hist s ! m = cur s1" using ih len by (simp add: hs nth_append)
      then show ?thesis using st b' True by simp
    next
      case False
      with t have tm: "t < m" by simp
      have "hist s ! t = hist s1 ! t" "hist s ! Suc t = hist s1 ! Suc t"
        using tm len by (simp_all add: hs nth_append)
      then show ?thesis using ih tm by simp
    qed
  qed
  show ?case using st a b' c d by blast
qed

lemma for_loop_run:
  fixes hist :: "'s \<Rightarrow> 'a list" and cur :: "'s \<Rightarrow> 'a"
  assumes I0: "I s0" and h0: "hist s0 = [cur s0]"
    and step: "\<And>t u. t < n \<Longrightarrow> I u \<Longrightarrow>
                 \<exists>u'. body t u = Inr u' \<and> I u' \<and> hist u' = hist u @ [cur u'] \<and> R t (cur u) (cur u')"
  shows "\<exists>s. for_loop body [0..<n] s0 = Inr s \<and> I s \<and> length (hist s) = Suc n \<and>
             hist s ! 0 = cur s0 \<and> hist s ! n = cur s \<and>
             (\<forall>t<n. R t (hist s ! t) (hist s ! Suc t))"
proof -
  have "\<exists>s. for_loop body [0..<n] s0 = Inr s \<and> I s"
  proof (rule for_loop_returns[where I = I and s = s0, OF I0])
    fix i u assume "i \<in> set [0..<n]" "I u"
    then show "\<exists>u'. body i u = Inr u' \<and> I u'" using step[of i u] by auto
  qed
  then obtain s where run: "for_loop body [0..<n] s0 = Inr s" by blast
  have "I s \<and> length (hist s) = Suc n \<and> hist s ! 0 = cur s0 \<and> hist s ! n = cur s \<and>
         (\<forall>t<n. R t (hist s ! t) (hist s ! Suc t))"
  proof (rule for_loop_history[where I = I and body = body and n = n and hist = hist and cur = cur and R = R and ?s0.0 = s0, OF I0 h0 _ _ run])
    fix t u u' assume "t < n" "I u" "body t u = Inr u'"
    then show "I u' \<and> hist u' = hist u @ [cur u'] \<and> R t (cur u) (cur u')"
      using step[of t u] by auto
  qed simp
  then show ?thesis using run by blast
qed

lemma shape_np_clip [simp]:
  "shape0 (np_clip A lo hi) = shape0 A" "shape1 (np_clip A lo hi) = shape1 A"
  by (simp_all add: np_clip_def)

lemma wf_np_clip: "wf_ndarray A \<Longrightarrow> wf_ndarray (np_clip A lo hi)"
  by (simp add: wf_ndarray_def np_clip_def list_all_iff)

lemma in_bounds_np_clip: "lo \<le> hi \<Longrightarrow> in_bounds lo hi (np_clip A lo hi)"
  by (auto simp: in_bounds_def np_clip_def list_all_iff)

lemma np_clip_id: "in_bounds lo hi A \<Longrightarrow> np_clip A lo hi = A"
proof -
  assume b: "in_bounds lo hi A"
  have "map (map (\<lambda>x. min hi (max lo x))) (rows A) = rows A"
    using b by (auto simp: in_bounds_def list_all_iff intro!: map_idI)
  then show ?thesis by (simp add: np_clip_def)
qed

lemma iadd2_same_shape:
  assumes "shape0 D = shape0 A" "shape1 D = shape1 A"
  shows "iadd2 A D = Inr (A\<lparr>rows := map2 (map2 (+)) (rows A) (rows D)\<rparr>)"
  using assms by (simp add: iadd2_def broadcast2_def)

lemma wf_map2_rows:
  assumes "length X = m" "length Y = m" "\<forall>r\<in>set X. length r = n" "\<forall>r\<in>set Y. length r = n"
  shows "length (map2 (map2 f) X Y) = m \<and> (\<forall>r\<in>set (map2 (map2 f) X Y). length r = n)"
proof -
  have "length r = n" if "r \<in> set (map2 (map2 f) X Y)" for r
  proof -
    from that obtain x y where xy: "(x, y) \<in> set (zip X Y)" and r: "r = map2 f x y" by auto
    have "x \<in> set X" "y \<in> set Y" using xy by (auto dest: set_zip_leftD set_zip_rightD)
    then show ?thesis using assms r by simp
  qed
  then show ?thesis using assms by simp
qed

lemma wf_row_length: "wf_ndarray A \<Longrightarrow> t < shape0 A \<Longrightarrow> length (rows A ! t) = shape1 A"
  by (simp add: wf_ndarray_def list_all_length)

lemma getitem_row_ok: "t < shape0 A \<Longrightarrow> getitem_row A t = Inr (rows A ! t)"
  by (simp add: getitem_row_def)

lemma outer_update_returns:
  assumes wf: "wf_ndarray W" and s0: "shape0 W = length a" and s1: "shape1 W = length b"
  shows "\<exists>W'. iadd2 W (scale2 eta (np_outer a b)) = Inr W' \<and> wf_ndarray W' \<and>
           shape0 W' = shape0 W \<and> shape1 W' = shape1 W"
proof -
  let ?D = "scale2 eta (np_outer a b)"
  have sh: "shape0 ?D = shape0 W" "shape1 ?D = shape1 W"
    using s0 s1 by (simp_all add: scale2_def np_outer_def)
  have rD: "length (rows ?D) = shape0 W" "\<forall>r\<in>set (rows ?D). length r = shape1 W"
    using s0 s1 by (auto simp: scale2_def np_outer_def)
  have rW: "length (rows W) = shape0 W" "\<forall>r\<in>set (rows W). length r = shape1 W"
    using wf by (simp_all add: wf_ndarray_def list_all_iff)
  have "wf_ndarray (W\<lparr>rows := map2 (map2 (+)) (rows W) (rows ?D)\<rparr>)"
    using wf_map2_rows[OF rW(1) rD(1) rW(2) rD(2), of "(+)"]
    by (simp add: wf_ndarray_def list_all_iff)
  then show ?thesis using iadd2_same_shape[OF sh] by simp
qed

lemma hebbian_update_returns:
  assumes "wf_ndarray W" "shape0 W = length a" "shape1 W = length b"
  shows "\<exists>W'. hebbian_update eta lo hi a b W = Inr W' \<and> wf_ndarray W' \<and>
           shape0 W' = shape0 W \<and> shape1 W' = shape1 W"
proof -
  from outer_update_returns[OF assms, of eta] obtain X where
    X: "iadd2 W (scale2 eta (np_outer a b)) = Inr X" "wf_ndarray X"
       "shape0 X = shape0 W" "shape1 X = shape1 W" by blast
  then show ?thesis by (simp add: hebbian_update_def wf_np_clip)
qed

lemma bcm_update_returns:
  assumes "wf_ndarray W" "shape0 W = length a" "shape1 W = length b"
  shows "\<exists>W'. bcm_update eta theta lo hi a b W = Inr W' \<and> wf_ndarray W' \<and>
           shape0 W' = shape0 W \<and> shape1 W' = shape1 W"
proof -
  have "shape1 W = length (map (\<lambda>x. x * (x - theta)) b)" using assms(3) by simp
  from outer_update_returns[OF assms(1,2) this, of eta] obtain X where
    X: "iadd2 W (scale2 eta (np_outer a (map (\<lambda>x. x * (x - theta)) b))) = Inr X" "wf_ndarray X"
       "shape0 X = shape0 W" "shape1 X = shape1 W" by blast
  then show ?thesis by (simp add: bcm_update_def wf_np_clip)
qed

lemma hebbian_update_clipped:
  "hebbian_update eta lo hi a b W = Inr W' \<Longrightarrow> \<exists>X. W' = np_clip X lo hi"
  by (auto simp: hebbian_update_def split: sum.splits)

lemma bcm_update_clipped:
  "bcm_update eta theta lo hi a b W = Inr W' \<Longrightarrow> \<exists>X. W' = np_clip X lo hi"
  by (auto simp: bcm_update_def split: sum.splits)

lemma hebbian_step_ok:
  assumes pre: "wf_ndarray pre" and post: "wf_ndarray post"
    and t: "t < shape0 pre" "t < shape0 post"
    and W: "weights_shaped pre post (hW u)"
  shows "\<exists>u'. hebbian_step pre post eta lo hi t u = Inr u' \<and> weights_shaped pre post (hW u') \<and>
           hW_history u' = hW_history u @ [hW u'] \<and>
           (if gate_fires pre post t
            then hebbian_update eta lo hi (rows pre ! t) (rows post ! t) (hW u) = Inr (hW u')
            else hW u' = hW u)"
proof -
  have len: "length (rows pre ! t) = shape1 pre" "length (rows post ! t) = shape1 post"
    using wf_row_length pre post t by simp_all
  from W have "wf_ndarray (hW u)" "shape0 (hW u) = length (rows pre ! t)"
    "shape1 (hW u) = length (rows post ! t)"
    using len by (simp_all add: weights_shaped_def)
  from hebbian_update_returns[OF this, of eta lo hi] obtain W' where
    W': "hebbian_update eta lo hi (rows pre ! t) (rows post ! t) (hW u) = Inr W'"
      "wf_ndarray W'" "shape0 W' = shape0 (hW u)" "shape1 W' = shape1 (hW u)" by blast
  then have "weights_shaped pre post W'" using W by (simp add: weights_shaped_def)
  then show ?thesis using W W' t
    by (simp add: hebbian_step_def getitem_row_ok gate_fires_def)
qed

lemma length_scale1 [simp]: "length (scale1 c v) = length v"
  by (simp add: scale1_def)

lemma iadd1_same_length:
  "length v = length u \<Longrightarrow> iadd1 u v = Inr (map2 (+) u v)"
  by (simp add: iadd1_def broadcast1_def)

lemma bcm_step_ok:
  assumes pre: "wf_ndarray pre" and post: "wf_ndarray post"
    and t: "t < shape0 pre" "t < shape0 post" and tau: "tau \<noteq> 0"
    and inv: "bcm_inv pre post u"
  shows "\<exists>u'. bcm_step tau pre post eta theta lo hi dt t u = Inr u' \<and> bcm_inv pre post u' \<and>
           bW_history u' = bW_history u @ [bW u'] \<and>
           (if gate_fires pre post t
            then bcm_update eta theta lo hi (rows pre ! t) (rows post ! t) (bW u) = Inr (bW u')
            else bW u' = bW u)"
proof -
  have len: "length (rows pre ! t) = shape1 pre" "length (rows post ! t) = shape1 post"
    using wf_row_length pre post t by simp_all
  from inv have W: "weights_shaped pre post (bW u)" and pa: "length (post_activity u) = shape1 post"
    by (simp_all add: bcm_inv_def)
  from W have "wf_ndarray (bW u)" "shape0 (bW u) = length (rows pre ! t)"
    "shape1 (bW u) = length (rows post ! t)"
    using len by (simp_all add: weights_shaped_def)
  from bcm_update_returns[OF this, of eta theta lo hi] obtain W' where
    W': "bcm_update eta theta lo hi (rows pre ! t) (rows post ! t) (bW u) = Inr W'"
      "wf_ndarray W'" "shape0 W' = shape0 (bW u)" "shape1 W' = shape1 (bW u)" by blast
  then have ws: "weights_shaped pre post W'" using W by (simp add: weights_shaped_def)
  show ?thesis using W W' ws t tau pa len
    by (simp add: bcm_step_def getitem_row_ok gate_fires_def py_div_def iadd1_same_length bcm_inv_def)
qed

lemma np_where_pos_set: "i \<in> set (np_where_pos r) \<longleftrightarrow> i < length r \<and> 0 < r ! i"
  by (auto simp: np_where_pos_def)

lemma np_where_pos_distinct: "distinct (np_where_pos r)"
  by (simp add: np_where_pos_def)

lemma np_where_pos_sorted: "sorted (np_where_pos r)"
  by (simp add: np_where_pos_def sorted_wrt_filter)

lemma wf_rows: "wf_ndarray A \<Longrightarrow> length (rows A) = shape0 A"
  by (simp add: wf_ndarray_def)

lemma wf_entry_row: "wf_ndarray A \<Longrightarrow> i < shape0 A \<Longrightarrow> length (rows A ! i) = shape1 A"
  by (simp add: wf_ndarray_def list_all_length)

lemma wf_ndarrayI:
  "length (rows A) = shape0 A \<Longrightarrow> (\<And>i. i < shape0 A \<Longrightarrow> length (rows A ! i) = shape1 A) \<Longrightarrow> wf_ndarray A"
  by (simp add: wf_ndarray_def list_all_length)

lemma pre_spike_body_ok:
  assumes wf: "wf_ndarray (sW s)" and i: "i < shape0 (sW s)"
    and pt: "length (pre_trace s) = shape0 (sW s)"
    and qt: "length (post_trace s) = shape1 (sW s)"
  shows "pre_spike_body eta am i s =
         Inr (s\<lparr>pre_trace := (pre_trace s)[i := pre_trace s ! i + 1],
                sW := (sW s)\<lparr>rows := (rows (sW s))[i := map2 (-) (rows (sW s) ! i)
                                        (scale1 (eta * am) (post_trace s))]\<rparr>\<rparr>)"
  using assms by (simp add: pre_spike_body_def iadd_at_def isub_row_def broadcast1_def)

lemma pre_loop_ok:
  assumes "distinct idxs" and "\<forall>i\<in>set idxs. i < shape0 (sW s)"
    and "wf_ndarray (sW s)"
    and "length (pre_trace s) = shape0 (sW s)"
    and "length (post_trace s) = shape1 (sW s)"
  shows "\<exists>s'. for_loop (pre_spike_body eta am) idxs s = Inr s' \<and>
      post_trace s' = post_trace s \<and> sW_history s' = sW_history s \<and>
      length (pre_trace s') = length (pre_trace s) \<and>
      wf_ndarray (sW s') \<and> shape0 (sW s') = shape0 (sW s) \<and> shape1 (sW s') = shape1 (sW s) \<and>
      (\<forall>i<shape0 (sW s). pre_trace s' ! i = pre_trace s ! i + (if i \<in> set idxs then 1 else 0)) \<and>
      (\<forall>i<shape0 (sW s). \<forall>j<shape1 (sW s).
          rows (sW s') ! i ! j =
          rows (sW s) ! i ! j - (if i \<in> set idxs then eta * am * post_trace s ! j else 0))"
  using assms
proof (induction idxs arbitrary: s)
  case Nil
  then show ?case by simp
next
  case (Cons k ks)
  let ?v = "scale1 (eta * am) (post_trace s)"
  let ?s1 = "s\<lparr>pre_trace := (pre_trace s)[k := pre_trace s ! k + 1],
                sW := (sW s)\<lparr>rows := (rows (sW s))[k := map2 (-) (rows (sW s) ! k) ?v]\<rparr>\<rparr>"
  have k: "k < shape0 (sW s)" using Cons.prems(2) by simp
  have b: "pre_spike_body eta am k s = Inr ?s1"
    using pre_spike_body_ok[OF Cons.prems(3) k Cons.prems(4,5)] .
  have rl: "length (rows (sW s)) = shape0 (sW s)" using Cons.prems(3) by (rule wf_rows)
  have wf1: "wf_ndarray (sW ?s1)"
  proof (rule wf_ndarrayI)
    show "length (rows (sW ?s1)) = shape0 (sW ?s1)" using rl by simp
  next
    fix i assume "i < shape0 (sW ?s1)"
    then have i: "i < shape0 (sW s)" by simp
    show "length (rows (sW ?s1) ! i) = shape1 (sW ?s1)"
      using i rl wf_entry_row[OF Cons.prems(3) i] Cons.prems(5)
      by (cases "i = k") simp_all
  qed
  have ih: "\<exists>s'. for_loop (pre_spike_body eta am) ks ?s1 = Inr s' \<and>
      post_trace s' = post_trace ?s1 \<and> sW_history s' = sW_history ?s1 \<and>
      length (pre_trace s') = length (pre_trace ?s1) \<and>
      wf_ndarray (sW s') \<and> shape0 (sW s') = shape0 (sW ?s1) \<and> shape1 (sW s') = shape1 (sW ?s1) \<and>
      (\<forall>i<shape0 (sW ?s1). pre_trace s' ! i = pre_trace ?s1 ! i + (if i \<in> set ks then 1 else 0)) \<and>
      (\<forall>i<shape0 (sW ?s1). \<forall>j<shape1 (sW ?s1).
          rows (sW s') ! i ! j =
          rows (sW ?s1) ! i ! j - (if i \<in> set ks then eta * am * post_trace ?s1 ! j else 0))"
  proof (rule Cons.IH)
    show "distinct ks" using Cons.prems(1) by simp
    show "\<forall>i\<in>set ks. i < shape0 (sW ?s1)" using Cons.prems(2) by simp
    show "wf_ndarray (sW ?s1)" by (rule wf1)
    show "length (pre_trace ?s1) = shape0 (sW ?s1)" using Cons.prems(4) by simp
    show "length (post_trace ?s1) = shape1 (sW ?s1)" using Cons.prems(5) by simp
  qed
  then obtain s' where run: "for_loop (pre_spike_body eta am) ks ?s1 = Inr s'"
    and keep: "post_trace s' = post_trace s" "sW_history s' = sW_history s"
      "length (pre_trace s') = length (pre_trace s)"
      "wf_ndarray (sW s')" "shape0 (sW s') = shape0 (sW s)" "shape1 (sW s') = shape1 (sW s)"
    and pt: "\<forall>i<shape0 (sW s). pre_trace s' ! i = pre_trace ?s1 ! i + (if i \<in> set ks then 1 else 0)"
    and w: "\<forall>i<shape0 (sW s). \<forall>j<shape1 (sW s).
          rows (sW s') ! i ! j =
          rows (sW ?s1) ! i ! j - (if i \<in> set ks then eta * am * post_trace s ! j else 0)"
    by auto
  have kks: "k \<notin> set ks" using Cons.prems(1) by simp
  have pt': "pre_trace s' ! i = pre_trace s ! i + (if i \<in> set (k # ks) then 1 else 0)"
    if "i < shape0 (sW s)" for i
    using pt[rule_format, OF that] that kks Cons.prems(4) by (cases "i = k") auto
  have w': "rows (sW s') ! i ! j =
          rows (sW s) ! i ! j - (if i \<in> set (k # ks) then eta * am * post_trace s ! j else 0)"
    if "i < shape0 (sW s)" "j < shape1 (sW s)" for i j
  proof (cases "i = k")
    case True
    have "rows (sW ?s1) ! k ! j = rows (sW s) ! k ! j - eta * am * post_trace s ! j"
      using that rl k wf_entry_row[OF Cons.prems(3) k] Cons.prems(5)
      by (simp add: scale1_def)
    then show ?thesis using w[rule_format, OF that] True kks by simp
  next
    case False
    then show ?thesis using w[rule_format, OF that] by simp
  qed
  show ?case using b run keep pt' w' by simp
qed

lemma post_spike_body_ok:
  assumes wf: "wf_ndarray (sW s)" and j: "j < shape1 (sW s)"
    and pt: "length (pre_trace s) = shape0 (sW s)"
    and qt: "length (post_trace s) = shape1 (sW s)"
  shows "post_spike_body eta ap j s =
         Inr (s\<lparr>post_trace := (post_trace s)[j := post_trace s ! j + 1],
                sW := (sW s)\<lparr>rows := map2 (\<lambda>r x. r[j := r ! j + x]) (rows (sW s))
                                        (scale1 (eta * ap) (pre_trace s))\<rparr>\<rparr>)"
  using assms by (simp add: post_spike_body_def iadd_at_def iadd_col_def broadcast1_def)

lemma post_loop_ok:
  assumes "distinct idxs" and "\<forall>j\<in>set idxs. j < shape1 (sW s)"
    and "wf_ndarray (sW s)"
    and "length (pre_trace s) = shape0 (sW s)"
    and "length (post_trace s) = shape1 (sW s)"
  shows "\<exists>s'. for_loop (post_spike_body eta ap) idxs s = Inr s' \<and>
      pre_trace s' = pre_trace s \<and> sW_history s' = sW_history s \<and>
      length (post_trace s') = length (post_trace s) \<and>
      wf_ndarray (sW s') \<and> shape0 (sW s') = shape0 (sW s) \<and> shape1 (sW s') = shape1 (sW s) \<and>
      (\<forall>j<shape1 (sW s). post_trace s' ! j = post_trace s ! j + (if j \<in> set idxs then 1 else 0)) \<and>
      (\<forall>i<shape0 (sW s). \<forall>j<shape1 (sW s).
          rows (sW s') ! i ! j =
          rows (sW s) ! i ! j + (if j \<in> set idxs then eta * ap * pre_trace s ! i else 0))"
  using assms
proof (induction idxs arbitrary: s)
  case Nil
  then show ?case by simp
next
  case (Cons k ks)
  let ?v = "scale1 (eta * ap) (pre_trace s)"
  let ?s1 = "s\<lparr>post_trace := (post_trace s)[k := post_trace s ! k + 1],
                sW := (sW s)\<lparr>rows := map2 (\<lambda>r x. r[k := r ! k + x]) (rows (sW s)) ?v\<rparr>\<rparr>"
  have k: "k < shape1 (sW s)" using Cons.prems(2) by simp
  have b: "post_spike_body eta ap k s = Inr ?s1"
    using post_spike_body_ok[OF Cons.prems(3) k Cons.prems(4,5)] .
  have rl: "length (rows (sW s)) = shape0 (sW s)" using Cons.prems(3) by (rule wf_rows)
  have lv: "length ?v = shape0 (sW s)" using Cons.prems(4) by simp
  have row1: "rows (sW ?s1) ! i = (rows (sW s) ! i)[k := rows (sW s) ! i ! k + eta * ap * pre_trace s ! i]"
    if "i < shape0 (sW s)" for i
    using that rl lv Cons.prems(4) by (simp add: scale1_def)
  have wf1: "wf_ndarray (sW ?s1)"
  proof (rule wf_ndarrayI)
    show "length (rows (sW ?s1)) = shape0 (sW ?s1)" using rl lv by simp
  next
    fix i assume "i < shape0 (sW ?s1)"
    then have i: "i < shape0 (sW s)" by simp
    show "length (rows (sW ?s1) ! i) = shape1 (sW ?s1)"
      using row1[OF i] wf_entry_row[OF Cons.prems(3) i] by simp
  qed
  have ih: "\<exists>s'. for_loop (post_spike_body eta ap) ks ?s1 = Inr s' \<and>
      pre_trace s' = pre_trace ?s1 \<and> sW_history s' = sW_history ?s1 \<and>
      length (post_trace s') = length (post_trace ?s1) \<and>
      wf_ndarray (sW s') \<and> shape0 (sW s') = shape0 (sW ?s1) \<and> shape1 (sW s') = shape1 (sW ?s1) \<and>
      (\<forall>j<shape1 (sW ?s1). post_trace s' ! j = post_trace ?s1 ! j + (if j \<in> set ks then 1 else 0)) \<and>
      (\<forall>i<shape0 (sW ?s1). \<forall>j<shape1 (sW ?s1).
          rows (sW s') ! i ! j =
          rows (sW ?s1) ! i ! j + (if j \<in> set ks then eta * ap * pre_trace ?s1 ! i else 0))"
  proof (rule Cons.IH)
    show "distinct ks" using Cons.prems(1) by simp
    show "\<forall>j\<in>set ks. j < shape1 (sW ?s1)" using Cons.prems(2) by simp
    show "wf_ndarray (sW ?s1)" by (rule wf1)
    show "length (pre_trace ?s1) = shape0 (sW ?s1)" using Cons.prems(4) by simp
    show "length (post_trace ?s1) = shape1 (sW ?s1)" using Cons.prems(5) by simp
  qed
  then obtain s' where run: "for_loop (post_spike_body eta ap) ks ?s1 = Inr s'"
    and keep: "pre_trace s' = pre_trace s" "sW_history s' = sW_history s"
      "length (post_trace s') = length (post_trace s)"
      "wf_ndarray (sW s')" "shape0 (sW s') = shape0 (sW s)" "shape1 (sW s') = shape1 (sW s)"
    and qt: "\<forall>j<shape1 (sW s). post_trace s' ! j = post_trace ?s1 ! j + (if j \<in> set ks then 1 else 0)"
    and w: "\<forall>i<shape0 (sW s). \<forall>j<shape1 (sW s).
          rows (sW s') ! i ! j =
          rows (sW ?s1) ! i ! j + (if j \<in> set ks then eta * ap * pre_trace s ! i else 0)"
    by auto
  have kks: "k \<notin> set ks" using Cons.prems(1) by simp
  have qt': "post_trace s' ! j = post_trace s ! j + (if j \<in> set (k # ks) then 1 else 0)"
    if "j < shape1 (sW s)" for j
    using qt[rule_format, OF that] that kks Cons.prems(5) by (cases "j = k") auto
  have w': "rows (sW s') ! i ! j =
          rows (sW s) ! i ! j + (if j \<in> set (k # ks) then eta * ap * pre_trace s ! i else 0)"
    if "i < shape0 (sW s)" "j < shape1 (sW s)" for i j
  proof (cases "j = k")
    case True
    have "rows (sW ?s1) ! i ! k = rows (sW s) ! i ! k + eta * ap * pre_trace s ! i"
      using row1[OF that(1)] k wf_entry_row[OF Cons.prems(3) that(1)] by simp
    then show ?thesis using w[rule_format, OF that] True kks by simp
  next
    case False
    have "rows (sW ?s1) ! i ! j = rows (sW s) ! i ! j"
      using row1[OF that(1)] False by simp
    then show ?thesis using w[rule_format, OF that] False by simp
  qed
  show ?case using b run keep qt' w' by simp
qed

lemma decay_traces_ok:
  assumes "tp \<noteq> 0" "tm \<noteq> 0"
  shows "decay_traces tp tm dt s =
         Inr (s\<lparr>pre_trace := scale1 (exp (- dt / tp)) (pre_trace s),
                post_trace := scale1 (exp (- dt / tm)) (post_trace s)\<rparr>)"
  using assms by (simp add: decay_traces_def py_div_def)

lemma np_clip_entry:
  "i < length (rows A) \<Longrightarrow> j < length (rows A ! i) \<Longrightarrow>
   rows (np_clip A lo hi) ! i ! j = min hi (max lo (rows A ! i ! j))"
  by (simp add: np_clip_def)

lemma stdp_step_effect:
  assumes pre: "wf_ndarray pre" and post: "wf_ndarray post"
    and t: "t < shape0 pre" "t < shape0 post"
    and tau: "tp \<noteq> 0" "tm \<noteq> 0"
    and inv: "stdp_inv pre post s"
  shows "\<exists>s'. stdp_step pre post eta tp tm ap am lo hi dt t s = Inr s' \<and>
      stdp_inv pre post s' \<and> sW_history s' = sW_history s @ [sW s'] \<and>
      (\<exists>X. sW s' = np_clip X lo hi) \<and>
      (\<forall>i<shape1 pre. pre_trace s' ! i =
          exp (- dt / tp) * pre_trace s ! i + (if 0 < rows pre ! t ! i then 1 else 0)) \<and>
      (\<forall>j<shape1 post. post_trace s' ! j =
          exp (- dt / tm) * post_trace s ! j + (if 0 < rows post ! t ! j then 1 else 0)) \<and>
      (\<forall>i<shape1 pre. \<forall>j<shape1 post. rows (sW s') ! i ! j =
          min hi (max lo (rows (sW s) ! i ! j
            - (if 0 < rows pre ! t ! i then eta * am * (exp (- dt / tm) * post_trace s ! j) else 0)
            + (if 0 < rows post ! t ! j
               then eta * ap * (exp (- dt / tp) * pre_trace s ! i
                                 + (if 0 < rows pre ! t ! i then 1 else 0))
               else 0))))"
proof -
  let ?pre_t = "rows pre ! t" and ?post_t = "rows post ! t"
  let ?s1 = "s\<lparr>pre_trace := scale1 (exp (- dt / tp)) (pre_trace s),
                post_trace := scale1 (exp (- dt / tm)) (post_trace s)\<rparr>"
  have len: "length ?pre_t = shape1 pre" "length ?post_t = shape1 post"
    using wf_row_length pre post t by simp_all
  from inv have W: "wf_ndarray (sW s)" "shape0 (sW s) = shape1 pre" "shape1 (sW s) = shape1 post"
    and tr: "length (pre_trace s) = shape1 pre" "length (post_trace s) = shape1 post"
    by (simp_all add: stdp_inv_def weights_shaped_def)
  have d: "decay_traces tp tm dt s = Inr ?s1" using tau by (rule decay_traces_ok)
  have "\<exists>s'. for_loop (pre_spike_body eta am) (np_where_pos ?pre_t) ?s1 = Inr s' \<and>
      post_trace s' = post_trace ?s1 \<and> sW_history s' = sW_history ?s1 \<and>
      length (pre_trace s') = length (pre_trace ?s1) \<and>
      wf_ndarray (sW s') \<and> shape0 (sW s') = shape0 (sW ?s1) \<and> shape1 (sW s') = shape1 (sW ?s1) \<and>
      (\<forall>i<shape0 (sW ?s1). pre_trace s' ! i =
          pre_trace ?s1 ! i + (if i \<in> set (np_where_pos ?pre_t) then 1 else 0)) \<and>
      (\<forall>i<shape0 (sW ?s1). \<forall>j<shape1 (sW ?s1).
          rows (sW s') ! i ! j =
          rows (sW ?s1) ! i ! j
          - (if i \<in> set (np_where_pos ?pre_t) then eta * am * post_trace ?s1 ! j else 0))"
  proof (rule pre_loop_ok)
    show "distinct (np_where_pos ?pre_t)" by (rule np_where_pos_distinct)
    show "\<forall>i\<in>set (np_where_pos ?pre_t). i < shape0 (sW ?s1)"
      using W len by (simp add: np_where_pos_set)
    show "wf_ndarray (sW ?s1)" using W by simp
    show "length (pre_trace ?s1) = shape0 (sW ?s1)" using W tr by simp
    show "length (post_trace ?s1) = shape1 (sW ?s1)" using W tr by simp
  qed
  then obtain s2 where l1: "for_loop (pre_spike_body eta am) (np_where_pos ?pre_t) ?s1 = Inr s2"
    and k2: "post_trace s2 = scale1 (exp (- dt / tm)) (post_trace s)"
      "sW_history s2 = sW_history s" "length (pre_trace s2) = shape1 pre"
      "wf_ndarray (sW s2)" "shape0 (sW s2) = shape1 pre" "shape1 (sW s2) = shape1 post"
    and p2: "\<forall>i<shape1 pre. pre_trace s2 ! i =
          exp (- dt / tp) * pre_trace s ! i + (if 0 < ?pre_t ! i then 1 else 0)"
    and w2: "\<forall>i<shape1 pre. \<forall>j<shape1 post. rows (sW s2) ! i ! j =
          rows (sW s) ! i ! j
          - (if 0 < ?pre_t ! i then eta * am * (exp (- dt / tm) * post_trace s ! j) else 0)"
    using W tr len by (auto simp: np_where_pos_set scale1_def)
  have "\<exists>s'. for_loop (post_spike_body eta ap) (np_where_pos ?post_t) s2 = Inr s' \<and>
      pre_trace s' = pre_trace s2 \<and> sW_history s' = sW_history s2 \<and>
      length (post_trace s') = length (post_trace s2) \<and>
      wf_ndarray (sW s') \<and> shape0 (sW s') = shape0 (sW s2) \<and> shape1 (sW s') = shape1 (sW s2) \<and>
      (\<forall>j<shape1 (sW s2). post_trace s' ! j =
          post_trace s2 ! j + (if j \<in> set (np_where_pos ?post_t) then 1 else 0)) \<and>
      (\<forall>i<shape0 (sW s2). \<forall>j<shape1 (sW s2).
          rows (sW s') ! i ! j =
          rows (sW s2) ! i ! j
          + (if j \<in> set (np_where_pos ?post_t) then eta * ap * pre_trace s2 ! i else 0))"
  proof (rule post_loop_ok)
    show "distinct (np_where_pos ?post_t)" by (rule np_where_pos_distinct)
    show "\<forall>j\<in>set (np_where_pos ?post_t). j < shape1 (sW s2)"
      using k2 len by (simp add: np_where_pos_set)
    show "wf_ndarray (sW s2)" using k2 by simp
    show "length (pre_trace s2) = shape0 (sW s2)" using k2 by simp
    show "length (post_trace s2) = shape1 (sW s2)" using k2 tr by simp
  qed
  then obtain s3 where l2: "for_loop (post_spike_body eta ap) (np_where_pos ?post_t) s2 = Inr s3"
    and k3: "pre_trace s3 = pre_trace s2" "sW_history s3 = sW_history s"
      "length (post_trace s3) = shape1 post"
      "wf_ndarray (sW s3)" "shape0 (sW s3) = shape1 pre" "shape1 (sW s3) = shape1 post"
    and q3: "\<forall>j<shape1 post. post_trace s3 ! j =
          exp (- dt / tm) * post_trace s ! j + (if 0 < ?post_t ! j then 1 else 0)"
    and w3: "\<forall>i<shape1 pre. \<forall>j<shape1 post. rows (sW s3) ! i ! j =
          rows (sW s2) ! i ! j
          + (if 0 < ?post_t ! j then eta * ap * pre_trace s2 ! i else 0)"
    using k2 tr len by (auto simp: np_where_pos_set scale1_def)
  let ?s' = "clip_and_record lo hi s3"
  have step: "stdp_step pre post eta tp tm ap am lo hi dt t s = Inr ?s'"
    using d l1 l2 t by (simp add: stdp_step_def getitem_row_ok)
  have inv': "stdp_inv pre post ?s'"
    using k2 k3 by (simp add: stdp_inv_def weights_shaped_def clip_and_record_def wf_np_clip)
  have hist: "sW_history ?s' = sW_history s @ [sW ?s']"
    using k3 by (simp add: clip_and_record_def)
  have clip: "\<exists>X. sW ?s' = np_clip X lo hi" by (auto simp: clip_and_record_def)
  have ptr: "\<forall>i<shape1 pre. pre_trace ?s' ! i =
          exp (- dt / tp) * pre_trace s ! i + (if 0 < ?pre_t ! i then 1 else 0)"
    using p2 k3 by (simp add: clip_and_record_def)
  have qtr: "\<forall>j<shape1 post. post_trace ?s' ! j =
          exp (- dt / tm) * post_trace s ! j + (if 0 < ?post_t ! j then 1 else 0)"
    using q3 by (simp add: clip_and_record_def)
  have ent: "rows (sW ?s') ! i ! j =
          min hi (max lo (rows (sW s) ! i ! j
            - (if 0 < ?pre_t ! i then eta * am * (exp (- dt / tm) * post_trace s ! j) else 0)
            + (if 0 < ?post_t ! j
               then eta * ap * (exp (- dt / tp) * pre_trace s ! i
                                 + (if 0 < ?pre_t ! i then 1 else 0))
               else 0)))" if ij: "i < shape1 pre" "j < shape1 post" for i j
  proof -
    have i3: "i < length (rows (sW s3))" using k3 ij wf_rows[of "sW s3"] by simp
    have j3: "j < length (rows (sW s3) ! i)" using k3 ij wf_entry_row[of "sW s3" i] by simp
    have "rows (sW ?s') ! i ! j = min hi (max lo (rows (sW s3) ! i ! j))"
      using np_clip_entry[OF i3 j3] by (simp add: clip_and_record_def)
    also have "rows (sW s3) ! i ! j = rows (sW s2) ! i ! j
          + (if 0 < ?post_t ! j then eta * ap * pre_trace s2 ! i else 0)"
      using w3 ij by simp
    also have "rows (sW s2) ! i ! j = rows (sW s) ! i ! j
          - (if 0 < ?pre_t ! i then eta * am * (exp (- dt / tm) * post_trace s ! j) else 0)"
      using w2 ij by simp
    also have "pre_trace s2 ! i = exp (- dt / tp) * pre_trace s ! i + (if 0 < ?pre_t ! i then 1 else 0)"
      using p2 ij by simp
    finally show ?thesis .
  qed
  show ?thesis using step inv' hist clip ptr qtr ent by blast
qed

lemma ndarray_eqI:
  assumes "wf_ndarray A" "wf_ndarray B" "shape0 A = shape0 B" "shape1 A = shape1 B"
    and ent: "\<And>i j. i < shape0 A \<Longrightarrow> j < shape1 A \<Longrightarrow> rows A ! i ! j = rows B ! i ! j"
  shows "A = B"
proof -
  have "rows A = rows B"
  proof (rule nth_equalityI)
    show "length (rows A) = length (rows B)" using assms(1-3) by (simp add: wf_rows)
  next
    fix i assume "i < length (rows A)"
    then have i: "i < shape0 A" using assms(1) by (simp add: wf_rows)
    show "rows A ! i = rows B ! i"
    proof (rule nth_equalityI)
      show "length (rows A ! i) = length (rows B ! i)"
        using i assms(1-4) by (simp add: wf_entry_row)
    next
      fix j assume "j < length (rows A ! i)"
      then have "j < shape1 A" using i assms(1) by (simp add: wf_entry_row)
      then show "rows A ! i ! j = rows B ! i ! j" using ent i by simp
    qed
  qed
  then show ?thesis using assms(3,4) by simp
qed

lemma all_zero_entry:
  "all_zero A \<Longrightarrow> wf_ndarray A \<Longrightarrow> t < shape0 A \<Longrightarrow> i < shape1 A \<Longrightarrow> rows A ! t ! i = 0"
  by (simp add: all_zero_def wf_ndarray_def list_all_length)

lemma sum_list_zeros: "\<forall>x\<in>set xs. x = (0::real) \<Longrightarrow> sum_list xs = 0"
  by (induction xs) auto

lemma all_zero_row_sum:
  assumes "all_zero A" "wf_ndarray A" "t < shape0 A"
  shows "sum_list (rows A ! t) = 0"
proof -
  have "\<forall>x\<in>set (rows A ! t). x = 0"
    using assms nth_mem[of t "rows A"] by (auto simp: all_zero_def wf_ndarray_def list_all_iff)
  then show ?thesis by (rule sum_list_zeros)
qed

lemma all_zero_no_gate:
  "all_zero pre \<Longrightarrow> wf_ndarray pre \<Longrightarrow> \<not> gate_fires pre post t"
  using all_zero_row_sum[of pre t] by (auto simp: gate_fires_def)

lemma hebbian_run:
  assumes ok: "shapes_ok pre post w_init"
  shows "\<exists>traj. hebbian_learning pre post w_init eta lo hi = Inr traj \<and>
      length traj = Suc (shape0 pre) \<and> traj ! 0 = w_init \<and>
      (\<forall>t<shape0 pre.
         if gate_fires pre post t
         then hebbian_update eta lo hi (rows pre ! t) (rows post ! t) (traj ! t) = Inr (traj ! Suc t)
         else traj ! Suc t = traj ! t)"
proof -
  let ?s0 = "\<lparr>hW = w_init, hW_history = [w_init]\<rparr>"
  let ?R = "\<lambda>t w w'. if gate_fires pre post t
         then hebbian_update eta lo hi (rows pre ! t) (rows post ! t) w = Inr w'
         else w' = w"
  from ok have pre: "wf_ndarray pre" and post: "wf_ndarray post"
    and n: "shape0 pre = shape0 post" and W0: "weights_shaped pre post w_init"
    by (simp_all add: shapes_ok_def weights_shaped_def)
  have "\<exists>s. for_loop (hebbian_step pre post eta lo hi) [0..<shape0 pre] ?s0 = Inr s \<and>
          weights_shaped pre post (hW s) \<and> length (hW_history s) = Suc (shape0 pre) \<and>
          hW_history s ! 0 = hW ?s0 \<and> hW_history s ! shape0 pre = hW s \<and>
          (\<forall>t<shape0 pre. ?R t (hW_history s ! t) (hW_history s ! Suc t))"
  proof (rule for_loop_run[where I = "\<lambda>s. weights_shaped pre post (hW s)" and hist = hW_history
        and cur = hW and R = ?R])
    show "weights_shaped pre post (hW ?s0)" using W0 by simp
    show "hW_history ?s0 = [hW ?s0]" by simp
  next
    fix t and u :: hebb_state assume "t < shape0 pre" "weights_shaped pre post (hW u)"
    then show "\<exists>u'. hebbian_step pre post eta lo hi t u = Inr u' \<and>
              weights_shaped pre post (hW u') \<and> hW_history u' = hW_history u @ [hW u'] \<and>
              ?R t (hW u) (hW u')"
      using hebbian_step_ok[OF pre post, of t u eta lo hi] n by simp
  qed
  then obtain s where "for_loop (hebbian_step pre post eta lo hi) [0..<shape0 pre] ?s0 = Inr s"
    "length (hW_history s) = Suc (shape0 pre)" "hW_history s ! 0 = w_init"
    "\<forall>t<shape0 pre. ?R t (hW_history s ! t) (hW_history s ! Suc t)" by auto
  then show ?thesis by (simp add: hebbian_learning_def)
qed

lemma bcm_run_traj:
  assumes ok: "shapes_ok pre post w_init" and tau: "tau \<noteq> 0"
  shows "\<exists>traj. bcm_run tau pre post w_init eta theta lo hi dt = Inr traj \<and>
      length traj = Suc (shape0 pre) \<and> traj ! 0 = w_init \<and>
      (\<forall>t<shape0 pre.
         if gate_fires pre post t
         then bcm_update eta theta lo hi (rows pre ! t) (rows post ! t) (traj ! t) = Inr (traj ! Suc t)
         else traj ! Suc t = traj ! t)"
proof -
  let ?s0 = "\<lparr>bW = w_init, bW_history = [w_init], post_activity = replicate (shape1 post) 0\<rparr>"
  let ?R = "\<lambda>t w w'. if gate_fires pre post t
         then bcm_update eta theta lo hi (rows pre ! t) (rows post ! t) w = Inr w'
         else w' = w"
  from ok have pre: "wf_ndarray pre" and post: "wf_ndarray post"
    and n: "shape0 pre = shape0 post" and W0: "weights_shaped pre post w_init"
    by (simp_all add: shapes_ok_def weights_shaped_def)
  have "\<exists>s. for_loop (bcm_step tau pre post eta theta lo hi dt) [0..<shape0 pre] ?s0 = Inr s \<and>
          bcm_inv pre post s \<and> length (bW_history s) = Suc (shape0 pre) \<and>
          bW_history s ! 0 = bW ?s0 \<and> bW_history s ! shape0 pre = bW s \<and>
          (\<forall>t<shape0 pre. ?R t (bW_history s ! t) (bW_history s ! Suc t))"
  proof (rule for_loop_run[where I = "bcm_inv pre post" and hist = bW_history
        and cur = bW and R = ?R])
    show "bcm_inv pre post ?s0" using W0 by (simp add: bcm_inv_def)
    show "bW_history ?s0 = [bW ?s0]" by simp
  next
    fix t and u :: bcm_state assume "t < shape0 pre" "bcm_inv pre post u"
    then show "\<exists>u'. bcm_step tau pre post eta theta lo hi dt t u = Inr u' \<and>
              bcm_inv pre post u' \<and> bW_history u' = bW_history u @ [bW u'] \<and>
              ?R t (bW u) (bW u')"
      using bcm_step_ok[OF pre post _ _ tau, of t u eta theta lo hi dt] n by simp
  qed
  then obtain s where "for_loop (bcm_step tau pre post eta theta lo hi dt) [0..<shape0 pre] ?s0 = Inr s"
    "length (bW_history s) = Suc (shape0 pre)" "bW_history s ! 0 = w_init"
    "\<forall>t<shape0 pre. ?R t (bW_history s ! t) (bW_history s ! Suc t)" by auto
  then show ?thesis by (simp add: bcm_run_def)
qed

lemma stdp_zero_pre_step:
  assumes pre: "wf_ndarray pre" and post: "wf_ndarray post"
    and t: "t < shape0 pre" "t < shape0 post"
    and inv: "stdp_inv pre post s" "stdp_inv pre post s'"
    and z: "all_zero pre" "\<forall>i<shape1 pre. pre_trace s ! i = 0"
    and ent: "\<forall>i<shape1 pre. \<forall>j<shape1 post. rows (sW s') ! i ! j =
          min hi (max lo (rows (sW s) ! i ! j
            - (if 0 < rows pre ! t ! i then eta * am * (exp (- dt / tm) * post_trace s ! j) else 0)
            + (if 0 < rows post ! t ! j
               then eta * ap * (exp (- dt / tp) * pre_trace s ! i
                                 + (if 0 < rows pre ! t ! i then 1 else 0))
               else 0)))"
  shows "sW s' = np_clip (sW s) lo hi"
proof (rule ndarray_eqI)
  from inv have W: "wf_ndarray (sW s)" "shape0 (sW s) = shape1 pre" "shape1 (sW s) = shape1 post"
    and W': "wf_ndarray (sW s')" "shape0 (sW s') = shape1 pre" "shape1 (sW s') = shape1 post"
    by (simp_all add: stdp_inv_def weights_shaped_def)
  show "wf_ndarray (sW s')" by (rule W')
  show "wf_ndarray (np_clip (sW s) lo hi)" using W by (simp add: wf_np_clip)
  show "shape0 (sW s') = shape0 (np_clip (sW s) lo hi)" using W W' by simp
  show "shape1 (sW s') = shape1 (np_clip (sW s) lo hi)" using W W' by simp
  fix i j assume "i < shape0 (sW s')" "j < shape1 (sW s')"
  then have ij: "i < shape1 pre" "j < shape1 post" using W' by simp_all
  have zi: "rows pre ! t ! i = 0" using all_zero_entry[OF z(1) pre t(1) ij(1)] .
  have i1: "i < length (rows (sW s))" using W ij by (simp add: wf_rows)
  have j1: "j < length (rows (sW s) ! i)" using W ij by (simp add: wf_entry_row)
  have "rows (sW s') ! i ! j = min hi (max lo (rows (sW s) ! i ! j))"
    using ent ij zi z(2) by simp
  then show "rows (sW s') ! i ! j = rows (np_clip (sW s) lo hi) ! i ! j"
    using np_clip_entry[OF i1 j1] by simp
qed

lemma stdp_run:
  assumes ok: "shapes_ok pre post w_init" and tau: "tp \<noteq> 0" "tm \<noteq> 0"
  shows "\<exists>traj. stdp_learning pre post w_init eta tp tm ap am lo hi dt = Inr traj \<and>
      length traj = Suc (shape0 pre) \<and> traj ! 0 = w_init \<and>
      (\<forall>t<shape0 pre. (\<exists>X. traj ! Suc t = np_clip X lo hi) \<and>
                      (all_zero pre \<longrightarrow> traj ! Suc t = np_clip (traj ! t) lo hi))"
proof -
  let ?s0 = "\<lparr>sW = w_init, sW_history = [w_init],
              pre_trace = replicate (shape1 pre) 0, post_trace = replicate (shape1 post) 0\<rparr>"
  let ?R = "\<lambda>t w w'. (\<exists>X. w' = np_clip X lo hi) \<and> (all_zero pre \<longrightarrow> w' = np_clip w lo hi)"
  let ?I = "\<lambda>s. stdp_inv pre post s \<and> (all_zero pre \<longrightarrow> (\<forall>i<shape1 pre. pre_trace s ! i = 0))"
  let ?body = "stdp_step pre post eta tp tm ap am lo hi dt"
  from ok have pre: "wf_ndarray pre" and post: "wf_ndarray post"
    and n: "shape0 pre = shape0 post" and W0: "weights_shaped pre post w_init"
    by (simp_all add: shapes_ok_def weights_shaped_def)
  have "\<exists>s. for_loop ?body [0..<shape0 pre] ?s0 = Inr s \<and>
          ?I s \<and> length (sW_history s) = Suc (shape0 pre) \<and>
          sW_history s ! 0 = sW ?s0 \<and> sW_history s ! shape0 pre = sW s \<and>
          (\<forall>t<shape0 pre. ?R t (sW_history s ! t) (sW_history s ! Suc t))"
  proof (rule for_loop_run[where I = ?I and hist = sW_history and cur = sW and R = ?R])
    show "?I ?s0" using W0 by (simp add: stdp_inv_def)
    show "sW_history ?s0 = [sW ?s0]" by simp
  next
    fix t and u :: stdp_state assume t: "t < shape0 pre" and I: "?I u"
    then have t': "t < shape0 post" using n by simp
    from I have inv: "stdp_inv pre post u" by simp
    from stdp_step_effect[OF pre post t t' tau inv, of eta ap am lo hi dt]
    obtain u' where st: "?body t u = Inr u'" and inv': "stdp_inv pre post u'"
      and h: "sW_history u' = sW_history u @ [sW u']" and c: "\<exists>X. sW u' = np_clip X lo hi"
      and ptr: "\<forall>i<shape1 pre. pre_trace u' ! i =
          exp (- dt / tp) * pre_trace u ! i + (if 0 < rows pre ! t ! i then 1 else 0)"
      and ent: "\<forall>i<shape1 pre. \<forall>j<shape1 post. rows (sW u') ! i ! j =
          min hi (max lo (rows (sW u) ! i ! j
            - (if 0 < rows pre ! t ! i then eta * am * (exp (- dt / tm) * post_trace u ! j) else 0)
            + (if 0 < rows post ! t ! j
               then eta * ap * (exp (- dt / tp) * pre_trace u ! i
                                 + (if 0 < rows pre ! t ! i then 1 else 0))
               else 0)))"
      by blast
    have z': "\<forall>i<shape1 pre. pre_trace u' ! i = 0" if z: "all_zero pre"
    proof (intro allI impI)
      fix i assume i: "i < shape1 pre"
      have "rows pre ! t ! i = 0" using all_zero_entry[OF z pre t i] .
      moreover have "pre_trace u ! i = 0" using I z i by simp
      ultimately show "pre_trace u' ! i = 0" using ptr i by simp
    qed
    have eq: "sW u' = np_clip (sW u) lo hi" if z: "all_zero pre"
    proof (rule stdp_zero_pre_step[OF pre post t t' inv inv' z _ ent])
      show "\<forall>i<shape1 pre. pre_trace u ! i = 0" using I z by simp
    qed
    show "\<exists>u'. ?body t u = Inr u' \<and> ?I u' \<and> sW_history u' = sW_history u @ [sW u'] \<and>
              ?R t (sW u) (sW u')"
      using st inv' h c z' eq by blast
  qed
  then obtain s where "for_loop ?body [0..<shape0 pre] ?s0 = Inr s"
    "length (sW_history s) = Suc (shape0 pre)" "sW_history s ! 0 = w_init"
    "\<forall>t<shape0 pre. ?R t (sW_history s ! t) (sW_history s ! Suc t)" by auto
  then show ?thesis by (simp add: stdp_learning_def)
qed

lemma hebbian_step_returned:
  assumes "hebbian_step pre post eta lo hi t u = Inr u'"
  shows "hW_history u' = hW_history u @ [hW u'] \<and>
         (if gate_fires pre post t then \<exists>X. hW u' = np_clip X lo hi else hW u' = hW u)"
  using assms
  by (auto simp: hebbian_step_def getitem_row_def gate_fires_def hebbian_update_def
           split: sum.splits if_splits)

lemma bcm_step_returned:
  assumes "bcm_step tau pre post eta theta lo hi dt t u = Inr u'"
  shows "bW_history u' = bW_history u @ [bW u'] \<and>
         (if gate_fires pre post t then \<exists>X. bW u' = np_clip X lo hi else bW u' = bW u)"
  using assms
  by (auto simp: bcm_step_def getitem_row_def gate_fires_def bcm_update_def
           split: sum.splits if_splits)

lemma pre_spike_body_history:
  "pre_spike_body eta am i s = Inr s' \<Longrightarrow> sW_history s' = sW_history s"
  by (auto simp: pre_spike_body_def split: sum.splits)

lemma post_spike_body_history:
  "post_spike_body eta ap j s = Inr s' \<Longrightarrow> sW_history s' = sW_history s"
  by (auto simp: post_spike_body_def split: sum.splits)

lemma decay_traces_history:
  "decay_traces tp tm dt s = Inr s' \<Longrightarrow> sW_history s' = sW_history s"
  by (auto simp: decay_traces_def split: sum.splits)

lemma stdp_step_returned:
  assumes "stdp_step pre post eta tp tm ap am lo hi dt t u = Inr u'"
  shows "sW_history u' = sW_history u @ [sW u'] \<and> (\<exists>X. sW u' = np_clip X lo hi)"
proof -
  from assms obtain s1 s2 s3 pre_t post_t where
    d: "decay_traces tp tm dt u = Inr s1"
    and l1: "for_loop (pre_spike_body eta am) (np_where_pos pre_t) s1 = Inr s2"
    and l2: "for_loop (post_spike_body eta ap) (np_where_pos post_t) s2 = Inr s3"
    and u': "u' = clip_and_record lo hi s3"
    by (auto simp: stdp_step_def split: sum.splits)
  have h1: "sW_history s1 = sW_history u" using d by (rule decay_traces_history)
  have h2: "sW_history s2 = sW_history u"
    by (rule for_loop_invariant[OF l1, where I = "\<lambda>s. sW_history s = sW_history u"])
       (simp_all add: h1 pre_spike_body_history)
  have h3: "sW_history s3 = sW_history u"
    by (rule for_loop_invariant[OF l2, where I = "\<lambda>s. sW_history s = sW_history u"])
       (simp_all add: h2 post_spike_body_history)
  show ?thesis using h3 u' by (auto simp: clip_and_record_def)
qed

lemma hebbian_returned:
  assumes run: "hebbian_learning pre post w_init eta lo hi = Inr traj"
  shows "length traj = Suc (shape0 pre) \<and> traj ! 0 = w_init \<and>
      (\<forall>t<shape0 pre. if gate_fires pre post t then \<exists>X. traj ! Suc t = np_clip X lo hi
                       else traj ! Suc t = traj ! t)"
proof -
  let ?s0 = "\<lparr>hW = w_init, hW_history = [w_init]\<rparr>"
  let ?R = "\<lambda>t w w'. if gate_fires pre post t then \<exists>X. w' = np_clip X lo hi else w' = w"
  from run obtain s where s: "for_loop (hebbian_step pre post eta lo hi) [0..<shape0 pre] ?s0 = Inr s"
    and traj: "traj = hW_history s"
    by (auto simp: hebbian_learning_def split: sum.splits)
  have "True \<and> length (hW_history s) = Suc (shape0 pre) \<and> hW_history s ! 0 = hW ?s0 \<and>
        hW_history s ! shape0 pre = hW s \<and>
        (\<forall>t<shape0 pre. ?R t (hW_history s ! t) (hW_history s ! Suc t))"
    by (rule for_loop_history[where I = "\<lambda>s. True" and hist = hW_history and cur = hW
          and R = ?R and n = "shape0 pre", OF _ _ _ _ s])
       (simp_all add: hebbian_step_returned)
  then show ?thesis using traj by simp
qed

lemma bcm_returned:
  assumes run: "bcm_run tau pre post w_init eta theta lo hi dt = Inr traj"
  shows "length traj = Suc (shape0 pre) \<and> traj ! 0 = w_init \<and>
      (\<forall>t<shape0 pre. if gate_fires pre post t then \<exists>X. traj ! Suc t = np_clip X lo hi
                       else traj ! Suc t = traj ! t)"
proof -
  let ?s0 = "\<lparr>bW = w_init, bW_history = [w_init], post_activity = replicate (shape1 post) 0\<rparr>"
  let ?R = "\<lambda>t w w'. if gate_fires pre post t then \<exists>X. w' = np_clip X lo hi else w' = w"
  from run obtain s where
    s: "for_loop (bcm_step tau pre post eta theta lo hi dt) [0..<shape0 pre] ?s0 = Inr s"
    and traj: "traj = bW_history s"
    by (auto simp: bcm_run_def split: sum.splits)
  have "True \<and> length (bW_history s) = Suc (shape0 pre) \<and> bW_history s ! 0 = bW ?s0 \<and>
        bW_history s ! shape0 pre = bW s \<and>
        (\<forall>t<shape0 pre. ?R t (bW_history s ! t) (bW_history s ! Suc t))"
    by (rule for_loop_history[where I = "\<lambda>s. True" and hist = bW_history and cur = bW
          and R = ?R and n = "shape0 pre", OF _ _ _ _ s])
       (simp_all add: bcm_step_returned)
  then show ?thesis using traj by simp
qed

lemma stdp_returned:
  assumes run: "stdp_learning pre post w_init eta tp tm ap am lo hi dt = Inr traj"
  shows "length traj = Suc (shape0 pre) \<and> traj ! 0 = w_init \<and>
      (\<forall>t<shape0 pre. \<exists>X. traj ! Suc t = np_clip X lo hi)"
proof -
  let ?s0 = "\<lparr>sW = w_init, sW_history = [w_init],
              pre_trace = replicate (shape1 pre) 0, post_trace = replicate (shape1 post) 0\<rparr>"
  let ?R = "\<lambda>(t::nat) (w::ndarray2) w'. \<exists>X. w' = np_clip X lo hi"
  from run obtain s where
    s: "for_loop (stdp_step pre post eta tp tm ap am lo hi dt) [0..<shape0 pre] ?s0 = Inr s"
    and traj: "traj = sW_history s"
    by (auto simp: stdp_learning_def split: sum.splits)
  have "True \<and> length (sW_history s) = Suc (shape0 pre) \<and> sW_history s ! 0 = sW ?s0 \<and>
        sW_history s ! shape0 pre = sW s \<and>
        (\<forall>t<shape0 pre. ?R t (sW_history s ! t) (sW_history s ! Suc t))"
    by (rule for_loop_history[where I = "\<lambda>s. True" and hist = sW_history and cur = sW
          and R = ?R and n = "shape0 pre", OF _ _ _ _ s])
       (simp_all add: stdp_step_returned)
  then show ?thesis using traj by simp
qed

text \<open>From a property of consecutive snapshots to a property of every snapshot.\<close>

lemma snapshots_induct:
  assumes "length traj = Suc n" and "P (traj ! 0)"
    and "\<And>t. t < n \<Longrightarrow> P (traj ! t) \<Longrightarrow> P (traj ! Suc t)"
  shows "\<forall>W\<in>set traj. P W"
proof -
  have "P (traj ! k)" if "k \<le> n" for k
    using that
  proof (induction k)
    case 0
    then show ?case using assms(2) by simp
  next
    case (Suc k)
    then show ?case using assms(3)[of k] by simp
  qed
  then show ?thesis using assms(1) by (auto simp: in_set_conv_nth)
qed

lemma runs_return:
  assumes "shapes_ok pre post w_init"
  shows "(tp \<noteq> 0 \<and> tm \<noteq> 0 \<longrightarrow>
            (\<exists>traj. stdp_learning pre post w_init eta tp tm ap am lo hi dt = Inr traj)) \<and>
         (\<exists>traj. hebbian_learning pre post w_init eta lo hi = Inr traj) \<and>
         (\<exists>traj. bcm_learning pre post w_init eta theta lo hi dt = Inr traj)"
proof -
  have "\<exists>traj. stdp_learning pre post w_init eta tp tm ap am lo hi dt = Inr traj"
    if "tp \<noteq> 0" "tm \<noteq> 0"
    using stdp_run[OF assms that, of eta ap am lo hi dt] by blast
  moreover have "\<exists>traj. hebbian_learning pre post w_init eta lo hi = Inr traj"
    using hebbian_run[OF assms, of eta lo hi] by blast
  moreover have "\<exists>traj. bcm_learning pre post w_init eta theta lo hi dt = Inr traj"
    using bcm_run_traj[OF assms, of 100 eta theta lo hi dt] by (auto simp: bcm_learning_def)
  ultimately show ?thesis by blast
qed

lemma ex_shapes_ok: "shapes_ok ex_pre ex_post ex_w"
  by (simp add: shapes_ok_def wf_ndarray_def ex_pre_def ex_post_def ex_w_def)

lemma carried_forward:
  assumes "\<forall>t<n. \<not> G t \<longrightarrow> traj ! Suc t = traj ! t" and "k \<le> n" and "\<forall>t<k. \<not> G t"
  shows "traj ! k = traj ! 0"
  using assms(2,3)
proof (induction k)
  case 0
  then show ?case by simp
next
  case (Suc k)
  then have "traj ! k = traj ! 0" by simp
  moreover have "traj ! Suc k = traj ! k" using assms(1) Suc.prems by simp
  ultimately show ?case by simp
qed

lemma ungated_steps:
  assumes "length traj = Suc n" and "traj ! 0 = w_init"
    and "\<forall>t<n. if G t then \<exists>X. traj ! Suc t = np_clip X lo hi else traj ! Suc t = traj ! t"
  shows "(\<forall>t<n. \<not> G t \<longrightarrow> traj ! Suc t = traj ! t) \<and>
         (\<forall>k\<le>n. (\<forall>t<k. \<not> G t) \<longrightarrow> traj ! k = w_init)"
proof -
  have a: "\<forall>t<n. \<not> G t \<longrightarrow> traj ! Suc t = traj ! t" using assms(3) by auto
  have "traj ! k = w_init" if "k \<le> n" "\<forall>t<k. \<not> G t" for k
    using carried_forward[OF a that] assms(2) by simp
  then show ?thesis using a by blast
qed

lemma silent_shapes_ok: "shapes_ok silent silent ex_w_out"
  by (simp add: shapes_ok_def wf_ndarray_def silent_def ex_w_out_def)

lemma silent_no_gate: "\<not> gate_fires silent silent t"
  by (auto simp: gate_fires_def silent_def)

lemma in_set_tl_nth:
  assumes "length traj = Suc n" "W \<in> set (tl traj)"
  shows "\<exists>t<n. W = traj ! Suc t"
proof -
  from assms(2) obtain t where "t < length (tl traj)" "W = tl traj ! t"
    by (auto simp: in_set_conv_nth)
  then show ?thesis using assms(1) by (auto simp: nth_tl)
qed

lemma gated_bounds:
  assumes len: "length traj = Suc n" and b0: "in_bounds lo hi (traj ! 0)" and le: "lo \<le> hi"
    and st: "\<forall>t<n. if G t then \<exists>X. traj ! Suc t = np_clip X lo hi else traj ! Suc t = traj ! t"
  shows "\<forall>W\<in>set traj. in_bounds lo hi W"
proof (rule snapshots_induct[OF len, where P = "in_bounds lo hi"])
  show "in_bounds lo hi (traj ! 0)" by (rule b0)
next
  fix t assume t: "t < n" and b: "in_bounds lo hi (traj ! t)"
  show "in_bounds lo hi (traj ! Suc t)"
  proof (cases "G t")
    case True
    have "\<exists>X. traj ! Suc t = np_clip X lo hi" using st[rule_format, OF t] True by simp
    then obtain X where "traj ! Suc t = np_clip X lo hi" by blast
    then show ?thesis using in_bounds_np_clip[OF le] by simp
  next
    case False
    then show ?thesis using st[rule_format, OF t] b by simp
  qed
qed

lemma ex_w_in_bounds: "in_bounds 0 1 ex_w"
  by (simp add: in_bounds_def ex_w_def)

lemma clip_clip: "min hi (max lo (min hi (max lo (x::real)))) = min hi (max lo x)"
  by (simp add: min_def max_def)

lemma np_clip_idem: "np_clip (np_clip A lo hi) lo hi = np_clip A lo hi"
  by (simp add: np_clip_def clip_clip comp_def)

lemma set_traj_split:
  assumes "length traj = Suc n"
  shows "set traj = insert (traj ! 0) (set (tl traj))"
  using assms by (cases traj) auto

lemma constant_trajectory:
  assumes len: "length traj = Suc n" and first: "traj ! 0 = w_init"
    and st: "\<forall>t<n. traj ! Suc t = traj ! t"
  shows "\<forall>W\<in>set traj. W = w_init"
  by (rule snapshots_induct[OF len, where P = "\<lambda>W. W = w_init"]) (simp_all add: first st)

lemma clipped_trajectory:
  assumes len: "length traj = Suc n" and first: "traj ! 0 = w_init"
    and st: "\<forall>t<n. traj ! Suc t = np_clip (traj ! t) lo hi"
  shows "\<forall>W\<in>set (tl traj). W = np_clip w_init lo hi"
proof -
  have k: "traj ! Suc k = np_clip w_init lo hi" if "k < n" for k
    using that
  proof (induction k)
    case 0
    then show ?case using st first by simp
  next
    case (Suc k)
    then have "traj ! Suc k = np_clip w_init lo hi" by simp
    moreover have "traj ! Suc (Suc k) = np_clip (traj ! Suc k) lo hi" using st Suc.prems by simp
    ultimately show ?case by (simp add: np_clip_idem)
  qed
  show ?thesis
  proof
    fix W assume "W \<in> set (tl traj)"
    from in_set_tl_nth[OF len this] obtain t where "t < n" "W = traj ! Suc t" by blast
    then show "W = np_clip w_init lo hi" using k by simp
  qed
qed

lemma silent_all_zero: "all_zero silent" "wf_ndarray silent"
  by (simp_all add: all_zero_def wf_ndarray_def silent_def)

lemma silent_spiking_ok: "shapes_ok silent spiking ex_w"
  by (simp add: shapes_ok_def wf_ndarray_def silent_def spiking_def ex_w_def)

lemma for_loop_simulation:
  "Rel s u \<Longrightarrow>
   (\<And>i s u. i \<in> set xs \<Longrightarrow> Rel s u \<Longrightarrow> rel_sum (=) Rel (b1 i s) (b2 i u)) \<Longrightarrow>
   rel_sum (=) Rel (for_loop b1 xs s) (for_loop b2 xs u)"
proof (induction xs arbitrary: s u)
  case Nil
  then show ?case by simp
next
  case (Cons i js)
  have st: "rel_sum (=) Rel (b1 i s) (b2 i u)" by (rule Cons.prems(2)[OF _ Cons.prems(1)]) simp
  show ?case
  proof (cases "b1 i s")
    case (Inl e)
    then show ?thesis using st by (cases "b2 i u") simp_all
  next
    case (Inr s1)
    then obtain u1 where u1: "b2 i u = Inr u1" and r1: "Rel s1 u1"
      using st by (cases "b2 i u") simp_all
    have "rel_sum (=) Rel (for_loop b1 js s1) (for_loop b2 js u1)"
    proof (rule Cons.IH[OF r1])
      fix j s u assume "j \<in> set js" "Rel s u"
      then show "rel_sum (=) Rel (b1 j s) (b2 j u)" using Cons.prems(2)[of j s u] by simp
    qed
    then show ?thesis using Inr u1 by simp
  qed
qed

lemma for_loop_forward:
  "for_loop b1 xs s = Inr s' \<Longrightarrow> Rel s u \<Longrightarrow>
   (\<And>i s s' u. i \<in> set xs \<Longrightarrow> Rel s u \<Longrightarrow> b1 i s = Inr s' \<Longrightarrow> \<exists>u'. b2 i u = Inr u' \<and> Rel s' u') \<Longrightarrow>
   \<exists>u'. for_loop b2 xs u = Inr u' \<and> Rel s' u'"
proof (induction xs arbitrary: s u)
  case Nil
  then show ?case by simp
next
  case (Cons i js)
  from Cons.prems(1) obtain s1 where b: "b1 i s = Inr s1" and r: "for_loop b1 js s1 = Inr s'"
    by (auto split: sum.splits)
  have "\<exists>u'. b2 i u = Inr u' \<and> Rel s1 u'" by (rule Cons.prems(3)[OF _ Cons.prems(2) b]) simp
  then obtain u1 where u1: "b2 i u = Inr u1" and r1: "Rel s1 u1" by blast
  have "\<exists>u'. for_loop b2 js u1 = Inr u' \<and> Rel s' u'"
  proof (rule Cons.IH[OF r r1])
    fix j s s' u assume "j \<in> set js" "Rel s u" "b1 j s = Inr s'"
    then show "\<exists>u'. b2 j u = Inr u' \<and> Rel s' u'" using Cons.prems(3)[of j s u s'] by simp
  qed
  then show ?case using u1 by simp
qed

lemma bcm_step_forward:
  assumes "bcm_rel s u" and "bcm_step tau pre post eta theta lo hi dt t s = Inr s'"
  shows "\<exists>u'. bcm_step_without_activity pre post eta theta lo hi t u = Inr u' \<and> bcm_rel s' u'"
  using assms
  by (auto simp: bcm_rel_def bcm_step_def bcm_step_without_activity_def
           split: sum.splits if_splits)

lemma bcm_forward:
  assumes "bcm_run tau pre post w_init eta theta lo hi dt = Inr traj"
  shows "bcm_without_activity pre post w_init eta theta lo hi = Inr traj"
proof -
  let ?s0 = "\<lparr>bW = w_init, bW_history = [w_init], post_activity = replicate (shape1 post) 0\<rparr>"
  let ?u0 = "\<lparr>hW = w_init, hW_history = [w_init]\<rparr>"
  from assms obtain s where
    s: "for_loop (bcm_step tau pre post eta theta lo hi dt) [0..<shape0 pre] ?s0 = Inr s"
    and traj: "traj = bW_history s"
    by (auto simp: bcm_run_def split: sum.splits)
  have "\<exists>u'. for_loop (bcm_step_without_activity pre post eta theta lo hi) [0..<shape0 pre] ?u0 = Inr u'
          \<and> bcm_rel s u'"
  proof (rule for_loop_forward[OF s, where Rel = bcm_rel])
    show "bcm_rel ?s0 ?u0" by (simp add: bcm_rel_def)
  next
    fix i s s' u assume "bcm_rel s u" "bcm_step tau pre post eta theta lo hi dt i s = Inr s'"
    then show "\<exists>u'. bcm_step_without_activity pre post eta theta lo hi i u = Inr u' \<and> bcm_rel s' u'"
      by (rule bcm_step_forward)
  qed
  then show ?thesis using traj by (auto simp: bcm_without_activity_def bcm_rel_def)
qed

lemma bcm_step_simulation:
  assumes post: "wf_ndarray post" and t: "t < shape0 pre" "t < shape0 post" and tau: "tau \<noteq> 0"
    and rel: "bcm_rel_len (shape1 post) s u"
  shows "rel_sum (=) (bcm_rel_len (shape1 post))
           (bcm_step tau pre post eta theta lo hi dt t s)
           (bcm_step_without_activity pre post eta theta lo hi t u)"
proof -
  have len: "length (rows post ! t) = shape1 post" using wf_row_length[OF post t(2)] .
  have ia: "iadd1 (scale1 c (post_activity s)) (rows post ! t)
            = Inr (map2 (+) (scale1 c (post_activity s)) (rows post ! t))" for c
    using rel len by (simp add: iadd1_same_length bcm_rel_len_def)
  show ?thesis
    using rel t tau len
    by (cases "bcm_update eta theta lo hi (rows pre ! t) (rows post ! t) (hW u)")
       (simp_all add: bcm_step_def bcm_step_without_activity_def getitem_row_ok py_div_def ia
          bcm_rel_len_def bcm_rel_def)
qed

lemma bcm_simulation:
  assumes post: "wf_ndarray post" and n: "shape0 pre \<le> shape0 post" and tau: "tau \<noteq> 0"
  shows "bcm_run tau pre post w_init eta theta lo hi dt
         = bcm_without_activity pre post w_init eta theta lo hi"
proof -
  let ?s0 = "\<lparr>bW = w_init, bW_history = [w_init], post_activity = replicate (shape1 post) 0\<rparr>"
  let ?u0 = "\<lparr>hW = w_init, hW_history = [w_init]\<rparr>"
  have "rel_sum (=) (bcm_rel_len (shape1 post))
          (for_loop (bcm_step tau pre post eta theta lo hi dt) [0..<shape0 pre] ?s0)
          (for_loop (bcm_step_without_activity pre post eta theta lo hi) [0..<shape0 pre] ?u0)"
  proof (rule for_loop_simulation)
    show "bcm_rel_len (shape1 post) ?s0 ?u0" by (simp add: bcm_rel_len_def bcm_rel_def)
  next
    fix i s u assume "i \<in> set [0..<shape0 pre]" "bcm_rel_len (shape1 post) s u"
    then show "rel_sum (=) (bcm_rel_len (shape1 post))
           (bcm_step tau pre post eta theta lo hi dt i s)
           (bcm_step_without_activity pre post eta theta lo hi i u)"
      using bcm_step_simulation[OF post _ _ tau, of i pre s u eta theta lo hi dt] n by simp
  qed
  then show ?thesis
    by (cases "for_loop (bcm_step tau pre post eta theta lo hi dt) [0..<shape0 pre] ?s0";
        cases "for_loop (bcm_step_without_activity pre post eta theta lo hi) [0..<shape0 pre] ?u0")
       (simp_all add: bcm_run_def bcm_without_activity_def bcm_rel_len_def bcm_rel_def)
qed

lemma iadd1_length:
  "iadd1 u v = Inr w \<Longrightarrow> length w = length u"
  by (auto simp: iadd1_def broadcast1_def split: if_splits)

lemma iadd1_fails_alike:
  "length u = length u' \<Longrightarrow> iadd1 u v = Inl e \<Longrightarrow> iadd1 u' v = Inl e"
  by (auto simp: iadd1_def broadcast1_def split: if_splits)

lemma iadd1_returns_alike:
  "length u = length u' \<Longrightarrow> iadd1 u v = Inr w \<Longrightarrow> \<exists>w'. iadd1 u' v = Inr w' \<and> length w' = length w"
  by (auto simp: iadd1_def broadcast1_def split: if_splits)

lemma bcm_step_tau:
  assumes tau: "tau1 \<noteq> 0" "tau2 \<noteq> 0" and rel: "bcm_rel_tau s u"
  shows "rel_sum (=) bcm_rel_tau
           (bcm_step tau1 pre post eta theta lo hi dt t s)
           (bcm_step tau2 pre post eta theta lo hi dt t u)"
proof (cases "getitem_row post t")
  case (Inl e)
  then show ?thesis using tau by (simp add: bcm_step_def py_div_def)
next
  case (Inr post_t)
  let ?a = "iadd1 (scale1 (exp (- dt / tau1)) (post_activity s)) post_t"
  let ?b = "iadd1 (scale1 (exp (- dt / tau2)) (post_activity u)) post_t"
  have l: "length (scale1 (exp (- dt / tau1)) (post_activity s))
           = length (scale1 (exp (- dt / tau2)) (post_activity u))"
    using rel by (simp add: bcm_rel_tau_def)
  show ?thesis
  proof (cases ?a)
    case (Inl e)
    then have "?b = Inl e" using iadd1_fails_alike[OF l] by simp
    then show ?thesis using Inl Inr tau by (simp add: bcm_step_def py_div_def)
  next
    case (Inr pa)
    then obtain pb where pb: "?b = Inr pb" "length pb = length pa"
      using iadd1_returns_alike[OF l] by blast
    show ?thesis using Inr pb \<open>getitem_row post t = Inr post_t\<close> tau rel
      by (cases "getitem_row pre t";
          cases "bcm_update eta theta lo hi (projr (getitem_row pre t)) post_t (bW u)")
         (simp_all add: bcm_step_def py_div_def bcm_rel_tau_def)
  qed
qed

lemma bcm_tau_independent:
  assumes tau: "tau1 \<noteq> 0" "tau2 \<noteq> 0"
  shows "bcm_run tau1 pre post w_init eta theta lo hi dt
         = bcm_run tau2 pre post w_init eta theta lo hi dt"
proof -
  let ?s0 = "\<lparr>bW = w_init, bW_history = [w_init], post_activity = replicate (shape1 post) 0\<rparr>"
  have "rel_sum (=) bcm_rel_tau
          (for_loop (bcm_step tau1 pre post eta theta lo hi dt) [0..<shape0 pre] ?s0)
          (for_loop (bcm_step tau2 pre post eta theta lo hi dt) [0..<shape0 pre] ?s0)"
  proof (rule for_loop_simulation)
    show "bcm_rel_tau ?s0 ?s0" by (simp add: bcm_rel_tau_def)
  next
    fix i s u assume "bcm_rel_tau s u"
    then show "rel_sum (=) bcm_rel_tau
           (bcm_step tau1 pre post eta theta lo hi dt i s)
           (bcm_step tau2 pre post eta theta lo hi dt i u)"
      by (rule bcm_step_tau[OF tau])
  qed
  then show ?thesis
    by (cases "for_loop (bcm_step tau1 pre post eta theta lo hi dt) [0..<shape0 pre] ?s0";
        cases "for_loop (bcm_step tau2 pre post eta theta lo hi dt) [0..<shape0 pre] ?s0")
       (simp_all add: bcm_run_def bcm_rel_tau_def)
qed

lemma bcm_without_activity_example:
  "bcm_without_activity spiking spiking ex_w (1/10) (1/2) 0 1 = Inr [ex_w, ex_w_bcm]"
  by (simp add: bcm_without_activity_def bcm_step_without_activity_def getitem_row_def
        bcm_update_def iadd2_def broadcast2_def scale2_def np_outer_def np_clip_def
        spiking_def ex_w_def ex_w_bcm_def)

lemma advance_advance: "advance (Suc 0) (advance d g) = advance (Suc d) g"
  by (simp add: advance_def fun_eq_iff)

lemma advance_0: "advance 0 g = g"
  by (simp add: advance_def)

lemma lif_recurrence_cong:
  assumes "v' ! (k - 1) = v ! (k - 1)" "v' ! k = v ! k" "sp' ! k = sp ! k"
  shows "lif_recurrence A tau dt v_rest v_reset v_th i_dc noise_sigma g v' sp' k
         = lif_recurrence A tau dt v_rest v_reset v_th i_dc noise_sigma g v sp k"
  using assms by (simp add: lif_recurrence_def)

lemma lif_step_inv:
  assumes inv: "lif_inv A tau dt v_rest v_reset v_th i_dc noise_sigma g n d s" and d: "Suc d < n"
  shows "lif_inv A tau dt v_rest v_reset v_th i_dc noise_sigma g n (Suc d)
           (lif_step A (div_dt_tau A dt tau) dt v_rest v_reset v_th i_dc noise_sigma (Suc d) s)"
proof -
  let ?u = "euler_value A (div_dt_tau A dt tau) dt v_rest i_dc noise_sigma (lif_v s ! d) (g d)"
  let ?s' = "lif_step A (div_dt_tau A dt tau) dt v_rest v_reset v_th i_dc noise_sigma (Suc d) s"
  from inv have len: "length (lif_v s) = n" "length (lif_spikes s) = n"
    and dr: "lif_draws s = advance d g"
    and v0: "lif_v s ! 0 = store_v A v_rest" and s0: "lif_spikes s ! 0 = 0"
    and rec: "\<forall>k. 1 \<le> k \<and> k \<le> d \<longrightarrow>
        lif_recurrence A tau dt v_rest v_reset v_th i_dc noise_sigma g (lif_v s) (lif_spikes s) k"
    and z: "\<forall>k. d < k \<and> k < n \<longrightarrow> lif_spikes s ! k = 0"
    by (simp_all add: lif_inv_def)
  have g0: "lif_draws s 0 = g d" using dr by (simp add: advance_def)
  have v': "lif_v ?s' = (lif_v s)[Suc d := (if th_compared A v_th \<le> ?u then store_v A v_reset else ?u)]"
    using len d g0 by (simp add: lif_step_def Let_def)
  have sp': "lif_spikes ?s'
             = (if th_compared A v_th \<le> ?u then (lif_spikes s)[Suc d := 1] else lif_spikes s)"
    using len d g0 by (simp add: lif_step_def Let_def)
  have dr': "lif_draws ?s' = advance (Suc d) g"
    using dr by (simp add: lif_step_def Let_def advance_advance)
  have new: "lif_recurrence A tau dt v_rest v_reset v_th i_dc noise_sigma g
               (lif_v ?s') (lif_spikes ?s') (Suc d)"
    using len d z by (simp add: lif_recurrence_def v' sp' Let_def)
  have old: "lif_recurrence A tau dt v_rest v_reset v_th i_dc noise_sigma g
               (lif_v ?s') (lif_spikes ?s') k"
    if k: "1 \<le> k" "k \<le> d" for k
  proof -
    have "lif_recurrence A tau dt v_rest v_reset v_th i_dc noise_sigma g (lif_v ?s') (lif_spikes ?s') k
         = lif_recurrence A tau dt v_rest v_reset v_th i_dc noise_sigma g (lif_v s) (lif_spikes s) k"
      using k by (intro lif_recurrence_cong) (simp_all add: v' sp')
    then show ?thesis using rec k by simp
  qed
  have all: "\<forall>k. 1 \<le> k \<and> k \<le> Suc d \<longrightarrow>
        lif_recurrence A tau dt v_rest v_reset v_th i_dc noise_sigma g (lif_v ?s') (lif_spikes ?s') k"
  proof (intro allI impI)
    fix k assume "1 \<le> k \<and> k \<le> Suc d"
    then show "lif_recurrence A tau dt v_rest v_reset v_th i_dc noise_sigma g
                 (lif_v ?s') (lif_spikes ?s') k"
      using new old[of k] by (cases "k = Suc d") simp_all
  qed
  have z': "\<forall>k. Suc d < k \<and> k < n \<longrightarrow> lif_spikes ?s' ! k = 0"
    using z by (simp add: sp')
  show ?thesis
    unfolding lif_inv_def
    using len v0 s0 dr' all z' by (simp add: v' sp')
qed

lemma lif_fold_inv:
  assumes "Suc d \<le> n"
  shows "lif_inv A tau dt v_rest v_reset v_th i_dc noise_sigma g n d
           (fold (lif_step A (div_dt_tau A dt tau) dt v_rest v_reset v_th i_dc noise_sigma)
              [1..<Suc d]
              \<lparr>lif_v = (replicate n 0)[0 := store_v A v_rest], lif_spikes = replicate n 0,
               lif_draws = g\<rparr>)"
  using assms
proof (induction d)
  case 0
  then show ?case by (simp add: lif_inv_def advance_0)
next
  case (Suc d)
  have "[1..<Suc (Suc d)] = [1..<Suc d] @ [Suc d]" by simp
  then show ?case
    using Suc lif_step_inv[where d = d and n = n and A = A] by (simp del: upt_Suc)
qed

text \<open>
  The integrator returns as soon as both divisors are non-zero and the float quotient
  \<^verbatim>\<open>T / dt\<close> is positive, with \<open>\<lceil>q\<rceil>\<close> entries.
\<close>

lemma simulate_lif_returns:
  assumes "dt \<noteq> 0" "0 < div_T_dt A T dt" "tau \<noteq> 0"
  shows "\<exists>s. simulate_lif A tau dt T v_rest v_reset v_th i_dc noise_sigma g
            = Inr ((map (\<lambda>k. mul_k_dt A (real k) dt) [0..<nat \<lceil>div_T_dt A T dt\<rceil>],
                    lif_v s, lif_spikes s), lif_draws s) \<and>
          0 < nat \<lceil>div_T_dt A T dt\<rceil> \<and>
          lif_inv A tau dt v_rest v_reset v_th i_dc noise_sigma g
            (nat \<lceil>div_T_dt A T dt\<rceil>) (nat \<lceil>div_T_dt A T dt\<rceil> - 1) s"
proof -
  let ?q = "div_T_dt A T dt"
  let ?n = "nat \<lceil>?q\<rceil>"
  have c: "0 < \<lceil>?q\<rceil>" using assms(2) by (simp add: less_ceiling_iff)
  then have n: "0 < ?n" by simp
  then have sd: "Suc (?n - 1) = ?n" by simp
  let ?s = "fold (lif_step A (div_dt_tau A dt tau) dt v_rest v_reset v_th i_dc noise_sigma) [1..<?n]
              \<lparr>lif_v = (replicate ?n 0)[0 := store_v A v_rest], lif_spikes = replicate ?n 0,
               lif_draws = g\<rparr>"
  have inv: "lif_inv A tau dt v_rest v_reset v_th i_dc noise_sigma g ?n (?n - 1) ?s"
    using lif_fold_inv[of "?n - 1" ?n A tau dt v_rest v_reset v_th i_dc noise_sigma g]
    unfolding sd by simp
  have "simulate_lif A tau dt T v_rest v_reset v_th i_dc noise_sigma g
            = Inr ((map (\<lambda>k. mul_k_dt A (real k) dt) [0..<?n], lif_v ?s, lif_spikes ?s),
                   lif_draws ?s)"
  proof -
    have "\<not> \<lceil>?q\<rceil> < 0" "\<lceil>?q\<rceil> \<noteq> 0" using c by linarith+
    then show ?thesis using assms(1,3)
      unfolding simulate_lif_def py_div_def Let_def by simp
  qed
  then show ?thesis using inv n by blast
qed

lemma exact_arith_simps [simp]:
  "div_T_dt exact_arith = (/)" "div_dt_tau exact_arith = (/)" "mul_k_dt exact_arith = (*)"
  "store_v exact_arith = (\<lambda>x. x)" "sub_rest exact_arith = (-)" "add_drive exact_arith = (+)"
  "mul_alpha exact_arith = (*)" "sqrt_dt exact_arith = sqrt" "mul_sigma exact_arith = (*)"
  "mul_draw exact_arith = (*)" "add_noise exact_arith = (+)" "add_dv exact_arith = (+)"
  "th_compared exact_arith = (\<lambda>x. x)"
  by (simp_all add: exact_arith_def)


lemma py_int_nonneg: "0 \<le> x \<Longrightarrow> py_int x = \<lfloor>x\<rfloor>"
  by (simp add: py_int_def)

lemma np_random_rand_ok:
  "0 \<le> d0 \<Longrightarrow> 0 \<le> d1 \<Longrightarrow>
   \<exists>U g'. np_random_rand d0 d1 g = Inr (U, g') \<and> shape0 U = nat d0 \<and> shape1 U = nat d1"
  by (simp add: np_random_rand_def)

lemma regular_loop_ok:
  assumes "0 < st"
  shows "\<exists>S' g'. for_loop (regular_body st) xs (S, g) = Inr (S', g') \<and> shape0 S' = shape0 S"
proof -
  have "\<exists>s'. for_loop (regular_body st) xs (S, g) = Inr s' \<and> shape0 (fst s') = shape0 S"
  proof (rule for_loop_returns[where I = "\<lambda>sg. shape0 (fst sg) = shape0 S"])
    show "shape0 (fst (S, g)) = shape0 S" by simp
  next
    fix i and u :: "ndarray2 \<times> nat draws" assume "shape0 (fst u) = shape0 S"
    then show "\<exists>u'. regular_body st i u = Inr u' \<and> shape0 (fst u') = shape0 S"
      using assms by (simp add: regular_body_def set_strided_column_def)
  qed
  then show ?thesis by auto
qed

lemma rand_index_bound:
  fixes i j d0 d1 :: nat
  assumes "i < d0" "j < d1"
  shows "i * d1 + j < d0 * d1"
proof -
  have "i * d1 + j < Suc i * d1" using assms(2) by simp
  also have "\<dots> \<le> d0 * d1" using assms(1) by (intro mult_le_mono1) simp
  finally show ?thesis .
qed

lemma np_random_rand_cong:
  assumes "\<forall>k < nat d0 * nat d1. g1 k = g2 k"
  shows "map_sum id fst (np_random_rand d0 d1 g1) = map_sum id fst (np_random_rand d0 d1 g2)"
proof -
  have "map (\<lambda>i. map (\<lambda>j. g1 (i * nat d1 + j)) [0..<nat d1]) [0..<nat d0]
      = map (\<lambda>i. map (\<lambda>j. g2 (i * nat d1 + j)) [0..<nat d1]) [0..<nat d0]"
    using assms by (auto intro!: map_cong simp: rand_index_bound)
  then show ?thesis by (simp add: np_random_rand_def)
qed

lemma map_sum_fst_case:
  "map_sum id fst (case r of Inl e \<Rightarrow> Inl e | Inr (U, g') \<Rightarrow> Inr (f U, g'))
   = map_sum id f (map_sum id fst r)"
  by (cases r) (auto split: prod.splits)

lemma poisson_cong:
  assumes "\<forall>k < nat (py_int (fdiv duration dt)) * nat n. g1 k = g2 k"
  shows "map_sum id fst (generate_poisson_spikes fdiv rate duration dt n g1)
       = map_sum id fst (generate_poisson_spikes fdiv rate duration dt n g2)"
proof (cases "dt = 0")
  case True
  then show ?thesis by (simp add: generate_poisson_spikes_def py_div_def)
next
  case False
  then show ?thesis
    using np_random_rand_cong[OF assms]
    by (simp add: generate_poisson_spikes_def py_div_def map_sum_fst_case)
qed

lemma regular_loop_cong:
  assumes "\<forall>k < length xs. h1 k = h2 k"
  shows "map_sum id fst (for_loop (regular_body st) xs (S, h1))
       = map_sum id fst (for_loop (regular_body st) xs (S, h2))"
  using assms
proof (induction xs arbitrary: S h1 h2)
  case Nil
  then show ?case by simp
next
  case (Cons i js)
  show ?case
  proof (cases "st \<le> 0")
    case True
    then show ?thesis by (simp add: regular_body_def)
  next
    case False
    have h0: "h1 0 = h2 0" using Cons.prems by auto
    have "\<forall>k < length js. advance 1 h1 k = advance 1 h2 k"
      using Cons.prems by (auto simp: advance_def)
    from Cons.IH[OF this, of "set_strided_column S (h1 0) (nat st) i"]
    show ?thesis using False h0 by (simp add: regular_body_def)
  qed
qed

lemma regular_cong:
  assumes "\<forall>k < nat n. h1 k = h2 k"
  shows "map_sum id fst (generate_regular_spikes fdiv interval duration dt n h1)
       = map_sum id fst (generate_regular_spikes fdiv interval duration dt n h2)"
proof -
  have "\<forall>k < length [0..<nat n]. h1 k = h2 k" using assms by simp
  from regular_loop_cong[OF this, of "py_int (fdiv interval dt)"]
  show ?thesis
    by (auto simp: generate_regular_spikes_def py_div_def split: sum.splits)
qed

lemma correlated_cong:
  assumes "\<forall>k < nat (py_int (fdiv duration dt)) + nat (py_int (fdiv duration dt)) * nat n. g1 k = g2 k"
  shows "map_sum id fst (generate_correlated_spikes fdiv rate c duration dt n g1)
       = map_sum id fst (generate_correlated_spikes fdiv rate c duration dt n g2)"
proof (cases "dt = 0 \<or> py_int (fdiv duration dt) < 0 \<or> n < 0")
  case True
  then show ?thesis
    by (auto simp: generate_correlated_spikes_def py_div_def np_random_rand_def)
next
  case False
  let ?d0 = "nat (py_int (fdiv duration dt))"
  define RA where "RA g = fst (projr (np_random_rand (py_int (fdiv duration dt)) 1 g))" for g :: "real draws"
  define RB where "RB g = fst (projr (np_random_rand (py_int (fdiv duration dt)) n (advance ?d0 g)))"
    for g :: "real draws"
  have r1: "np_random_rand (py_int (fdiv duration dt)) 1 g = Inr (RA g, advance ?d0 g)"
    for g :: "real draws"
    using False by (simp add: RA_def np_random_rand_def)
  have r2: "np_random_rand (py_int (fdiv duration dt)) n (advance ?d0 g)
            = Inr (RB g, advance (?d0 * nat n) (advance ?d0 g))" for g :: "real draws"
    using False by (simp add: RB_def np_random_rand_def)
  have "\<forall>k < nat (py_int (fdiv duration dt)) * nat 1. g1 k = g2 k" using assms by simp
  from np_random_rand_cong[OF this] have A12: "RA g1 = RA g2" by (simp add: r1)
  have "\<forall>k < ?d0 * nat n. advance ?d0 g1 k = advance ?d0 g2 k"
    using assms by (simp add: advance_def)
  from np_random_rand_cong[OF this] have B12: "RB g1 = RB g2" by (simp add: r2)
  show ?thesis using False
    by (simp add: generate_correlated_spikes_def py_div_def r1 r2 A12 B12)
qed

lemma simulate_lif_dt_zero:
  "simulate_lif A tau 0 T v_rest v_reset v_th i_dc noise_sigma g = Inl ZeroDivisionError"
  by (simp add: simulate_lif_def py_div_def)

lemma simulate_lif_tau_zero:
  assumes "dt \<noteq> 0" "0 < div_T_dt A T dt"
  shows "simulate_lif A 0 dt T v_rest v_reset v_th i_dc noise_sigma g = Inl ZeroDivisionError"
proof -
  have c: "0 < \<lceil>div_T_dt A T dt\<rceil>" using assms(2) by (simp add: less_ceiling_iff)
  have "\<not> \<lceil>div_T_dt A T dt\<rceil> < 0" "\<lceil>div_T_dt A T dt\<rceil> \<noteq> 0" using c by linarith+
  then show ?thesis using assms(1) unfolding simulate_lif_def py_div_def by simp
qed

lemma simulate_lif_no_steps:
  assumes "dt \<noteq> 0" "div_T_dt A T dt \<le> 0"
  shows "simulate_lif A tau dt T v_rest v_reset v_th i_dc noise_sigma g = Inl ValueError \<or>
         simulate_lif A tau dt T v_rest v_reset v_th i_dc noise_sigma g = Inl IndexError"
proof -
  have c: "\<lceil>div_T_dt A T dt\<rceil> \<le> 0" using assms(2) by (simp add: ceiling_le_iff)
  show ?thesis
  proof (cases "\<lceil>div_T_dt A T dt\<rceil> < 0")
    case True
    then show ?thesis using assms(1) unfolding simulate_lif_def py_div_def by simp
  next
    case False
    then have z: "\<lceil>div_T_dt A T dt\<rceil> = 0" using c by linarith
    show ?thesis using assms(1) unfolding simulate_lif_def py_div_def by (simp add: z)
  qed
qed

lemma simulate_lif_dt_negative:
  assumes "dt < 0" "0 \<le> T"
  shows "simulate_lif exact_arith tau dt T v_rest v_reset v_th i_dc noise_sigma g = Inl ValueError \<or>
         simulate_lif exact_arith tau dt T v_rest v_reset v_th i_dc noise_sigma g = Inl IndexError"
proof (rule simulate_lif_no_steps)
  show "dt \<noteq> 0" using assms by simp
  show "div_T_dt exact_arith T dt \<le> 0" using assms by (simp add: divide_nonneg_neg)
qed

lemma split_range:
  assumes "m < n"
  shows "[0..<n] = [0..<m] @ m # [Suc m..<n]"
proof -
  have "[0..<m + (n - m)] = [0..<m] @ [m..<m + (n - m)]" by (rule upt_add_eq_append) simp
  moreover have "m + (n - m) = n" using assms by simp
  moreover have "[m..<n] = m # [Suc m..<n]" using assms by (rule upt_conv_Cons)
  ultimately show ?thesis by simp
qed

lemma for_loop_fails_at:
  assumes "m < n" and "for_loop body [0..<m] s0 = Inr s" and "body m s = Inl e"
  shows "for_loop body [0..<n] s0 = Inl e"
  using assms by (simp add: split_range[OF assms(1)] for_loop_append)

lemma stdp_step_post_missing:
  assumes pre: "wf_ndarray pre" and t: "t < shape0 pre" "\<not> t < shape0 post"
    and tau: "tp \<noteq> 0" "tm \<noteq> 0" and inv: "stdp_inv pre post s"
  shows "stdp_step pre post eta tp tm ap am lo hi dt t s = Inl IndexError"
proof -
  let ?pre_t = "rows pre ! t"
  let ?s1 = "s\<lparr>pre_trace := scale1 (exp (- dt / tp)) (pre_trace s),
                post_trace := scale1 (exp (- dt / tm)) (post_trace s)\<rparr>"
  have len: "length ?pre_t = shape1 pre" using wf_row_length[OF pre t(1)] .
  from inv have W: "wf_ndarray (sW s)" "shape0 (sW s) = shape1 pre" "shape1 (sW s) = shape1 post"
    and tr: "length (pre_trace s) = shape1 pre" "length (post_trace s) = shape1 post"
    by (simp_all add: stdp_inv_def weights_shaped_def)
  have d: "decay_traces tp tm dt s = Inr ?s1" using tau by (rule decay_traces_ok)
  have "\<exists>s'. for_loop (pre_spike_body eta am) (np_where_pos ?pre_t) ?s1 = Inr s' \<and>
      post_trace s' = post_trace ?s1 \<and> sW_history s' = sW_history ?s1 \<and>
      length (pre_trace s') = length (pre_trace ?s1) \<and>
      wf_ndarray (sW s') \<and> shape0 (sW s') = shape0 (sW ?s1) \<and> shape1 (sW s') = shape1 (sW ?s1) \<and>
      (\<forall>i<shape0 (sW ?s1). pre_trace s' ! i =
          pre_trace ?s1 ! i + (if i \<in> set (np_where_pos ?pre_t) then 1 else 0)) \<and>
      (\<forall>i<shape0 (sW ?s1). \<forall>j<shape1 (sW ?s1).
          rows (sW s') ! i ! j =
          rows (sW ?s1) ! i ! j
          - (if i \<in> set (np_where_pos ?pre_t) then eta * am * post_trace ?s1 ! j else 0))"
  proof (rule pre_loop_ok)
    show "distinct (np_where_pos ?pre_t)" by (rule np_where_pos_distinct)
    show "\<forall>i\<in>set (np_where_pos ?pre_t). i < shape0 (sW ?s1)"
      using W len by (simp add: np_where_pos_set)
    show "wf_ndarray (sW ?s1)" using W by simp
    show "length (pre_trace ?s1) = shape0 (sW ?s1)" using W tr by simp
    show "length (post_trace ?s1) = shape1 (sW ?s1)" using W tr by simp
  qed
  then obtain s2 where l1: "for_loop (pre_spike_body eta am) (np_where_pos ?pre_t) ?s1 = Inr s2"
    by blast
  show ?thesis using d l1 t by (simp add: stdp_step_def getitem_row_def)
qed

lemma bcm_step_post_missing:
  assumes "\<not> t < shape0 post" "tau \<noteq> 0"
  shows "bcm_step tau pre post eta theta lo hi dt t s = Inl IndexError"
  using assms by (simp add: bcm_step_def py_div_def getitem_row_def)

lemma stdp_short_post:
  assumes pre: "wf_ndarray pre" and post: "wf_ndarray post" and W: "weights_shaped pre post w_init"
    and n: "shape0 post < shape0 pre" and tau: "tp \<noteq> 0" "tm \<noteq> 0"
  shows "stdp_learning pre post w_init eta tp tm ap am lo hi dt = Inl IndexError \<and>
         (\<exists>s. for_loop (stdp_step pre post eta tp tm ap am lo hi dt) [0..<shape0 post]
                 \<lparr>sW = w_init, sW_history = [w_init],
                  pre_trace = replicate (shape1 pre) 0, post_trace = replicate (shape1 post) 0\<rparr>
               = Inr s)"
proof -
  let ?s0 = "\<lparr>sW = w_init, sW_history = [w_init],
              pre_trace = replicate (shape1 pre) 0, post_trace = replicate (shape1 post) 0\<rparr>"
  let ?body = "stdp_step pre post eta tp tm ap am lo hi dt"
  have "\<exists>s. for_loop ?body [0..<shape0 post] ?s0 = Inr s \<and> stdp_inv pre post s"
  proof (rule for_loop_returns[where I = "stdp_inv pre post"])
    show "stdp_inv pre post ?s0" using W by (simp add: stdp_inv_def)
  next
    fix i and u :: stdp_state assume i: "i \<in> set [0..<shape0 post]" and inv: "stdp_inv pre post u"
    then have t: "i < shape0 pre" "i < shape0 post" using n by simp_all
    show "\<exists>u'. ?body i u = Inr u' \<and> stdp_inv pre post u'"
      using stdp_step_effect[OF pre post t tau inv, of eta ap am lo hi dt] by blast
  qed
  then obtain s where run: "for_loop ?body [0..<shape0 post] ?s0 = Inr s"
    and inv: "stdp_inv pre post s" by blast
  have "?body (shape0 post) s = Inl IndexError"
    using stdp_step_post_missing[OF pre n _ tau inv] by simp
  then have "for_loop ?body [0..<shape0 pre] ?s0 = Inl IndexError"
    using for_loop_fails_at[OF n run] by simp
  then show ?thesis using run by (simp add: stdp_learning_def)
qed

lemma bcm_short_post:
  assumes pre: "wf_ndarray pre" and post: "wf_ndarray post" and W: "weights_shaped pre post w_init"
    and n: "shape0 post < shape0 pre" and tau: "tau \<noteq> 0"
  shows "bcm_run tau pre post w_init eta theta lo hi dt = Inl IndexError \<and>
         (\<exists>s. for_loop (bcm_step tau pre post eta theta lo hi dt) [0..<shape0 post]
                 \<lparr>bW = w_init, bW_history = [w_init], post_activity = replicate (shape1 post) 0\<rparr>
               = Inr s)"
proof -
  let ?s0 = "\<lparr>bW = w_init, bW_history = [w_init], post_activity = replicate (shape1 post) 0\<rparr>"
  let ?body = "bcm_step tau pre post eta theta lo hi dt"
  have "\<exists>s. for_loop ?body [0..<shape0 post] ?s0 = Inr s \<and> bcm_inv pre post s"
  proof (rule for_loop_returns[where I = "bcm_inv pre post"])
    show "bcm_inv pre post ?s0" using W by (simp add: bcm_inv_def)
  next
    fix i and u :: bcm_state assume i: "i \<in> set [0..<shape0 post]" and inv: "bcm_inv pre post u"
    then have t: "i < shape0 pre" "i < shape0 post" using n by simp_all
    show "\<exists>u'. ?body i u = Inr u' \<and> bcm_inv pre post u'"
      using bcm_step_ok[OF pre post t tau inv, of eta theta lo hi dt] by blast
  qed
  then obtain s where run: "for_loop ?body [0..<shape0 post] ?s0 = Inr s" by blast
  have "?body (shape0 post) s = Inl IndexError"
    using bcm_step_post_missing[OF _ tau] by simp
  then have "for_loop ?body [0..<shape0 pre] ?s0 = Inl IndexError"
    using for_loop_fails_at[OF n run] by simp
  then show ?thesis using run by (simp add: bcm_run_def)
qed

lemma hebbian_silent_pre_returns:
  assumes "wf_ndarray pre" "all_zero pre"
  shows "\<exists>traj. hebbian_learning pre post w_init eta lo hi = Inr traj"
proof -
  let ?s0 = "\<lparr>hW = w_init, hW_history = [w_init]\<rparr>"
  have "\<exists>s. for_loop (hebbian_step pre post eta lo hi) [0..<shape0 pre] ?s0 = Inr s \<and> True"
  proof (rule for_loop_returns[where I = "\<lambda>s. True"])
    fix i and u :: hebb_state assume "i \<in> set [0..<shape0 pre]"
    then have i: "i < shape0 pre" by simp
    have "sum_list (rows pre ! i) = 0" using all_zero_row_sum[OF assms(2,1) i] .
    then show "\<exists>u'. hebbian_step pre post eta lo hi i u = Inr u' \<and> True"
      using i by (simp add: hebbian_step_def getitem_row_def)
  qed simp
  then show ?thesis by (auto simp: hebbian_learning_def)
qed

section \<open>Claims\<close>

text \<open>
  C1, as the code has it. With \<open>w_min \<le> w_max\<close>: every STDP snapshot after the initial one
  lies in the bounds, since STDP clips at every step; the initial snapshot is \<open>w_init\<close>
  as passed in, and Hebbian and BCM clip only on gated steps, so for these the bounds hold
  at every snapshot once \<open>w_init\<close> itself lies in them. Under the call contract (and
  non-zero time constants for STDP) the rules return.
\<close>

theorem weights_stay_in_bounds:
  assumes "w_min \<le> w_max"
  shows
  "(\<forall>traj. stdp_learning pre_spikes post_spikes w_init eta tau_plus tau_minus a_plus a_minus
              w_min w_max dt = Inr traj \<longrightarrow>
      (\<forall>W\<in>set (tl traj). in_bounds w_min w_max W) \<and>
      (in_bounds w_min w_max w_init \<longrightarrow> (\<forall>W\<in>set traj. in_bounds w_min w_max W))) \<and>
   (\<forall>traj. hebbian_learning pre_spikes post_spikes w_init eta w_min w_max = Inr traj \<longrightarrow>
      in_bounds w_min w_max w_init \<longrightarrow> (\<forall>W\<in>set traj. in_bounds w_min w_max W)) \<and>
   (\<forall>traj. bcm_learning pre_spikes post_spikes w_init eta theta w_min w_max dt = Inr traj \<longrightarrow>
      in_bounds w_min w_max w_init \<longrightarrow> (\<forall>W\<in>set traj. in_bounds w_min w_max W)) \<and>
   (shapes_ok pre_spikes post_spikes w_init \<longrightarrow>
      (tau_plus \<noteq> 0 \<and> tau_minus \<noteq> 0 \<longrightarrow>
         (\<exists>traj. stdp_learning pre_spikes post_spikes w_init eta tau_plus tau_minus a_plus a_minus
                   w_min w_max dt = Inr traj)) \<and>
      (\<exists>traj. hebbian_learning pre_spikes post_spikes w_init eta w_min w_max = Inr traj) \<and>
      (\<exists>traj. bcm_learning pre_spikes post_spikes w_init eta theta w_min w_max dt = Inr traj))"
proof -
  have s: "(\<forall>W\<in>set (tl traj). in_bounds w_min w_max W) \<and>
      (in_bounds w_min w_max w_init \<longrightarrow> (\<forall>W\<in>set traj. in_bounds w_min w_max W))"
    if "stdp_learning pre_spikes post_spikes w_init eta tau_plus tau_minus a_plus a_minus
              w_min w_max dt = Inr traj" for traj
  proof -
    from stdp_returned[OF that]
    have ret: "length traj = Suc (shape0 pre_spikes)" "traj ! 0 = w_init"
      "\<forall>t<shape0 pre_spikes. \<exists>X. traj ! Suc t = np_clip X w_min w_max"
      by blast+
    have a: "in_bounds w_min w_max W" if "W \<in> set (tl traj)" for W
    proof -
      from in_set_tl_nth[OF ret(1) that] obtain t where "t < shape0 pre_spikes" "W = traj ! Suc t"
        by blast
      then obtain X where "W = np_clip X w_min w_max" using ret(3) by auto
      then show ?thesis using in_bounds_np_clip[OF assms] by simp
    qed
    have st: "\<forall>t<shape0 pre_spikes. if True then \<exists>X. traj ! Suc t = np_clip X w_min w_max
                  else traj ! Suc t = traj ! t"
      using ret(3) by simp
    have b: "\<forall>W\<in>set traj. in_bounds w_min w_max W" if "in_bounds w_min w_max w_init"
      using gated_bounds[OF ret(1) _ assms st] that ret(2) by simp
    show ?thesis using a b by blast
  qed
  have h: "\<forall>W\<in>set traj. in_bounds w_min w_max W"
    if "hebbian_learning pre_spikes post_spikes w_init eta w_min w_max = Inr traj"
      "in_bounds w_min w_max w_init" for traj
  proof -
    from hebbian_returned[OF that(1)]
    have ret: "length traj = Suc (shape0 pre_spikes)" "traj ! 0 = w_init"
      "\<forall>t<shape0 pre_spikes. if gate_fires pre_spikes post_spikes t
          then \<exists>X. traj ! Suc t = np_clip X w_min w_max else traj ! Suc t = traj ! t"
      by blast+
    show ?thesis using gated_bounds[OF ret(1) _ assms ret(3)] that(2) ret(2) by simp
  qed
  have b: "\<forall>W\<in>set traj. in_bounds w_min w_max W"
    if "bcm_learning pre_spikes post_spikes w_init eta theta w_min w_max dt = Inr traj"
      "in_bounds w_min w_max w_init" for traj
  proof -
    from that(1) have "bcm_run 100 pre_spikes post_spikes w_init eta theta w_min w_max dt = Inr traj"
      by (simp add: bcm_learning_def)
    from bcm_returned[OF this]
    have ret: "length traj = Suc (shape0 pre_spikes)" "traj ! 0 = w_init"
      "\<forall>t<shape0 pre_spikes. if gate_fires pre_spikes post_spikes t
          then \<exists>X. traj ! Suc t = np_clip X w_min w_max else traj ! Suc t = traj ! t"
      by blast+
    show ?thesis using gated_bounds[OF ret(1) _ assms ret(3)] that(2) ret(2) by simp
  qed
  have r: "(tau_plus \<noteq> 0 \<and> tau_minus \<noteq> 0 \<longrightarrow>
         (\<exists>traj. stdp_learning pre_spikes post_spikes w_init eta tau_plus tau_minus a_plus a_minus
                   w_min w_max dt = Inr traj)) \<and>
      (\<exists>traj. hebbian_learning pre_spikes post_spikes w_init eta w_min w_max = Inr traj) \<and>
      (\<exists>traj. bcm_learning pre_spikes post_spikes w_init eta theta w_min w_max dt = Inr traj)"
    if "shapes_ok pre_spikes post_spikes w_init"
    using runs_return[OF that] by blast
  show ?thesis using s h b r by blast
qed

theorem weights_stay_in_bounds_witness:
  "(0::real) \<le> 1 \<and> shapes_ok ex_pre ex_post ex_w \<and> in_bounds 0 1 ex_w \<and>
   (\<exists>traj. stdp_learning ex_pre ex_post ex_w (1/10) 20 20 (1/100) (12/1000) 0 1 1 = Inr traj \<and>
           (\<forall>W\<in>set traj. in_bounds 0 1 W)) \<and>
   (\<exists>traj. hebbian_learning ex_pre ex_post ex_w (1/10) 0 1 = Inr traj \<and>
           (\<forall>W\<in>set traj. in_bounds 0 1 W)) \<and>
   (\<exists>traj. bcm_learning ex_pre ex_post ex_w (1/10) 1 0 1 1 = Inr traj \<and>
           (\<forall>W\<in>set traj. in_bounds 0 1 W))"
proof -
  have le: "(0::real) \<le> 1" by simp
  note c = weights_stay_in_bounds[OF le, of ex_pre ex_post ex_w "1/10" 20 20 "1/100" "12/1000" 1 1]
  have t: "(20::real) \<noteq> 0" by simp
  from c ex_shapes_ok t obtain ts where
    ts: "stdp_learning ex_pre ex_post ex_w (1/10) 20 20 (1/100) (12/1000) 0 1 1 = Inr ts" by blast
  from c ex_shapes_ok obtain th where
    th: "hebbian_learning ex_pre ex_post ex_w (1/10) 0 1 = Inr th" by blast
  from c ex_shapes_ok obtain tb where
    tb: "bcm_learning ex_pre ex_post ex_w (1/10) 1 0 1 1 = Inr tb" by blast
  have "\<forall>W\<in>set ts. in_bounds 0 1 W" using c ts ex_w_in_bounds by blast
  moreover have "\<forall>W\<in>set th. in_bounds 0 1 W" using c th ex_w_in_bounds by blast
  moreover have "\<forall>W\<in>set tb. in_bounds 0 1 W" using c tb ex_w_in_bounds by blast
  ultimately show ?thesis using le ex_shapes_ok ex_w_in_bounds ts th tb by blast
qed

text \<open>
  C1 as stated fails on the initial snapshot and on ungated steps: with bounds \<open>[0, 1]\<close>
  and a weight of 5, one Hebbian step without spikes returns the weight 5 twice.
\<close>

theorem weights_in_bounds_counterexample:
  "hebbian_learning silent silent ex_w_out (1/10) 0 1 = Inr [ex_w_out, ex_w_out] \<and>
   \<not> in_bounds 0 1 ex_w_out"
  by (simp add: hebbian_learning_def hebbian_step_def getitem_row_def silent_def ex_w_out_def
        in_bounds_def)

text \<open>
  C2, as the code has it. No spike source takes a seed or a generator. Its matrix is a
  function of its parameters and of the draws it takes from numpy's global generator: two
  runs with the same parameters give the same matrix whenever the generator returns the same
  values for the draws the run takes (\<open>n_steps * n_neurons\<close> uniform draws for Poisson, one
  integer per neuron for Regular, \<open>n_steps + n_steps * n_neurons\<close> uniform draws for
  Correlated), where \<open>n_steps\<close> is the truncated float quotient \<^verbatim>\<open>duration_ms / dt_ms\<close>,
  whatever the float division \<open>fdiv\<close> returns.
\<close>

theorem spike_sources_follow_global_draws:
  "((\<forall>k < nat (py_int (fdiv duration dt)) * nat n_neurons. g1 k = g2 k) \<longrightarrow>
      map_sum id fst (generate_poisson_spikes fdiv rate_hz duration dt n_neurons g1)
      = map_sum id fst (generate_poisson_spikes fdiv rate_hz duration dt n_neurons g2)) \<and>
   ((\<forall>k < nat n_neurons. h1 k = h2 k) \<longrightarrow>
      map_sum id fst (generate_regular_spikes fdiv interval duration dt n_neurons h1)
      = map_sum id fst (generate_regular_spikes fdiv interval duration dt n_neurons h2)) \<and>
   ((\<forall>k < nat (py_int (fdiv duration dt)) + nat (py_int (fdiv duration dt)) * nat n_neurons.
        g1 k = g2 k) \<longrightarrow>
      map_sum id fst (generate_correlated_spikes fdiv rate_hz correlation duration dt n_neurons g1)
      = map_sum id fst (generate_correlated_spikes fdiv rate_hz correlation duration dt n_neurons g2))"
  using poisson_cong[of fdiv duration dt n_neurons g1 g2 rate_hz]
    regular_cong[of n_neurons h1 h2 fdiv interval duration dt]
    correlated_cong[of fdiv duration dt n_neurons g1 g2 rate_hz correlation]
  by blast

theorem spike_sources_follow_global_draws_witness:
  "nat (py_int (1 / 1)) * nat 1 = 1 \<and> draws_a 0 = draws_b 0 \<and> draws_a 1 \<noteq> draws_b 1 \<and>
   map_sum id fst (generate_poisson_spikes (/) 500 1 1 1 draws_a) = Inr spiking \<and>
   map_sum id fst (generate_poisson_spikes (/) 500 1 1 1 draws_b) = Inr spiking"
proof -
  have h: "\<forall>k < nat (py_int (1 / 1)) * nat 1. draws_a k = draws_b k"
    by (simp add: py_int_def draws_a_def draws_b_def)
  have a: "map_sum id fst (generate_poisson_spikes (/) 500 1 1 1 draws_a) = Inr spiking"
    by (simp add: generate_poisson_spikes_def py_div_def py_int_def np_random_rand_def
          less_mask_def draws_a_def spiking_def)
  have "map_sum id fst (generate_poisson_spikes (/) 500 1 1 1 draws_b) = Inr spiking"
    using spike_sources_follow_global_draws[of "(/)" 1 1 1 draws_a draws_b 500] h a by simp
  moreover have "nat (py_int (1 / 1)) * nat 1 = 1" by (simp add: py_int_def)
  moreover have "draws_a 0 = draws_b 0" "draws_a 1 \<noteq> draws_b 1"
    by (simp_all add: draws_a_def draws_b_def)
  ultimately show ?thesis using a by blast
qed

text \<open>
  C2 as stated fails: the same call of \<^verbatim>\<open>generate_poisson_spikes\<close>, with the same
  parameters, returns a spike when the global generator's next draw is 0 and none when it
  is 0.9. There is no seed among the parameters. (The quotient \<open>1 / 1\<close> is exact in floating
  point.)
\<close>

theorem reproducibility_counterexample:
  "map_sum id fst (generate_poisson_spikes (/) 500 1 1 1 (constant_draws 0)) = Inr spiking \<and>
   map_sum id fst (generate_poisson_spikes (/) 500 1 1 1 (constant_draws (9/10))) = Inr silent \<and>
   spiking \<noteq> silent"
  by (simp add: generate_poisson_spikes_def py_div_def py_int_def np_random_rand_def
        less_mask_def constant_draws_def spiking_def silent_def)

text \<open>
  C3. Whenever one of the three rules returns, the trajectory has one snapshot more than
  \<^verbatim>\<open>pre_spikes\<close> has steps and its first snapshot is \<open>w_init\<close> itself, neither
  decayed nor clipped. Under the call contract (and non-zero time constants for STDP) all
  three rules do return.
\<close>

theorem trajectory_length_and_first:
  "(\<forall>traj. stdp_learning pre_spikes post_spikes w_init eta tau_plus tau_minus a_plus a_minus
              w_min w_max dt = Inr traj \<longrightarrow>
           length traj = shape0 pre_spikes + 1 \<and> traj ! 0 = w_init) \<and>
   (\<forall>traj. hebbian_learning pre_spikes post_spikes w_init eta w_min w_max = Inr traj \<longrightarrow>
           length traj = shape0 pre_spikes + 1 \<and> traj ! 0 = w_init) \<and>
   (\<forall>traj. bcm_learning pre_spikes post_spikes w_init eta theta w_min w_max dt = Inr traj \<longrightarrow>
           length traj = shape0 pre_spikes + 1 \<and> traj ! 0 = w_init) \<and>
   (shapes_ok pre_spikes post_spikes w_init \<longrightarrow>
      (tau_plus \<noteq> 0 \<and> tau_minus \<noteq> 0 \<longrightarrow>
         (\<exists>traj. stdp_learning pre_spikes post_spikes w_init eta tau_plus tau_minus a_plus a_minus
                   w_min w_max dt = Inr traj)) \<and>
      (\<exists>traj. hebbian_learning pre_spikes post_spikes w_init eta w_min w_max = Inr traj) \<and>
      (\<exists>traj. bcm_learning pre_spikes post_spikes w_init eta theta w_min w_max dt = Inr traj))"
  using stdp_returned[of pre_spikes post_spikes w_init eta tau_plus tau_minus a_plus a_minus w_min w_max dt]
    hebbian_returned[of pre_spikes post_spikes w_init eta w_min w_max]
    bcm_returned[of 100 pre_spikes post_spikes w_init eta theta w_min w_max dt]
    runs_return[of pre_spikes post_spikes w_init tau_plus tau_minus eta a_plus a_minus w_min w_max dt theta]
  by (simp add: bcm_learning_def)

theorem trajectory_length_and_first_witness:
  "shapes_ok ex_pre ex_post ex_w \<and>
   (\<exists>traj. stdp_learning ex_pre ex_post ex_w (1/10) 20 20 (1/100) (12/1000) 0 1 1 = Inr traj \<and>
           length traj = 5 \<and> traj ! 0 = ex_w) \<and>
   (\<exists>traj. hebbian_learning ex_pre ex_post ex_w (1/10) 0 1 = Inr traj \<and>
           length traj = 5 \<and> traj ! 0 = ex_w) \<and>
   (\<exists>traj. bcm_learning ex_pre ex_post ex_w (1/10) 1 0 1 1 = Inr traj \<and>
           length traj = 5 \<and> traj ! 0 = ex_w)"
proof -
  have n: "shape0 ex_pre = 4" by (simp add: ex_pre_def)
  show ?thesis
    using trajectory_length_and_first[of ex_pre ex_post ex_w "1/10" 20 20 "1/100" "12/1000" 0 1 1 1]
      ex_shapes_ok n
    by auto
qed

text \<open>
  C4. One STDP step from a state with well-shaped weights and traces, in the order of the
  source: both traces decay; the pre loop (spiking pre neurons, ascending index)
  increments the pre trace and depresses row \<open>i\<close> with the decayed post trace, which the
  step has not yet incremented; the post loop increments the post trace and potentiates
  column \<open>j\<close> with the pre trace after the pre loop; then the weights are clipped and
  recorded. Entry by entry: the new weight is the old one, minus
  \<open>eta * A_minus * decayed post trace\<close> if pre neuron \<open>i\<close> spiked, plus
  \<open>eta * A_plus * (decayed pre trace + 1 if i spiked)\<close> if post neuron \<open>j\<close> spiked,
  clipped.
\<close>

theorem stdp_step_order:
  assumes "wf_ndarray pre_spikes" and "wf_ndarray post_spikes"
    and "t < shape0 pre_spikes" and "t < shape0 post_spikes"
    and "tau_plus \<noteq> 0" and "tau_minus \<noteq> 0"
    and "stdp_inv pre_spikes post_spikes s"
  shows "\<exists>s'. stdp_step pre_spikes post_spikes eta tau_plus tau_minus a_plus a_minus
                 w_min w_max dt t s = Inr s' \<and> stdp_inv pre_spikes post_spikes s' \<and>
      sorted (np_where_pos (rows pre_spikes ! t)) \<and> sorted (np_where_pos (rows post_spikes ! t)) \<and>
      sW_history s' = sW_history s @ [sW s'] \<and>
      (\<forall>i<shape1 pre_spikes. pre_trace s' ! i =
          exp (- dt / tau_plus) * pre_trace s ! i + (if 0 < rows pre_spikes ! t ! i then 1 else 0)) \<and>
      (\<forall>j<shape1 post_spikes. post_trace s' ! j =
          exp (- dt / tau_minus) * post_trace s ! j + (if 0 < rows post_spikes ! t ! j then 1 else 0)) \<and>
      (\<forall>i<shape1 pre_spikes. \<forall>j<shape1 post_spikes. rows (sW s') ! i ! j =
          min w_max (max w_min (rows (sW s) ! i ! j
            - (if 0 < rows pre_spikes ! t ! i
               then eta * a_minus * (exp (- dt / tau_minus) * post_trace s ! j) else 0)
            + (if 0 < rows post_spikes ! t ! j
               then eta * a_plus * (exp (- dt / tau_plus) * pre_trace s ! i
                                    + (if 0 < rows pre_spikes ! t ! i then 1 else 0))
               else 0))))"
  using stdp_step_effect[OF assms, of eta a_plus a_minus w_min w_max dt]
    np_where_pos_sorted[of "rows pre_spikes ! t"] np_where_pos_sorted[of "rows post_spikes ! t"]
  by blast

theorem stdp_step_order_witness:
  "wf_ndarray spiking \<and> (0::nat) < shape0 spiking \<and> (20::real) \<noteq> 0 \<and>
   stdp_inv spiking spiking ex_stdp_state \<and>
   (\<exists>s'. stdp_step spiking spiking (1/10) 20 20 (1/100) (12/1000) 0 1 1 0 ex_stdp_state = Inr s' \<and>
      pre_trace s' ! 0 = 1 \<and> post_trace s' ! 0 = 1 \<and> rows (sW s') ! 0 ! 0 = 1/1000)"
proof -
  have wf: "wf_ndarray spiking" by (simp add: wf_ndarray_def spiking_def)
  have t: "(0::nat) < shape0 spiking" by (simp add: spiking_def)
  have tau: "(20::real) \<noteq> 0" by simp
  have inv: "stdp_inv spiking spiking ex_stdp_state"
    by (simp add: stdp_inv_def weights_shaped_def wf_ndarray_def spiking_def ex_stdp_state_def ex_w_def)
  from stdp_step_order[OF wf wf t t tau tau inv, of "1/10" "1/100" "12/1000" 0 1 1]
  obtain s' where
    st: "stdp_step spiking spiking (1/10) 20 20 (1/100) (12/1000) 0 1 1 0 ex_stdp_state = Inr s'"
    and p: "\<forall>i<shape1 spiking. pre_trace s' ! i =
          exp (- 1 / 20) * pre_trace ex_stdp_state ! i + (if 0 < rows spiking ! 0 ! i then 1 else 0)"
    and q: "\<forall>j<shape1 spiking. post_trace s' ! j =
          exp (- 1 / 20) * post_trace ex_stdp_state ! j + (if 0 < rows spiking ! 0 ! j then 1 else 0)"
    and w: "\<forall>i<shape1 spiking. \<forall>j<shape1 spiking. rows (sW s') ! i ! j =
          min 1 (max 0 (rows (sW ex_stdp_state) ! i ! j
            - (if 0 < rows spiking ! 0 ! i
               then (1/10) * (12/1000) * (exp (- 1 / 20) * post_trace ex_stdp_state ! j) else 0)
            + (if 0 < rows spiking ! 0 ! j
               then (1/10) * (1/100) * (exp (- 1 / 20) * pre_trace ex_stdp_state ! i
                                    + (if 0 < rows spiking ! 0 ! i then 1 else 0))
               else 0)))"
    by blast
  have "pre_trace s' ! 0 = 1" using p by (simp add: spiking_def ex_stdp_state_def)
  moreover have "post_trace s' ! 0 = 1" using q by (simp add: spiking_def ex_stdp_state_def)
  moreover have "rows (sW s') ! 0 ! 0 = 1/1000"
    using w by (simp add: spiking_def ex_stdp_state_def ex_w_def)
  ultimately show ?thesis using wf t tau inv st by blast
qed



text \<open>
  C6, as the code has it. Neither \<^verbatim>\<open>simulate_lif\<close> nor a plasticity rule checks its
  configuration; an exception arises only where a Python or numpy operation fails.
  The integrator, whatever the floating-point operations \<open>A\<close> are: \<open>dt = 0\<close> fails in the
  first division (ZeroDivisionError); with a non-zero \<open>dt\<close>, a float quotient
  \<^verbatim>\<open>T / dt\<close> that is not positive fails at the allocation (ValueError) or at
  \<^verbatim>\<open>v[0]\<close> (IndexError), and with a positive quotient \<open>tau = 0\<close> fails in the second
  division (ZeroDivisionError) while a negative \<open>tau\<close> is accepted and integrated. In
  terms of the parameters, with the operations without rounding: for \<open>0 < dt\<close> and \<open>0 < T\<close>,
  \<open>tau = 0\<close> fails and a negative \<open>tau\<close> is integrated, and a negative \<open>dt\<close> with \<open>T \<ge> 0\<close>
  fails at the allocation or at \<^verbatim>\<open>v[0]\<close>. The plasticity rules take the step count from
  \<^verbatim>\<open>pre_spikes\<close> alone: with fewer post steps, STDP and BCM run the first
  \<open>shape0 post_spikes\<close> steps and raise IndexError at the next one, inside the loop; and
  with an all-zero \<^verbatim>\<open>pre_spikes\<close> the Hebbian rule returns for any \<^verbatim>\<open>post_spikes\<close> and
  any \<open>w_init\<close>, whatever their shapes.
\<close>

theorem errors_arise_where_operations_fail:
  "simulate_lif A tau 0 T v_rest v_reset v_th i_dc noise_sigma g = Inl ZeroDivisionError \<and>
   (dt \<noteq> 0 \<and> 0 < div_T_dt A T dt \<longrightarrow>
      simulate_lif A 0 dt T v_rest v_reset v_th i_dc noise_sigma g = Inl ZeroDivisionError) \<and>
   (dt \<noteq> 0 \<and> div_T_dt A T dt \<le> 0 \<longrightarrow>
      simulate_lif A tau dt T v_rest v_reset v_th i_dc noise_sigma g = Inl ValueError \<or>
      simulate_lif A tau dt T v_rest v_reset v_th i_dc noise_sigma g = Inl IndexError) \<and>
   (dt \<noteq> 0 \<and> 0 < div_T_dt A T dt \<and> tau < 0 \<longrightarrow>
      (\<exists>r. simulate_lif A tau dt T v_rest v_reset v_th i_dc noise_sigma g = Inr r)) \<and>
   (0 < dt \<and> 0 < T \<longrightarrow>
      simulate_lif exact_arith 0 dt T v_rest v_reset v_th i_dc noise_sigma g
        = Inl ZeroDivisionError) \<and>
   (dt < 0 \<and> 0 \<le> T \<longrightarrow>
      simulate_lif exact_arith tau dt T v_rest v_reset v_th i_dc noise_sigma g = Inl ValueError \<or>
      simulate_lif exact_arith tau dt T v_rest v_reset v_th i_dc noise_sigma g = Inl IndexError) \<and>
   (0 < dt \<and> 0 < T \<and> tau < 0 \<longrightarrow>
      (\<exists>r. simulate_lif exact_arith tau dt T v_rest v_reset v_th i_dc noise_sigma g = Inr r)) \<and>
   (wf_ndarray pre_spikes \<and> wf_ndarray post_spikes \<and> weights_shaped pre_spikes post_spikes w_init \<and>
    shape0 post_spikes < shape0 pre_spikes \<and> tau_plus \<noteq> 0 \<and> tau_minus \<noteq> 0 \<longrightarrow>
      stdp_learning pre_spikes post_spikes w_init eta tau_plus tau_minus a_plus a_minus
        w_min w_max dt = Inl IndexError \<and>
      (\<exists>s. for_loop (stdp_step pre_spikes post_spikes eta tau_plus tau_minus a_plus a_minus
                       w_min w_max dt) [0..<shape0 post_spikes]
                 \<lparr>sW = w_init, sW_history = [w_init],
                  pre_trace = replicate (shape1 pre_spikes) 0,
                  post_trace = replicate (shape1 post_spikes) 0\<rparr> = Inr s) \<and>
      bcm_learning pre_spikes post_spikes w_init eta theta w_min w_max dt = Inl IndexError \<and>
      (\<exists>s. for_loop (bcm_step 100 pre_spikes post_spikes eta theta w_min w_max dt)
                 [0..<shape0 post_spikes]
                 \<lparr>bW = w_init, bW_history = [w_init],
                  post_activity = replicate (shape1 post_spikes) 0\<rparr> = Inr s)) \<and>
   (wf_ndarray pre_spikes \<and> all_zero pre_spikes \<longrightarrow>
      (\<exists>traj. hebbian_learning pre_spikes post_spikes w_init eta w_min w_max = Inr traj))"
proof -
  have a: "simulate_lif A tau 0 T v_rest v_reset v_th i_dc noise_sigma g = Inl ZeroDivisionError"
    by (rule simulate_lif_dt_zero)
  have b: "simulate_lif A 0 dt T v_rest v_reset v_th i_dc noise_sigma g = Inl ZeroDivisionError"
    if "dt \<noteq> 0" "0 < div_T_dt A T dt"
    using that by (rule simulate_lif_tau_zero)
  have c: "simulate_lif A tau dt T v_rest v_reset v_th i_dc noise_sigma g = Inl ValueError \<or>
      simulate_lif A tau dt T v_rest v_reset v_th i_dc noise_sigma g = Inl IndexError"
    if "dt \<noteq> 0" "div_T_dt A T dt \<le> 0"
    using that by (rule simulate_lif_no_steps)
  have d: "\<exists>r. simulate_lif A tau dt T v_rest v_reset v_th i_dc noise_sigma g = Inr r"
    if "dt \<noteq> 0" "0 < div_T_dt A T dt" "tau < 0"
  proof -
    have "tau \<noteq> 0" using that(3) by simp
    from simulate_lif_returns[OF that(1,2) this, of v_rest v_reset v_th i_dc noise_sigma g]
    show ?thesis by blast
  qed
  have b': "simulate_lif exact_arith 0 dt T v_rest v_reset v_th i_dc noise_sigma g
              = Inl ZeroDivisionError"
    if "0 < dt" "0 < T"
  proof (rule simulate_lif_tau_zero)
    show "dt \<noteq> 0" using that by simp
    show "0 < div_T_dt exact_arith T dt" using that by simp
  qed
  have c': "simulate_lif exact_arith tau dt T v_rest v_reset v_th i_dc noise_sigma g = Inl ValueError \<or>
      simulate_lif exact_arith tau dt T v_rest v_reset v_th i_dc noise_sigma g = Inl IndexError"
    if "dt < 0" "0 \<le> T"
    using that by (rule simulate_lif_dt_negative)
  have d': "\<exists>r. simulate_lif exact_arith tau dt T v_rest v_reset v_th i_dc noise_sigma g = Inr r"
    if "0 < dt" "0 < T" "tau < 0"
  proof -
    have h: "dt \<noteq> 0" "0 < div_T_dt exact_arith T dt" "tau \<noteq> 0" using that by simp_all
    from simulate_lif_returns[OF h, of v_rest v_reset v_th i_dc noise_sigma g]
    show ?thesis by blast
  qed
  have e: "stdp_learning pre_spikes post_spikes w_init eta tau_plus tau_minus a_plus a_minus
        w_min w_max dt = Inl IndexError \<and>
      (\<exists>s. for_loop (stdp_step pre_spikes post_spikes eta tau_plus tau_minus a_plus a_minus
                       w_min w_max dt) [0..<shape0 post_spikes]
                 \<lparr>sW = w_init, sW_history = [w_init],
                  pre_trace = replicate (shape1 pre_spikes) 0,
                  post_trace = replicate (shape1 post_spikes) 0\<rparr> = Inr s) \<and>
      bcm_learning pre_spikes post_spikes w_init eta theta w_min w_max dt = Inl IndexError \<and>
      (\<exists>s. for_loop (bcm_step 100 pre_spikes post_spikes eta theta w_min w_max dt)
                 [0..<shape0 post_spikes]
                 \<lparr>bW = w_init, bW_history = [w_init],
                  post_activity = replicate (shape1 post_spikes) 0\<rparr> = Inr s)"
    if "wf_ndarray pre_spikes" "wf_ndarray post_spikes" "weights_shaped pre_spikes post_spikes w_init"
      "shape0 post_spikes < shape0 pre_spikes" "tau_plus \<noteq> 0" "tau_minus \<noteq> 0"
  proof -
    have h: "(100::real) \<noteq> 0" by simp
    show ?thesis
      using stdp_short_post[OF that, of eta a_plus a_minus w_min w_max dt]
        bcm_short_post[OF that(1-4) h, of eta theta w_min w_max dt]
      by (simp add: bcm_learning_def)
  qed
  have f: "\<exists>traj. hebbian_learning pre_spikes post_spikes w_init eta w_min w_max = Inr traj"
    if "wf_ndarray pre_spikes" "all_zero pre_spikes"
    using that by (rule hebbian_silent_pre_returns)
  show ?thesis using a b c d b' c' d' e f by blast
qed

theorem errors_arise_where_operations_fail_witness:
  "(0::real) < 1 \<and> (0::real) < 2 \<and> (-1::real) < 0 \<and> (0::real) \<le> 2 \<and> (-20::real) < 0 \<and>
   0 < div_T_dt exact_arith 2 1 \<and> div_T_dt exact_arith 2 (-1) \<le> 0 \<and>
   simulate_lif exact_arith 20 0 2 0 0 1 1 0 (constant_draws 0) = Inl ZeroDivisionError \<and>
   simulate_lif exact_arith 0 1 2 0 0 1 1 0 (constant_draws 0) = Inl ZeroDivisionError \<and>
   (simulate_lif exact_arith 20 (-1) 2 0 0 1 1 0 (constant_draws 0) = Inl ValueError \<or>
    simulate_lif exact_arith 20 (-1) 2 0 0 1 1 0 (constant_draws 0) = Inl IndexError) \<and>
   (\<exists>r. simulate_lif exact_arith (-20) 1 2 0 0 1 1 0 (constant_draws 0) = Inr r) \<and>
   wf_ndarray ex_pre \<and> wf_ndarray silent \<and> weights_shaped ex_pre silent ex_w \<and>
   shape0 silent < shape0 ex_pre \<and> all_zero silent \<and>
   stdp_learning ex_pre silent ex_w (1/10) 20 20 (1/100) (12/1000) 0 1 1 = Inl IndexError \<and>
   bcm_learning ex_pre silent ex_w (1/10) 1 0 1 1 = Inl IndexError \<and>
   (\<exists>traj. hebbian_learning silent ex_post ex_w_wide (1/10) 0 1 = Inr traj)"
proof -
  have n: "(0::real) < 1" "(0::real) < 2" "(-1::real) < 0" "(0::real) \<le> 2" "(-20::real) < 0"
    "(20::real) \<noteq> 0"
    by simp_all
  have q: "0 < div_T_dt exact_arith 2 1" "div_T_dt exact_arith 2 (-1) \<le> 0" by simp_all
  have w: "wf_ndarray ex_pre" "wf_ndarray silent" "weights_shaped ex_pre silent ex_w"
    "shape0 silent < shape0 ex_pre" "all_zero silent"
    by (simp_all add: wf_ndarray_def weights_shaped_def all_zero_def ex_pre_def silent_def ex_w_def)
  note l1 = errors_arise_where_operations_fail[of exact_arith 20 2 0 0 1 1 0 "constant_draws 0" 1
      ex_pre silent ex_w 20 20 "1/10" "1/100" "12/1000" 0 1 1]
  note l2 = errors_arise_where_operations_fail[of exact_arith 20 2 0 0 1 1 0 "constant_draws 0" "-1"]
  note l3 = errors_arise_where_operations_fail[of exact_arith "-20" 2 0 0 1 1 0 "constant_draws 0" 1
      silent ex_post ex_w_wide _ _ "1/10" _ _ 0 1]
  have a: "simulate_lif exact_arith 20 0 2 0 0 1 1 0 (constant_draws 0) = Inl ZeroDivisionError"
    using l1 by blast
  have b: "simulate_lif exact_arith 0 1 2 0 0 1 1 0 (constant_draws 0) = Inl ZeroDivisionError"
    using l1 n by blast
  have c: "simulate_lif exact_arith 20 (-1) 2 0 0 1 1 0 (constant_draws 0) = Inl ValueError \<or>
    simulate_lif exact_arith 20 (-1) 2 0 0 1 1 0 (constant_draws 0) = Inl IndexError"
    using l2 n by blast
  have d: "\<exists>r. simulate_lif exact_arith (-20) 1 2 0 0 1 1 0 (constant_draws 0) = Inr r"
    using l3 n by blast
  have e: "stdp_learning ex_pre silent ex_w (1/10) 20 20 (1/100) (12/1000) 0 1 1 = Inl IndexError"
    "bcm_learning ex_pre silent ex_w (1/10) 1 0 1 1 = Inl IndexError"
    using l1 n w by blast+
  have f: "\<exists>traj. hebbian_learning silent ex_post ex_w_wide (1/10) 0 1 = Inr traj"
    using l3 w by blast
  show ?thesis using n q w a b c d e f by blast
qed

text \<open>
  C6 as stated fails: with \<open>tau = -1\<close> the integrator raises nothing and integrates, and
  the Hebbian rule accepts weights of shape \<open>(1, 3)\<close> for two one-neuron populations and
  returns them. (On these inputs every floating-point operation of the integrator is exact.)
\<close>

theorem rejection_counterexample:
  "map_sum id fst (simulate_lif exact_arith (-1) 1 2 0 0 1 1 0 (constant_draws 0))
     = Inr ([0, 1], [0, -1], [0, 0]) \<and>
   hebbian_learning silent silent ex_w_wide (1/10) 0 1 = Inr [ex_w_wide, ex_w_wide] \<and>
   (shape0 ex_w_wide, shape1 ex_w_wide) \<noteq> (shape1 silent, shape1 silent)"
proof -
  have u: "[Suc 0..<2] = [Suc 0]" by (simp add: upt_rec)
  have z: "[0..<2] = [0::nat, 1]" by (simp add: upt_rec)
  have r: "replicate 2 (0::real) = [0, 0]" "replicate 2 (0::int) = [0, 0]"
    by (simp_all add: numeral_2_eq_2)
  have a: "map_sum id fst (simulate_lif exact_arith (-1) 1 2 0 0 1 1 0 (constant_draws 0))
     = Inr ([0, 1], [0, -1], [0, 0])"
    by (simp add: simulate_lif_def py_div_def Let_def lif_step_def euler_value_def u z r
          constant_draws_def)
  have b: "hebbian_learning silent silent ex_w_wide (1/10) 0 1 = Inr [ex_w_wide, ex_w_wide]"
    by (simp add: hebbian_learning_def hebbian_step_def getitem_row_def silent_def)
  have c: "(shape0 ex_w_wide, shape1 ex_w_wide) \<noteq> (shape1 silent, shape1 silent)"
    by (simp add: ex_w_wide_def silent_def)
  show ?thesis using a b c by blast
qed

text \<open>
  C7, as the code has it. The integrator takes \<open>n = ceil(q)\<close> of the float quotient
  \<open>q\<close> that \<^verbatim>\<open>T / dt\<close> returns; the three spike sources take
  \<open>n_steps = int(q)\<close> of the float quotient that \<^verbatim>\<open>duration_ms / dt_ms\<close> returns, which
  truncates: their matrices have \<open>floor(q)\<close> rows for \<open>q \<ge> 0\<close>. This holds whatever the
  float divisions \<open>div_T_dt A\<close> and \<open>fdiv\<close> return, so for Python's: the counts are those of
  the rounded quotient, not of the exact one.
\<close>

theorem step_counts:
  assumes "dt \<noteq> 0" and "0 \<le> n_neurons"
  shows
  "(0 < div_T_dt A duration dt \<and> tau \<noteq> 0 \<longrightarrow>
      (\<exists>t v spikes g'.
         simulate_lif A tau dt duration v_rest v_reset v_th i_dc noise_sigma g
           = Inr ((t, v, spikes), g') \<and>
         length t = nat \<lceil>div_T_dt A duration dt\<rceil> \<and> length v = nat \<lceil>div_T_dt A duration dt\<rceil> \<and>
         length spikes = nat \<lceil>div_T_dt A duration dt\<rceil>)) \<and>
   (0 \<le> fdiv duration dt \<longrightarrow>
      (\<exists>S g'. generate_poisson_spikes fdiv rate_hz duration dt n_neurons g = Inr (S, g') \<and>
           shape0 S = nat \<lfloor>fdiv duration dt\<rfloor>)) \<and>
   (0 \<le> fdiv duration dt \<and> 1 \<le> fdiv interval dt \<longrightarrow>
      (\<exists>S h'. generate_regular_spikes fdiv interval duration dt n_neurons h = Inr (S, h') \<and>
           shape0 S = nat \<lfloor>fdiv duration dt\<rfloor>)) \<and>
   (0 \<le> fdiv duration dt \<longrightarrow>
      (\<exists>S g'. generate_correlated_spikes fdiv rate_hz correlation duration dt n_neurons g
                = Inr (S, g') \<and>
           shape0 S = nat \<lfloor>fdiv duration dt\<rfloor>))"
proof -
  let ?q = "fdiv duration dt"
  have lif: "\<exists>t v spikes g'.
         simulate_lif A tau dt duration v_rest v_reset v_th i_dc noise_sigma g
           = Inr ((t, v, spikes), g') \<and>
         length t = nat \<lceil>div_T_dt A duration dt\<rceil> \<and> length v = nat \<lceil>div_T_dt A duration dt\<rceil> \<and>
         length spikes = nat \<lceil>div_T_dt A duration dt\<rceil>"
    if "0 < div_T_dt A duration dt" "tau \<noteq> 0"
  proof -
    let ?n = "nat \<lceil>div_T_dt A duration dt\<rceil>"
    from simulate_lif_returns[OF assms(1) that, of v_rest v_reset v_th i_dc noise_sigma g]
    obtain s where run: "simulate_lif A tau dt duration v_rest v_reset v_th i_dc noise_sigma g
            = Inr ((map (\<lambda>k. mul_k_dt A (real k) dt) [0..<?n], lif_v s, lif_spikes s), lif_draws s)"
      and inv: "lif_inv A tau dt v_rest v_reset v_th i_dc noise_sigma g ?n (?n - 1) s"
      by blast
    have "length (lif_v s) = ?n" "length (lif_spikes s) = ?n"
      using inv by (simp_all add: lif_inv_def)
    then show ?thesis using run by simp
  qed
  have poi: "\<exists>S g'. generate_poisson_spikes fdiv rate_hz duration dt n_neurons g = Inr (S, g') \<and>
           shape0 S = nat \<lfloor>?q\<rfloor>" if q: "0 \<le> ?q"
  proof -
    have pi: "py_int ?q = \<lfloor>?q\<rfloor>" using q by (rule py_int_nonneg)
    have fl: "0 \<le> \<lfloor>?q\<rfloor>" using q by simp
    show ?thesis using assms fl
      by (simp add: generate_poisson_spikes_def py_div_def pi np_random_rand_def less_mask_def)
  qed
  have reg: "\<exists>S h'. generate_regular_spikes fdiv interval duration dt n_neurons h = Inr (S, h') \<and>
           shape0 S = nat \<lfloor>?q\<rfloor>" if q: "0 \<le> ?q" and i: "1 \<le> fdiv interval dt"
  proof -
    have pi: "py_int ?q = \<lfloor>?q\<rfloor>" using q by (rule py_int_nonneg)
    have fl: "0 \<le> \<lfloor>?q\<rfloor>" using q by simp
    have st: "0 < py_int (fdiv interval dt)" using i by (simp add: py_int_def)
    let ?Z = "\<lparr>shape0 = nat \<lfloor>?q\<rfloor>, shape1 = nat n_neurons,
                rows = replicate (nat \<lfloor>?q\<rfloor>) (replicate (nat n_neurons) 0)\<rparr>"
    from regular_loop_ok[OF st, of "[0..<nat n_neurons]" ?Z h]
    obtain S' h' where "for_loop (regular_body (py_int (fdiv interval dt))) [0..<nat n_neurons] (?Z, h)
                          = Inr (S', h')" "shape0 S' = nat \<lfloor>?q\<rfloor>"
      by auto
    then show ?thesis using assms fl
      by (simp add: generate_regular_spikes_def py_div_def pi np_zeros2_def)
  qed
  have cor: "\<exists>S g'. generate_correlated_spikes fdiv rate_hz correlation duration dt n_neurons g
                = Inr (S, g') \<and> shape0 S = nat \<lfloor>?q\<rfloor>" if q: "0 \<le> ?q"
  proof -
    have pi: "py_int ?q = \<lfloor>?q\<rfloor>" using q by (rule py_int_nonneg)
    have fl: "0 \<le> \<lfloor>?q\<rfloor>" using q by simp
    show ?thesis using assms fl
      by (simp add: generate_correlated_spikes_def py_div_def pi np_random_rand_def less_mask_def)
  qed
  show ?thesis using lif poi reg cor by blast
qed

theorem step_counts_witness:
  "(3/10::real) \<noteq> 0 \<and> (0::int) \<le> 2 \<and> (20::real) \<noteq> 0 \<and>
   0 < div_T_dt exact_arith 100 (3/10) \<and> (0::real) \<le> 100 / (3/10) \<and> (1::real) \<le> 50 / (3/10) \<and>
   (\<exists>t v spikes g'.
      simulate_lif exact_arith 20 (3/10) 100 0 0 1 (12/10) 0 (constant_draws 0)
        = Inr ((t, v, spikes), g') \<and>
      length v = 334) \<and>
   (\<exists>S g'. generate_poisson_spikes (/) 20 100 (3/10) 2 (constant_draws 0) = Inr (S, g') \<and>
           shape0 S = 333) \<and>
   (\<exists>S h'. generate_regular_spikes (/) 50 100 (3/10) 2 (constant_draws 0) = Inr (S, h') \<and>
           shape0 S = 333) \<and>
   (\<exists>S g'. generate_correlated_spikes (/) 20 (1/2) 100 (3/10) 2 (constant_draws 0) = Inr (S, g') \<and>
           shape0 S = 333)"
proof -
  have h: "(3/10::real) \<noteq> 0" "(0::int) \<le> 2" by simp_all
  have p: "(20::real) \<noteq> 0" "0 < div_T_dt exact_arith 100 (3/10)" "(0::real) \<le> 100 / (3/10)"
    "(1::real) \<le> 50 / (3/10)"
    by simp_all
  have c: "nat \<lceil>div_T_dt exact_arith 100 (3/10)\<rceil> = 334" by (simp add: ceiling_eq_iff)
  have f: "nat \<lfloor>(100::real) / (3/10)\<rfloor> = 333" by (simp add: floor_eq_iff)
  note s = step_counts[OF h, of exact_arith 100 20 0 0 1 "12/10" 0 "constant_draws 0" "(/)" 20 50
      "constant_draws 0" "1/2"]
  have a1: "\<exists>t v spikes g'.
      simulate_lif exact_arith 20 (3/10) 100 0 0 1 (12/10) 0 (constant_draws 0)
        = Inr ((t, v, spikes), g') \<and> length v = 334"
    using s p unfolding c by blast
  have a2: "\<exists>S g'. generate_poisson_spikes (/) 20 100 (3/10) 2 (constant_draws 0) = Inr (S, g') \<and>
           shape0 S = 333"
    using s p unfolding f by blast
  have a3: "\<exists>S h'. generate_regular_spikes (/) 50 100 (3/10) 2 (constant_draws 0) = Inr (S, h') \<and>
           shape0 S = 333"
    using s p unfolding f by blast
  have a4: "\<exists>S g'. generate_correlated_spikes (/) 20 (1/2) 100 (3/10) 2 (constant_draws 0)
             = Inr (S, g') \<and> shape0 S = 333"
    using s p unfolding f by blast
  show ?thesis using h p a1 a2 a3 a4 by blast
qed

text \<open>
  C7 as stated fails for the spike sources: 100 ms at a step of 0.3 ms give 333 rows, while
  \<open>ceil(100 / 0.3) = 334\<close> (the float quotient, 333.33333333333337, truncates and rounds up
  as the exact one does); and 3 ms at a step of 2 ms, where the float division is exact,
  give one row, while \<open>ceil(3 / 2) = 2\<close>.
\<close>

theorem step_counts_counterexample:
  "map_sum id (shape0 \<circ> fst) (generate_poisson_spikes (/) 20 100 (3/10) 2 (constant_draws 0))
     = Inr 333 \<and>
   nat \<lceil>(100::real) / (3/10)\<rceil> = 334 \<and>
   map_sum id (shape0 \<circ> fst) (generate_poisson_spikes (/) 20 3 2 2 (constant_draws 0)) = Inr 1 \<and>
   nat \<lceil>(3::real) / 2\<rceil> = 2"
proof -
  have f: "\<lfloor>(1000::real) / 3\<rfloor> = 333" by (simp add: floor_eq_iff)
  have c: "nat \<lceil>(100::real) / (3/10)\<rceil> = 334" by (simp add: ceiling_eq_iff)
  have f2: "\<lfloor>(3::real) / 2\<rfloor> = 1" by (simp add: floor_eq_iff)
  have c2: "nat \<lceil>(3::real) / 2\<rceil> = 2" by (simp add: ceiling_eq_iff)
  have a: "map_sum id (shape0 \<circ> fst)
             (generate_poisson_spikes (/) 20 100 (3/10) 2 (constant_draws 0)) = Inr 333"
    by (simp add: generate_poisson_spikes_def py_div_def py_int_def np_random_rand_def
          less_mask_def f)
  have b: "map_sum id (shape0 \<circ> fst)
             (generate_poisson_spikes (/) 20 3 2 2 (constant_draws 0)) = Inr 1"
    by (simp add: generate_poisson_spikes_def py_div_def py_int_def np_random_rand_def
          less_mask_def f2)
  show ?thesis using a b c c2 by blast
qed

text \<open>
  C8, as the code has it. With an all-zero \<^verbatim>\<open>pre_spikes\<close> the Hebbian and BCM
  trajectories are constant: every snapshot is \<open>w_init\<close>. STDP adds nothing to the weights
  either, but it clips at every step: its trajectory is \<open>w_init\<close> followed by copies of
  \<open>w_init\<close> clipped into the bounds, and is constant when \<open>w_init\<close> lies in the bounds.
\<close>

theorem silent_pre_trajectory:
  assumes "all_zero pre_spikes" and "wf_ndarray pre_spikes"
  shows
  "(\<forall>traj. hebbian_learning pre_spikes post_spikes w_init eta w_min w_max = Inr traj \<longrightarrow>
      (\<forall>W\<in>set traj. W = w_init)) \<and>
   (\<forall>traj. bcm_learning pre_spikes post_spikes w_init eta theta w_min w_max dt = Inr traj \<longrightarrow>
      (\<forall>W\<in>set traj. W = w_init)) \<and>
   (shapes_ok pre_spikes post_spikes w_init \<longrightarrow>
      (\<exists>traj. hebbian_learning pre_spikes post_spikes w_init eta w_min w_max = Inr traj) \<and>
      (\<exists>traj. bcm_learning pre_spikes post_spikes w_init eta theta w_min w_max dt = Inr traj) \<and>
      (tau_plus \<noteq> 0 \<and> tau_minus \<noteq> 0 \<longrightarrow>
         (\<exists>traj. stdp_learning pre_spikes post_spikes w_init eta tau_plus tau_minus a_plus a_minus
                   w_min w_max dt = Inr traj \<and>
             traj ! 0 = w_init \<and>
             (\<forall>W\<in>set (tl traj). W = np_clip w_init w_min w_max) \<and>
             (in_bounds w_min w_max w_init \<longrightarrow> (\<forall>W\<in>set traj. W = w_init)))))"
proof -
  note ng = all_zero_no_gate[OF assms]
  have h: "\<forall>W\<in>set traj. W = w_init"
    if "hebbian_learning pre_spikes post_spikes w_init eta w_min w_max = Inr traj" for traj
  proof -
    from hebbian_returned[OF that]
    have ret: "length traj = Suc (shape0 pre_spikes)" "traj ! 0 = w_init"
      "\<forall>t<shape0 pre_spikes. if gate_fires pre_spikes post_spikes t
          then \<exists>X. traj ! Suc t = np_clip X w_min w_max else traj ! Suc t = traj ! t"
      by blast+
    have "\<forall>t<shape0 pre_spikes. traj ! Suc t = traj ! t" using ret(3) ng by simp
    then show ?thesis using constant_trajectory[OF ret(1,2)] by simp
  qed
  have b: "\<forall>W\<in>set traj. W = w_init"
    if "bcm_learning pre_spikes post_spikes w_init eta theta w_min w_max dt = Inr traj" for traj
  proof -
    from that have "bcm_run 100 pre_spikes post_spikes w_init eta theta w_min w_max dt = Inr traj"
      by (simp add: bcm_learning_def)
    from bcm_returned[OF this]
    have ret: "length traj = Suc (shape0 pre_spikes)" "traj ! 0 = w_init"
      "\<forall>t<shape0 pre_spikes. if gate_fires pre_spikes post_spikes t
          then \<exists>X. traj ! Suc t = np_clip X w_min w_max else traj ! Suc t = traj ! t"
      by blast+
    have "\<forall>t<shape0 pre_spikes. traj ! Suc t = traj ! t" using ret(3) ng by simp
    then show ?thesis using constant_trajectory[OF ret(1,2)] by simp
  qed
  have s: "\<exists>traj. stdp_learning pre_spikes post_spikes w_init eta tau_plus tau_minus a_plus a_minus
                   w_min w_max dt = Inr traj \<and>
             traj ! 0 = w_init \<and>
             (\<forall>W\<in>set (tl traj). W = np_clip w_init w_min w_max) \<and>
             (in_bounds w_min w_max w_init \<longrightarrow> (\<forall>W\<in>set traj. W = w_init))"
    if ok: "shapes_ok pre_spikes post_spikes w_init" and tau: "tau_plus \<noteq> 0" "tau_minus \<noteq> 0"
  proof -
    from stdp_run[OF ok tau, of eta a_plus a_minus w_min w_max dt] obtain traj where
      run: "stdp_learning pre_spikes post_spikes w_init eta tau_plus tau_minus a_plus a_minus
              w_min w_max dt = Inr traj"
      and len: "length traj = Suc (shape0 pre_spikes)" and first: "traj ! 0 = w_init"
      and st: "\<forall>t<shape0 pre_spikes. traj ! Suc t = np_clip (traj ! t) w_min w_max"
      using assms(1) by auto
    have tl: "\<forall>W\<in>set (tl traj). W = np_clip w_init w_min w_max"
      by (rule clipped_trajectory[OF len first st])
    have "\<forall>W\<in>set traj. W = w_init" if "in_bounds w_min w_max w_init"
      using tl first np_clip_id[OF that] set_traj_split[OF len] by auto
    then show ?thesis using run first tl by blast
  qed
  have r: "(\<exists>traj. hebbian_learning pre_spikes post_spikes w_init eta w_min w_max = Inr traj) \<and>
      (\<exists>traj. bcm_learning pre_spikes post_spikes w_init eta theta w_min w_max dt = Inr traj)"
    if "shapes_ok pre_spikes post_spikes w_init"
    using runs_return[OF that] by blast
  show ?thesis using h b s r by blast
qed

theorem silent_pre_trajectory_witness:
  "all_zero silent \<and> wf_ndarray silent \<and> shapes_ok silent spiking ex_w \<and> in_bounds 0 1 ex_w \<and>
   (\<exists>traj. hebbian_learning silent spiking ex_w (1/10) 0 1 = Inr traj \<and> (\<forall>W\<in>set traj. W = ex_w)) \<and>
   (\<exists>traj. bcm_learning silent spiking ex_w (1/10) 1 0 1 1 = Inr traj \<and> (\<forall>W\<in>set traj. W = ex_w)) \<and>
   (\<exists>traj. stdp_learning silent spiking ex_w (1/10) 20 20 (1/100) (12/1000) 0 1 1 = Inr traj \<and>
           (\<forall>W\<in>set traj. W = ex_w))"
proof -
  note c = silent_pre_trajectory[OF silent_all_zero, of spiking ex_w "1/10" 0 1 1 1 20 20 "1/100" "12/1000"]
  have t: "(20::real) \<noteq> 0" by simp
  from c silent_spiking_ok obtain th where
    th: "hebbian_learning silent spiking ex_w (1/10) 0 1 = Inr th" by blast
  from c silent_spiking_ok obtain tb where
    tb: "bcm_learning silent spiking ex_w (1/10) 1 0 1 1 = Inr tb" by blast
  have "\<forall>W\<in>set th. W = ex_w" using c th by blast
  moreover have "\<forall>W\<in>set tb. W = ex_w" using c tb by blast
  moreover have "\<exists>traj. stdp_learning silent spiking ex_w (1/10) 20 20 (1/100) (12/1000) 0 1 1 = Inr traj \<and>
           (\<forall>W\<in>set traj. W = ex_w)"
    using c silent_spiking_ok t ex_w_in_bounds by blast
  ultimately show ?thesis using silent_all_zero silent_spiking_ok ex_w_in_bounds th tb by blast
qed

text \<open>
  C8 as stated fails for STDP: with bounds \<open>[0, 1]\<close>, a weight of 5 and one step without
  any spike, the second snapshot is the clipped weight 1, not the initial 5.
\<close>

theorem silent_pre_counterexample:
  "all_zero silent \<and>
   stdp_learning silent silent ex_w_out (1/10) 20 20 (1/100) (12/1000) 0 1 1
     = Inr [ex_w_out, ex_w_clipped] \<and>
   ex_w_clipped \<noteq> ex_w_out"
  by (simp add: stdp_learning_def stdp_step_def decay_traces_def py_div_def getitem_row_def
        np_where_pos_def clip_and_record_def np_clip_def scale1_def
        silent_def ex_w_out_def ex_w_clipped_def all_zero_def)

text \<open>
  C9. In the Hebbian and BCM loops a step whose gate does not fire appends the previous
  snapshot unchanged, with no clip: every returned trajectory repeats the snapshot at such
  a step, and up to the first gated step every snapshot is \<open>w_init\<close>, whatever its
  entries. Under the call contract both rules return.
\<close>

theorem ungated_step_keeps_snapshot:
  "(\<forall>traj. hebbian_learning pre_spikes post_spikes w_init eta w_min w_max = Inr traj \<longrightarrow>
      (\<forall>t<shape0 pre_spikes. \<not> gate_fires pre_spikes post_spikes t \<longrightarrow> traj ! Suc t = traj ! t) \<and>
      (\<forall>k\<le>shape0 pre_spikes. (\<forall>t<k. \<not> gate_fires pre_spikes post_spikes t) \<longrightarrow> traj ! k = w_init)) \<and>
   (\<forall>traj. bcm_learning pre_spikes post_spikes w_init eta theta w_min w_max dt = Inr traj \<longrightarrow>
      (\<forall>t<shape0 pre_spikes. \<not> gate_fires pre_spikes post_spikes t \<longrightarrow> traj ! Suc t = traj ! t) \<and>
      (\<forall>k\<le>shape0 pre_spikes. (\<forall>t<k. \<not> gate_fires pre_spikes post_spikes t) \<longrightarrow> traj ! k = w_init)) \<and>
   (shapes_ok pre_spikes post_spikes w_init \<longrightarrow>
      (\<exists>traj. hebbian_learning pre_spikes post_spikes w_init eta w_min w_max = Inr traj) \<and>
      (\<exists>traj. bcm_learning pre_spikes post_spikes w_init eta theta w_min w_max dt = Inr traj))"
proof -
  have h: "(\<forall>t<shape0 pre_spikes. \<not> gate_fires pre_spikes post_spikes t \<longrightarrow> traj ! Suc t = traj ! t) \<and>
      (\<forall>k\<le>shape0 pre_spikes. (\<forall>t<k. \<not> gate_fires pre_spikes post_spikes t) \<longrightarrow> traj ! k = w_init)"
    if "hebbian_learning pre_spikes post_spikes w_init eta w_min w_max = Inr traj" for traj
  proof -
    from hebbian_returned[OF that]
    have ret: "length traj = Suc (shape0 pre_spikes)" "traj ! 0 = w_init"
      "\<forall>t<shape0 pre_spikes. if gate_fires pre_spikes post_spikes t
          then \<exists>X. traj ! Suc t = np_clip X w_min w_max else traj ! Suc t = traj ! t"
      by blast+
    show ?thesis using ungated_steps[OF ret] by simp
  qed
  have b: "(\<forall>t<shape0 pre_spikes. \<not> gate_fires pre_spikes post_spikes t \<longrightarrow> traj ! Suc t = traj ! t) \<and>
      (\<forall>k\<le>shape0 pre_spikes. (\<forall>t<k. \<not> gate_fires pre_spikes post_spikes t) \<longrightarrow> traj ! k = w_init)"
    if "bcm_learning pre_spikes post_spikes w_init eta theta w_min w_max dt = Inr traj" for traj
  proof -
    from that have "bcm_run 100 pre_spikes post_spikes w_init eta theta w_min w_max dt = Inr traj"
      by (simp add: bcm_learning_def)
    from bcm_returned[OF this]
    have ret: "length traj = Suc (shape0 pre_spikes)" "traj ! 0 = w_init"
      "\<forall>t<shape0 pre_spikes. if gate_fires pre_spikes post_spikes t
          then \<exists>X. traj ! Suc t = np_clip X w_min w_max else traj ! Suc t = traj ! t"
      by blast+
    show ?thesis using ungated_steps[OF ret] by simp
  qed
  have r: "(\<exists>traj. hebbian_learning pre_spikes post_spikes w_init eta w_min w_max = Inr traj) \<and>
      (\<exists>traj. bcm_learning pre_spikes post_spikes w_init eta theta w_min w_max dt = Inr traj)"
    if "shapes_ok pre_spikes post_spikes w_init"
    using runs_return[OF that] by blast
  show ?thesis using h b r by blast
qed

theorem ungated_step_keeps_snapshot_witness:
  "shapes_ok silent silent ex_w_out \<and> \<not> gate_fires silent silent 0 \<and> \<not> in_bounds 0 1 ex_w_out \<and>
   (\<exists>traj. hebbian_learning silent silent ex_w_out (1/10) 0 1 = Inr traj \<and>
           traj ! 1 = traj ! 0 \<and> traj ! 1 = ex_w_out) \<and>
   (\<exists>traj. bcm_learning silent silent ex_w_out (1/10) 1 0 1 1 = Inr traj \<and>
           traj ! 1 = traj ! 0 \<and> traj ! 1 = ex_w_out)"
proof -
  note c = ungated_step_keeps_snapshot[of silent silent ex_w_out "1/10" 0 1 1 1]
  have n: "shape0 silent = 1" by (simp add: silent_def)
  have nb: "\<not> in_bounds 0 1 ex_w_out" by (simp add: in_bounds_def ex_w_out_def)
  from c silent_shapes_ok obtain th where
    th: "hebbian_learning silent silent ex_w_out (1/10) 0 1 = Inr th" by blast
  from c silent_shapes_ok obtain tb where
    tb: "bcm_learning silent silent ex_w_out (1/10) 1 0 1 1 = Inr tb" by blast
  have h: "th ! 1 = th ! 0 \<and> th ! 1 = ex_w_out"
    using c th n silent_no_gate by (metis One_nat_def le_refl less_Suc0 zero_less_one)
  have b: "tb ! 1 = tb ! 0 \<and> tb ! 1 = ex_w_out"
    using c tb n silent_no_gate by (metis One_nat_def le_refl less_Suc0 zero_less_one)
  show ?thesis using silent_shapes_ok silent_no_gate nb th tb h b by blast
qed

text \<open>
  C10. The running average of \<^verbatim>\<open>bcm_learning\<close> is written at every step and never
  read by the weight update. Whenever \<^verbatim>\<open>bcm_learning\<close> returns a trajectory, the loop
  without \<^verbatim>\<open>post_activity\<close> returns the same one; when \<^verbatim>\<open>post_spikes\<close> is a
  well-formed array with at least as many steps as \<^verbatim>\<open>pre_spikes\<close> the two agree as
  results altogether; and any non-zero \<^verbatim>\<open>tau_avg\<close> in place of 100 gives the same
  result.
\<close>

theorem bcm_ignores_post_activity:
  "(\<forall>traj. bcm_learning pre_spikes post_spikes w_init eta theta w_min w_max dt = Inr traj \<longrightarrow>
      bcm_without_activity pre_spikes post_spikes w_init eta theta w_min w_max = Inr traj) \<and>
   (wf_ndarray post_spikes \<and> shape0 pre_spikes \<le> shape0 post_spikes \<longrightarrow>
      bcm_learning pre_spikes post_spikes w_init eta theta w_min w_max dt
        = bcm_without_activity pre_spikes post_spikes w_init eta theta w_min w_max) \<and>
   (\<forall>tau_avg. tau_avg \<noteq> 0 \<longrightarrow>
      bcm_run tau_avg pre_spikes post_spikes w_init eta theta w_min w_max dt
        = bcm_learning pre_spikes post_spikes w_init eta theta w_min w_max dt)"
proof -
  have h: "(100::real) \<noteq> 0" by simp
  have a: "bcm_without_activity pre_spikes post_spikes w_init eta theta w_min w_max = Inr traj"
    if "bcm_learning pre_spikes post_spikes w_init eta theta w_min w_max dt = Inr traj" for traj
    using that bcm_forward[of 100] by (simp add: bcm_learning_def)
  have b: "bcm_learning pre_spikes post_spikes w_init eta theta w_min w_max dt
        = bcm_without_activity pre_spikes post_spikes w_init eta theta w_min w_max"
    if "wf_ndarray post_spikes" "shape0 pre_spikes \<le> shape0 post_spikes"
    using bcm_simulation[OF that h] by (simp add: bcm_learning_def)
  have c: "bcm_run tau_avg pre_spikes post_spikes w_init eta theta w_min w_max dt
        = bcm_learning pre_spikes post_spikes w_init eta theta w_min w_max dt"
    if "tau_avg \<noteq> 0" for tau_avg
    using bcm_tau_independent[OF that h] by (simp add: bcm_learning_def)
  show ?thesis using a b c by blast
qed

theorem bcm_ignores_post_activity_witness:
  "wf_ndarray spiking \<and> shape0 spiking \<le> shape0 spiking \<and> (7::real) \<noteq> 0 \<and>
   bcm_learning spiking spiking ex_w (1/10) (1/2) 0 1 1 = Inr [ex_w, ex_w_bcm] \<and>
   bcm_without_activity spiking spiking ex_w (1/10) (1/2) 0 1 = Inr [ex_w, ex_w_bcm] \<and>
   bcm_run 7 spiking spiking ex_w (1/10) (1/2) 0 1 1 = Inr [ex_w, ex_w_bcm]"
proof -
  note c = bcm_ignores_post_activity[of spiking spiking ex_w "1/10" "1/2" 0 1 1]
  have wf: "wf_ndarray spiking" by (simp add: wf_ndarray_def spiking_def)
  have t: "(7::real) \<noteq> 0" by simp
  have n: "shape0 spiking \<le> shape0 spiking" by simp
  from c have c2: "wf_ndarray spiking \<and> shape0 spiking \<le> shape0 spiking \<longrightarrow>
      bcm_learning spiking spiking ex_w (1/10) (1/2) 0 1 1
        = bcm_without_activity spiking spiking ex_w (1/10) (1/2) 0 1"
    by (rule conjunct1[OF conjunct2])
  from c have c3: "\<forall>tau_avg. tau_avg \<noteq> 0 \<longrightarrow>
      bcm_run tau_avg spiking spiking ex_w (1/10) (1/2) 0 1 1
        = bcm_learning spiking spiking ex_w (1/10) (1/2) 0 1 1"
    by (rule conjunct2[OF conjunct2])
  have l: "bcm_learning spiking spiking ex_w (1/10) (1/2) 0 1 1 = Inr [ex_w, ex_w_bcm]"
    using c2 wf n bcm_without_activity_example by metis
  have r: "bcm_run 7 spiking spiking ex_w (1/10) (1/2) 0 1 1 = Inr [ex_w, ex_w_bcm]"
    using c3[rule_format, OF t] l by metis
  show ?thesis using wf n t l r bcm_without_activity_example by blast
qed

end
